(* ===== verification/Prelude.thy ===== *)
theory Prelude
  imports
    Main
    "HOL-Library.Char_ord"
    "HOL-Library.List_Lexorder"
    "HOL-Library.Product_Lexorder"
    "HOL-Library.Multiset"
    "HOL-Library.AList"
begin

section \<open>Prelude: results, strings and sorted lists shared by the components\<close>

text \<open>
  A Python \<open>str\<close> is modelled by its UTF-8 bytes, a Python \<open>bytes\<close> by the
  same type: both are \<open>string\<close> (\<open>char list\<close>, one \<open>char\<close> per byte).
  The order of \<open>string\<close> is the lexicographic order of the bytes
  (\<open>Char_ord\<close>, \<open>List_Lexorder\<close>), which on UTF-8 is the code point order of
  Python strings; the order of tuples is \<open>Product_Lexorder\<close>. A function that may
  raise returns \<open>exn + 'a\<close>.
\<close>

subsection \<open>Exceptions and results\<close>

text \<open>\<open>FuelExhausted\<close> is no Python exception: a loop whose model has fuel gives it when the fuel
  is used up.\<close>

datatype exn =
    GenerationError string
  | JournalError string
  | ArchiveError string
  | OSError string
  | JSONDecodeError
  | UnicodeError
  | RecursionError
  | ValueError string
  | OverflowError string
  | KeyError string
  | TypeError string
  | AttributeError string
  | ZeroDivisionError
  | ContractError string
  | MaintenanceError string
  | FuelExhausted

type_synonym 'a res = "exn + 'a"

definition bind_res :: "'a res \<Rightarrow> ('a \<Rightarrow> 'b res) \<Rightarrow> 'b res" where
  "bind_res m f = (case m of Inl e \<Rightarrow> Inl e | Inr x \<Rightarrow> f x)"

definition guard_res :: "bool \<Rightarrow> exn \<Rightarrow> unit res" where
  "guard_res b e = (if b then Inr () else Inl e)"

text \<open>\<open>except error as e: raise e'\<close>: every error of the block becomes \<open>e'\<close>.\<close>

definition reraise :: "'a res \<Rightarrow> exn \<Rightarrow> 'a res" where
  "reraise m e = (case m of Inl _ \<Rightarrow> Inl e | Inr x \<Rightarrow> Inr x)"

fun fold_res :: "('s \<Rightarrow> 'a \<Rightarrow> 's res) \<Rightarrow> 's \<Rightarrow> 'a list \<Rightarrow> 's res" where
  "fold_res f s [] = Inr s"
| "fold_res f s (x # xs) = bind_res (f s x) (\<lambda>s'. fold_res f s' xs)"

fun map_res :: "('a \<Rightarrow> 'b res) \<Rightarrow> 'a list \<Rightarrow> 'b list res" where
  "map_res f [] = Inr []"
| "map_res f (x # xs) = bind_res (f x) (\<lambda>y. bind_res (map_res f xs) (\<lambda>ys. Inr (y # ys)))"

named_theorems res_simps \<open>unfolding of the result combinators\<close>
named_theorems order_simps \<open>strict order on encoded keys\<close>

lemma bind_res_simps [simp, res_simps]:
  "bind_res (Inl e) f = Inl e" "bind_res (Inr x) f = f x"
  by (simp_all add: bind_res_def)

lemma bind_res_cong [fundef_cong]:
  "m = m' \<Longrightarrow> (\<And>x. m' = Inr x \<Longrightarrow> f x = g x) \<Longrightarrow> bind_res m f = bind_res m' g"
  by (cases m') (simp_all add: bind_res_def)

lemma bind_res_Inr_iff: "bind_res m f = Inr y \<longleftrightarrow> (\<exists>x. m = Inr x \<and> f x = Inr y)"
  by (cases m) (simp_all add: bind_res_def)

lemma bind_res_Inl_iff:
  "bind_res m f = Inl e \<longleftrightarrow> m = Inl e \<or> (\<exists>x. m = Inr x \<and> f x = Inl e)"
  by (cases m) (simp_all add: bind_res_def)

lemma guard_res_simps [simp, res_simps]:
  "guard_res True e = Inr ()" "guard_res False e = Inl e"
  by (simp_all add: guard_res_def)

lemma guard_res_iff [simp]:
  "guard_res b e = Inr u \<longleftrightarrow> b" "guard_res b e = Inl e' \<longleftrightarrow> \<not> b \<and> e' = e"
  by (auto simp: guard_res_def)

lemma reraise_simps [simp, res_simps]:
  "reraise (Inl e') e = Inl e" "reraise (Inr x) e = Inr x"
  by (simp_all add: reraise_def)

lemma reraise_Inr_iff [simp]: "reraise m e = Inr x \<longleftrightarrow> m = Inr x"
  by (cases m) simp_all

lemma fold_res_append:
  "fold_res f s (xs @ ys) = bind_res (fold_res f s xs) (\<lambda>s'. fold_res f s' ys)"
proof (induction xs arbitrary: s)
  case (Cons x xs)
  then show ?case by (cases "f s x") simp_all
qed simp

lemma fold_res_snoc:
  "fold_res f s (xs @ [x]) = bind_res (fold_res f s xs) (\<lambda>s'. f s' x)"
proof -
  have "bind_res (f s' x) Inr = f s' x" for s'
    by (cases "f s' x") simp_all
  then show ?thesis by (simp add: fold_res_append)
qed

lemma fold_res_invariant:
  assumes "fold_res f s xs = Inr s'" and "I s"
    and "\<And>s x s'. x \<in> set xs \<Longrightarrow> f s x = Inr s' \<Longrightarrow> I s \<Longrightarrow> I s'"
  shows "I s'"
  using assms
proof (induction xs arbitrary: s)
  case (Cons x xs)
  from Cons.prems(1) obtain t where t: "f s x = Inr t" "fold_res f t xs = Inr s'"
    by (auto simp: bind_res_Inr_iff)
  have "I t" by (rule Cons.prems(3) [OF _ t(1) Cons.prems(2)]) simp
  then show ?case by (rule Cons.IH [OF t(2)]) (rule Cons.prems(3), auto)
qed simp

lemma map_res_Inr_iff:
  "map_res f xs = Inr ys \<longleftrightarrow> list_all2 (\<lambda>x y. f x = Inr y) xs ys"
proof (induction xs arbitrary: ys)
  case (Cons x xs)
  show ?case
    by (cases ys) (auto simp: bind_res_Inr_iff Cons.IH)
qed auto

end
