(* ===== verification/Py_Float.thy ===== *)
theory Py_Float
  imports Complex_Main Prelude "HOL-Library.Log_Nat"
begin

section \<open>Python floats: IEEE 754 binary64\<close>

text \<open>
  A Python \<open>float\<close> is a binary64 value. \<open>Finite s m e\<close> is
  \<open>(-1)^s * m * 2^e\<close> in canonical form (\<open>canonical\<close> below). Arithmetic is the exact
  rational result rounded to nearest, ties to even (\<open>round_mag\<close>), and overflows to an
  infinity, as the hardware operations of CPython do.
\<close>

datatype pyfloat = Finite bool nat int | Infinite bool | NaN

definition pow2 :: "int \<Rightarrow> rat" where
  "pow2 k = (if 0 \<le> k then 2 ^ nat k else 1 / 2 ^ nat (- k))"

definition mag_val :: "nat \<Rightarrow> int \<Rightarrow> rat" where
  "mag_val m e = of_nat m * pow2 e"

fun fl_val :: "pyfloat \<Rightarrow> rat" where
  "fl_val (Finite s m e) = (if s then - mag_val m e else mag_val m e)"
| "fl_val _ = 0"

definition canonical_mag :: "nat \<Rightarrow> int \<Rightarrow> bool" where
  "canonical_mag m e \<longleftrightarrow>
     m < 2 ^ 53 \<and> - 1074 \<le> e \<and> e \<le> 971 \<and> (2 ^ 52 \<le> m \<or> e = - 1074)"

fun canonical :: "pyfloat \<Rightarrow> bool" where
  "canonical (Finite s m e) = canonical_mag m e"
| "canonical _ = True"

text \<open>\<open>ilog2 r\<close> is the exponent \<open>k\<close> with \<open>2^k \<le> r < 2^(k+1)\<close>.\<close>

definition ilog2 :: "rat \<Rightarrow> int" where
  "ilog2 r =
     (let (p, q) = quotient_of r; k = bitlen p - bitlen q
      in if pow2 k \<le> r then k else k - 1)"

definition round_half_even :: "rat \<Rightarrow> int" where
  "round_half_even r =
     (let f = \<lfloor>r\<rfloor>; d = r - of_int f
      in if d < 1 / 2 then f else if 1 / 2 < d then f + 1 else if even f then f else f + 1)"

text \<open>The magnitude nearest to a non-negative rational; \<open>None\<close> is overflow.\<close>

definition round_mag :: "rat \<Rightarrow> (nat \<times> int) option" where
  "round_mag r =
     (if r = 0 then Some (0, - 1074)
      else
        let e = max (- 1074) (ilog2 r - 52);
            m = nat (round_half_even (r / pow2 e));
            (m', e') = (if m = 2 ^ 53 then (2 ^ 52, e + 1) else (m, e))
        in if 971 < e' then None else Some (m', e'))"

text \<open>The float nearest to a rational, with the sign given for a zero result.\<close>

definition fl_round :: "bool \<Rightarrow> rat \<Rightarrow> pyfloat" where
  "fl_round zs r =
     (let s = (if r = 0 then zs else r < 0)
      in case round_mag \<bar>r\<bar> of None \<Rightarrow> Infinite s | Some (m, e) \<Rightarrow> Finite s m e)"

fun fl_neg :: "pyfloat \<Rightarrow> pyfloat" where
  "fl_neg (Finite s m e) = Finite (\<not> s) m e"
| "fl_neg (Infinite s) = Infinite (\<not> s)"
| "fl_neg NaN = NaN"

fun fl_abs :: "pyfloat \<Rightarrow> pyfloat" where
  "fl_abs (Finite s m e) = Finite False m e"
| "fl_abs (Infinite s) = Infinite False"
| "fl_abs NaN = NaN"

fun fl_add :: "pyfloat \<Rightarrow> pyfloat \<Rightarrow> pyfloat" where
  "fl_add NaN y = NaN"
| "fl_add x NaN = NaN"
| "fl_add (Infinite s) (Infinite t) = (if s = t then Infinite s else NaN)"
| "fl_add (Infinite s) (Finite t m e) = Infinite s"
| "fl_add (Finite s m e) (Infinite t) = Infinite t"
| "fl_add (Finite s m e) (Finite s' m' e') =
     fl_round (s \<and> s') (fl_val (Finite s m e) + fl_val (Finite s' m' e'))"

fun fl_less :: "pyfloat \<Rightarrow> pyfloat \<Rightarrow> bool" where
  "fl_less NaN y = False"
| "fl_less x NaN = False"
| "fl_less (Infinite s) (Infinite t) = (s \<and> \<not> t)"
| "fl_less (Infinite s) (Finite t m e) = s"
| "fl_less (Finite s m e) (Infinite t) = (\<not> t)"
| "fl_less (Finite s m e) (Finite t m' e') = (fl_val (Finite s m e) < fl_val (Finite t m' e'))"

fun fl_eq :: "pyfloat \<Rightarrow> pyfloat \<Rightarrow> bool" where
  "fl_eq NaN y = False"
| "fl_eq x NaN = False"
| "fl_eq (Infinite s) (Infinite t) = (s = t)"
| "fl_eq (Infinite s) (Finite t m e) = False"
| "fl_eq (Finite s m e) (Infinite t) = False"
| "fl_eq (Finite s m e) (Finite t m' e') = (fl_val (Finite s m e) = fl_val (Finite t m' e'))"

text \<open>\<open>math.isfinite\<close>\<close>

fun fl_isfinite :: "pyfloat \<Rightarrow> bool" where
  "fl_isfinite (Finite s m e) = True"
| "fl_isfinite _ = False"

definition fl_zero :: pyfloat where
  "fl_zero = Finite False 0 (- 1074)"

text \<open>\<open>float(n)\<close> of an \<open>int\<close> raises \<open>OverflowError\<close> when it is too large.\<close>

definition float_of_int :: "int \<Rightarrow> pyfloat res" where
  "float_of_int n =
     (case fl_round False (of_int n) of
        Infinite s \<Rightarrow> Inl (OverflowError ''int too large to convert to float'')
      | x \<Rightarrow> Inr x)"

end
