(* ===== verification/Py_Text.thy ===== *)
theory Py_Text
  imports Prelude
begin

section \<open>Python text: splitting, decimal and hexadecimal notation\<close>

text \<open>
  The operations on \<open>str\<close> and \<open>bytes\<close> that the OMS scripts use: \<open>split\<close> and
  \<open>join\<close> on one separator, \<open>rstrip\<close> of newlines, \<open>partition\<close>,
  \<open>splitlines\<close>, \<open>str(int)\<close> and \<open>int(str)\<close>, \<open>bytes.hex\<close> and
  \<open>bytes.fromhex\<close>, \<open>decode("ascii")\<close> and \<open>decode("utf-8")\<close>, with the
  round-trip and order lemmas the index codecs rest on.
\<close>

subsection \<open>Separators\<close>

definition TAB :: char where "TAB = CHR 0x09"
definition LF :: char where "LF = CHR 0x0A"
definition CR :: char where "CR = CHR 0x0D"

fun split_on :: "char \<Rightarrow> string \<Rightarrow> string list" where
  "split_on c [] = [[]]"
| "split_on c (x # xs) =
     (if x = c then [] # split_on c xs
      else (case split_on c xs of [] \<Rightarrow> [[x]] | y # ys \<Rightarrow> (x # y) # ys))"

fun join_with :: "char \<Rightarrow> string list \<Rightarrow> string" where
  "join_with c [] = []"
| "join_with c [x] = x"
| "join_with c (x # y # ys) = x @ c # join_with c (y # ys)"

fun rstrip_char :: "char \<Rightarrow> string \<Rightarrow> string" where
  "rstrip_char c [] = []"
| "rstrip_char c (x # xs) =
     (case rstrip_char c xs of [] \<Rightarrow> (if x = c then [] else [x]) | y # ys \<Rightarrow> x # y # ys)"

text \<open>\<open>s.partition(c)\<close>: \<open>None\<close> when the separator does not occur.\<close>

fun partition_at :: "char \<Rightarrow> string \<Rightarrow> (string \<times> string) option" where
  "partition_at c [] = None"
| "partition_at c (x # xs) =
     (if x = c then Some ([], xs)
      else (case partition_at c xs of None \<Rightarrow> None | Some (a, b) \<Rightarrow> Some (x # a, b)))"

lemma split_on_not_Nil [simp]: "split_on c s \<noteq> []"
  by (cases s) (auto split: list.splits)

lemma split_on_no_sep: "c \<notin> set s \<Longrightarrow> split_on c s = [s]"
  by (induction s) auto

lemma split_on_append_sep:
  "c \<notin> set s \<Longrightarrow> split_on c (s @ c # t) = s # split_on c t"
  by (induction s) auto

lemma split_on_join:
  "xs \<noteq> [] \<Longrightarrow> \<forall>x \<in> set xs. c \<notin> set x \<Longrightarrow> split_on c (join_with c xs) = xs"
  by (induction c xs rule: join_with.induct) (auto simp: split_on_no_sep split_on_append_sep)

lemma join_split_on: "join_with c (split_on c s) = s"
proof (induction s)
  case (Cons x xs)
  obtain y ys where "split_on c xs = y # ys" by (metis split_on_not_Nil neq_Nil_conv)
  then show ?case using Cons by (cases ys) auto
qed simp

lemma set_join_with:
  "set (join_with c xs) \<subseteq> insert c (\<Union>x \<in> set xs. set x)"
  by (induction c xs rule: join_with.induct) auto

lemma not_in_join_with:
  "d \<noteq> c \<Longrightarrow> \<forall>x \<in> set xs. d \<notin> set x \<Longrightarrow> d \<notin> set (join_with c xs)"
  using set_join_with [of c xs] by auto

lemma length_split_on: "length (split_on c s) = Suc (count_list s c)"
  by (induction s) (auto split: list.splits)

lemma rstrip_char_no_sep: "c \<notin> set s \<Longrightarrow> rstrip_char c s = s"
  by (induction s) (auto split: list.splits)

lemma rstrip_char_snoc_same [simp]: "rstrip_char c (s @ [c]) = rstrip_char c s"
  by (induction s) auto

lemma rstrip_char_line: "c \<notin> set s \<Longrightarrow> rstrip_char c (s @ [c]) = s"
  by (simp add: rstrip_char_no_sep)

lemma partition_at_append:
  "c \<notin> set a \<Longrightarrow> partition_at c (a @ c # b) = Some (a, b)"
  by (induction a) auto

lemma partition_at_None: "partition_at c s = None \<longleftrightarrow> c \<notin> set s"
  by (induction s) (auto split: option.splits)

lemma partition_at_SomeD:
  "partition_at c s = Some (a, b) \<Longrightarrow> s = a @ c # b \<and> c \<notin> set a"
  by (induction s arbitrary: a) (auto split: if_splits option.splits)

subsection \<open>Decimal notation\<close>

definition digit_char :: "nat \<Rightarrow> char" where
  "digit_char n = ''0123456789'' ! n"

definition digit_val :: "char \<Rightarrow> nat option" where
  "digit_val c = (let n = of_char c :: nat in if 48 \<le> n \<and> n \<le> 57 then Some (n - 48) else None)"

text \<open>\<open>str(n)\<close> of an \<open>int\<close>.\<close>

fun str_of_nat :: "nat \<Rightarrow> string" where
  "str_of_nat n =
     (if n < 10 then [digit_char n] else str_of_nat (n div 10) @ [digit_char (n mod 10)])"

declare str_of_nat.simps [simp del]

definition str_of_int :: "int \<Rightarrow> string" where
  "str_of_int i = (if i < 0 then CHR ''-'' # str_of_nat (nat (- i)) else str_of_nat (nat i))"

text \<open>
  \<open>int(s)\<close> of an ASCII string: C whitespace around the number is skipped, one sign is
  accepted, digits may be separated by single underscores, and more than 4300 digits
  raise \<open>ValueError\<close> (the interpreter's default conversion limit).
\<close>

definition c_space :: "char \<Rightarrow> bool" where
  "c_space c \<longleftrightarrow> (let n = of_char c :: nat in n = 32 \<or> (9 \<le> n \<and> n \<le> 13))"

definition strip_space :: "string \<Rightarrow> string" where
  "strip_space s = rev (dropWhile c_space (rev (dropWhile c_space s)))"

fun digits_us :: "string \<Rightarrow> nat list option" where
  "digits_us [] = None"
| "digits_us [c] = (case digit_val c of None \<Rightarrow> None | Some d \<Rightarrow> Some [d])"
| "digits_us (c # c' # cs) =
     (case digit_val c of
        None \<Rightarrow> None
      | Some d \<Rightarrow> map_option ((#) d) (if c' = CHR ''_'' then digits_us cs else digits_us (c' # cs)))"

definition nat_of_digits :: "nat list \<Rightarrow> nat" where
  "nat_of_digits ds = foldl (\<lambda>n d. 10 * n + d) 0 ds"

definition int_max_str_digits :: nat where
  "int_max_str_digits = 4300"

definition parse_nat :: "string \<Rightarrow> nat res" where
  "parse_nat s =
     (case digits_us s of
        None \<Rightarrow> Inl (ValueError ''invalid literal for int() with base 10'')
      | Some ds \<Rightarrow>
          if length ds > int_max_str_digits
          then Inl (ValueError ''Exceeds the limit (4300 digits) for integer string conversion'')
          else Inr (nat_of_digits ds))"

definition int_of_str :: "string \<Rightarrow> int res" where
  "int_of_str s =
     (case strip_space s of
        [] \<Rightarrow> Inl (ValueError ''invalid literal for int() with base 10'')
      | c # cs \<Rightarrow>
          if c = CHR ''-'' then bind_res (parse_nat cs) (\<lambda>n. Inr (- int n))
          else if c = CHR ''+'' then bind_res (parse_nat cs) (\<lambda>n. Inr (int n))
          else bind_res (parse_nat (c # cs)) (\<lambda>n. Inr (int n)))"

lemma digit_char_cases:
  assumes "n < 10"
  shows "digit_val (digit_char n) = Some n" "digit_char n \<noteq> CHR ''_''"
    "digit_char n \<noteq> CHR ''-''" "digit_char n \<noteq> CHR ''+''" "\<not> c_space (digit_char n)"
    "digit_char n \<noteq> TAB" "digit_char n \<noteq> LF" "digit_char n \<noteq> CR"
proof -
  have "n \<in> {0, 1, 2, 3, 4, 5, 6, 7, 8, 9}" using assms by auto
  then show "digit_val (digit_char n) = Some n" "digit_char n \<noteq> CHR ''_''"
    "digit_char n \<noteq> CHR ''-''" "digit_char n \<noteq> CHR ''+''" "\<not> c_space (digit_char n)"
    "digit_char n \<noteq> TAB" "digit_char n \<noteq> LF" "digit_char n \<noteq> CR"
    by (auto simp: digit_char_def digit_val_def c_space_def TAB_def LF_def CR_def)
qed

definition decimal :: "string \<Rightarrow> bool" where
  "decimal s \<longleftrightarrow> s \<noteq> [] \<and> (\<forall>c \<in> set s. \<exists>n < 10. c = digit_char n)"

lemma str_of_nat_decimal: "decimal (str_of_nat n)"
proof (induction n rule: str_of_nat.induct)
  case (1 n)
  show ?case
  proof (cases "n < 10")
    case True
    then show ?thesis by (auto simp: str_of_nat.simps [of n] decimal_def)
  next
    case False
    then have "decimal (str_of_nat (n div 10))" by (rule 1)
    moreover have "\<exists>k < 10. digit_char (n mod 10) = digit_char k"
      by (rule exI [of _ "n mod 10"]) simp
    ultimately show ?thesis using False
      by (auto simp: str_of_nat.simps [of n] decimal_def)
  qed
qed

lemma digits_us_decimal:
  "decimal s \<Longrightarrow> digits_us s = Some (map (\<lambda>c. the (digit_val c)) s)"
proof (induction s rule: digits_us.induct)
  case (3 c c' cs)
  from "3.prems" obtain n m where nm: "n < 10" "c = digit_char n" "m < 10" "c' = digit_char m"
    and cs: "\<forall>c \<in> set cs. \<exists>n < 10. c = digit_char n"
    by (auto simp: decimal_def)
  have "digits_us (c' # cs) = Some (map (\<lambda>c. the (digit_val c)) (c' # cs))"
  proof (rule "3.IH"(2))
    show "digit_val c = Some n" using nm by (simp add: digit_char_cases)
    show "c' \<noteq> CHR ''_''" using nm by (simp add: digit_char_cases)
    show "decimal (c' # cs)" using nm cs by (auto simp: decimal_def)
  qed
  then show ?case using nm by (simp add: digit_char_cases)
next
  case (2 c)
  then obtain n where "n < 10" "c = digit_char n" by (auto simp: decimal_def)
  then show ?case by (simp add: digit_char_cases)
next
  case 1
  then show ?case by (simp add: decimal_def)
qed

lemma nat_of_digits_snoc: "nat_of_digits (ds @ [d]) = 10 * nat_of_digits ds + d"
  by (simp add: nat_of_digits_def)

lemma nat_of_digits_str: "nat_of_digits (map (\<lambda>c. the (digit_val c)) (str_of_nat n)) = n"
proof (induction n rule: str_of_nat.induct)
  case (1 n)
  show ?case
  proof (cases "n < 10")
    case True
    then show ?thesis
      by (simp add: str_of_nat.simps [of n] digit_char_cases nat_of_digits_def)
  next
    case False
    from 1 [OF False] False show ?thesis
      by (simp add: str_of_nat.simps [of n] digit_char_cases nat_of_digits_snoc)
  qed
qed

lemma parse_nat_str:
  "length (str_of_nat n) \<le> int_max_str_digits \<Longrightarrow> parse_nat (str_of_nat n) = Inr n"
  by (simp add: parse_nat_def digits_us_decimal str_of_nat_decimal nat_of_digits_str)

lemma decimal_hd:
  assumes "decimal s"
  obtains n t where "n < 10" "s = digit_char n # t"
  using assms by (cases s) (auto simp: decimal_def)

lemma decimal_last:
  assumes "decimal s"
  obtains n t where "n < 10" "s = t @ [digit_char n]"
  using assms by (cases s rule: rev_cases) (auto simp: decimal_def)

lemma strip_space_decimal: "decimal s \<Longrightarrow> strip_space s = s"
proof -
  assume d: "decimal s"
  obtain n t where n: "n < 10" "s = digit_char n # t" using d by (rule decimal_hd)
  obtain m u where m: "m < 10" "s = u @ [digit_char m]" using d by (rule decimal_last)
  have "dropWhile c_space s = s" using n by (simp add: digit_char_cases)
  moreover have "dropWhile c_space (rev s) = rev s" using m by (simp add: digit_char_cases)
  ultimately show ?thesis by (simp add: strip_space_def)
qed

lemma strip_space_minus: "decimal s \<Longrightarrow> strip_space (CHR ''-'' # s) = CHR ''-'' # s"
proof -
  assume d: "decimal s"
  obtain m u where m: "m < 10" "s = u @ [digit_char m]" using d by (rule decimal_last)
  have "dropWhile c_space (rev (CHR ''-'' # s)) = rev (CHR ''-'' # s)"
    using m by (simp add: digit_char_cases)
  moreover have "\<not> c_space CHR ''-''" by (simp add: c_space_def)
  ultimately show ?thesis by (simp add: strip_space_def)
qed

text \<open>\<open>int(str(i)) = i\<close>, within the conversion limit.\<close>

definition printable_int :: "int \<Rightarrow> bool" where
  "printable_int i \<longleftrightarrow> length (str_of_nat (nat \<bar>i\<bar>)) \<le> int_max_str_digits"

lemma int_of_str_of_int: "printable_int i \<Longrightarrow> int_of_str (str_of_int i) = Inr i"
proof (cases "i < 0")
  case True
  assume "printable_int i"
  then have "parse_nat (str_of_nat (nat (- i))) = Inr (nat (- i))"
    using True by (intro parse_nat_str) (simp add: printable_int_def)
  then show ?thesis using True
    by (simp add: str_of_int_def int_of_str_def strip_space_minus str_of_nat_decimal)
next
  case False
  assume "printable_int i"
  then have p: "parse_nat (str_of_nat (nat i)) = Inr (nat i)"
    using False by (intro parse_nat_str) (simp add: printable_int_def)
  obtain n t where n: "n < 10" "str_of_nat (nat i) = digit_char n # t"
    using str_of_nat_decimal by (rule decimal_hd)
  have "strip_space (str_of_nat (nat i)) = digit_char n # t"
    unfolding strip_space_decimal [OF str_of_nat_decimal] by (rule n(2))
  moreover have "parse_nat (digit_char n # t) = Inr (nat i)"
    using p unfolding n(2) .
  ultimately show ?thesis using False n(1)
    by (simp add: str_of_int_def int_of_str_def digit_char_cases)
qed

lemma decimal_chars:
  assumes "decimal s"
  shows "TAB \<notin> set s" "LF \<notin> set s" "CR \<notin> set s"
  using assms digit_char_cases(6-8) unfolding decimal_def by metis+

lemma str_of_int_chars:
  "TAB \<notin> set (str_of_int i)" "LF \<notin> set (str_of_int i)" "CR \<notin> set (str_of_int i)"
  using decimal_chars [OF str_of_nat_decimal [of "nat i"]]
    decimal_chars [OF str_of_nat_decimal [of "nat (- i)"]]
  by (simp_all add: str_of_int_def) (simp_all add: TAB_def LF_def CR_def)

subsection \<open>Hexadecimal notation\<close>

definition hex_char :: "nat \<Rightarrow> char" where
  "hex_char n = ''0123456789abcdef'' ! n"

definition hex_val :: "char \<Rightarrow> nat option" where
  "hex_val c =
     (let n = of_char c :: nat
      in if 48 \<le> n \<and> n \<le> 57 then Some (n - 48)
         else if 97 \<le> n \<and> n \<le> 102 then Some (n - 87)
         else if 65 \<le> n \<and> n \<le> 70 then Some (n - 55)
         else None)"

text \<open>\<open>bytes.hex()\<close>\<close>

fun hex_of :: "string \<Rightarrow> string" where
  "hex_of [] = []"
| "hex_of (c # cs) =
     hex_char (of_char c div 16) # hex_char (of_char c mod 16) # hex_of cs"

text \<open>\<open>bytes.fromhex(s)\<close>: C whitespace is skipped between bytes.\<close>

fun fromhex :: "string \<Rightarrow> string option" where
  "fromhex [] = Some []"
| "fromhex [x] = (if c_space x then Some [] else None)"
| "fromhex (x # y # r) =
     (if c_space x then fromhex (y # r)
      else (case (hex_val x, hex_val y) of
              (Some a, Some b) \<Rightarrow> map_option ((#) (char_of (16 * a + b))) (fromhex r)
            | _ \<Rightarrow> None))"

lemma less_16_cases:
  "(n::nat) < 16 \<Longrightarrow> n \<in> {0, 1, 2, 3, 4, 5, 6, 7, 8, 9, 10, 11, 12, 13, 14, 15}"
  by (simp, presburger)

lemma hex_char_cases:
  assumes "n < 16"
  shows "hex_val (hex_char n) = Some n" "\<not> c_space (hex_char n)"
    "hex_char n \<noteq> TAB" "hex_char n \<noteq> LF" "hex_char n \<noteq> CR"
    "of_char (hex_char n) = (if n < 10 then 48 + n else 87 + n)"
  using less_16_cases [OF assms]
  by (auto simp: hex_char_def hex_val_def c_space_def TAB_def LF_def CR_def)

lemma hex_char_less:
  assumes "m < 16" "n < 16"
  shows "hex_char m < hex_char n \<longleftrightarrow> m < n"
  using assms by (auto simp: less_char_def hex_char_cases(6))

lemma hex_char_inj:
  assumes "m < 16" "n < 16"
  shows "hex_char m = hex_char n \<longleftrightarrow> m = n"
  using hex_char_less [OF assms] hex_char_less [OF assms(2,1)] by auto

lemma of_char_nibbles: "of_char c div 16 < (16::nat)" "of_char c mod 16 < (16::nat)"
proof -
  have "of_char c < (256::nat)" by simp
  then show "of_char c div 16 < (16::nat)" by (simp add: less_mult_imp_div_less)
qed simp

lemma fromhex_hex_of [simp]: "fromhex (hex_of s) = Some s"
proof (induction s)
  case (Cons c cs)
  have "16 * (of_char c div 16) + of_char c mod 16 = (of_char c :: nat)"
    by (simp add: mult_div_mod_eq)
  then show ?case
    using Cons by (simp add: hex_char_cases of_char_nibbles)
qed simp

lemma hex_of_inj: "hex_of s = hex_of t \<longleftrightarrow> s = t"
  by (metis fromhex_hex_of option.inject)

lemma hex_of_avoids:
  assumes "\<And>n. n < 16 \<Longrightarrow> hex_char n \<noteq> d"
  shows "d \<notin> set (hex_of s)"
proof (induction s)
  case (Cons c cs)
  then show ?case
    using assms [OF of_char_nibbles(1)] assms [OF of_char_nibbles(2)] by (simp add: not_sym)
qed simp

lemma hex_of_chars: "TAB \<notin> set (hex_of s)" "LF \<notin> set (hex_of s)" "CR \<notin> set (hex_of s)"
  by (rule hex_of_avoids, erule hex_char_cases)+

lemma hex_of_Nil [simp]: "hex_of s = [] \<longleftrightarrow> s = []"
  by (cases s) simp_all

lemma nat_nibbles:
  fixes a b :: nat
  shows "a < b \<longleftrightarrow> a div 16 < b div 16 \<or> (a div 16 = b div 16 \<and> a mod 16 < b mod 16)"
    "a = b \<longleftrightarrow> a div 16 = b div 16 \<and> a mod 16 = b mod 16"
proof -
  have "a = 16 * (a div 16) + a mod 16" "b = 16 * (b div 16) + b mod 16"
    "a mod 16 < 16" "b mod 16 < 16" by simp_all
  then show "a < b \<longleftrightarrow> a div 16 < b div 16 \<or> (a div 16 = b div 16 \<and> a mod 16 < b mod 16)"
    by linarith
  show "a = b \<longleftrightarrow> a div 16 = b div 16 \<and> a mod 16 = b mod 16"
    by (metis mult_div_mod_eq)
qed

text \<open>Hexadecimal notation keeps the order of the encoded bytes.\<close>

lemma hex_of_less [order_simps]: "hex_of s < hex_of t \<longleftrightarrow> s < t"
proof (induction s arbitrary: t)
  case Nil
  then show ?case by (cases t) simp_all
next
  case (Cons c cs)
  show ?case
  proof (cases t)
    case (Cons d ds)
    let ?c = "of_char c :: nat" and ?d = "of_char d :: nat"
    have cd: "c < d \<longleftrightarrow> ?c < ?d" "c = d \<longleftrightarrow> ?c = ?d"
      by (simp_all add: less_char_def)
    note nib = nat_nibbles [of ?c ?d]
    show ?thesis
      unfolding \<open>t = d # ds\<close> hex_of.simps Cons_less_Cons Cons.IH cd nib
        hex_char_less [OF of_char_nibbles(1) of_char_nibbles(1)]
        hex_char_less [OF of_char_nibbles(2) of_char_nibbles(2)]
        hex_char_inj [OF of_char_nibbles(1) of_char_nibbles(1)]
        hex_char_inj [OF of_char_nibbles(2) of_char_nibbles(2)]
      by blast
  qed simp
qed

lemma hex_of_le [order_simps]: "hex_of s \<le> hex_of t \<longleftrightarrow> s \<le> t"
  using hex_of_less [of t s] by (simp flip: not_less)

lemma strict_mono_hex_of: "strict_mono hex_of"
  by (simp add: strict_mono_def hex_of_less)

subsection \<open>Character encodings\<close>

definition ascii :: "string \<Rightarrow> bool" where
  "ascii s \<longleftrightarrow> (\<forall>c \<in> set s. of_char c < (128::nat))"

definition byte_in :: "nat \<Rightarrow> nat \<Rightarrow> char \<Rightarrow> bool" where
  "byte_in lo hi c \<longleftrightarrow> lo \<le> of_char c \<and> of_char c \<le> hi"

abbreviation cont_byte :: "char \<Rightarrow> bool" where
  "cont_byte \<equiv> byte_in 128 191"

text \<open>\<open>bytes.decode("utf-8")\<close> in strict mode: no overlong form, no surrogate, nothing
  above U+10FFFF.\<close>

fun utf8_ok :: "string \<Rightarrow> bool" where
  "utf8_ok [] = True"
| "utf8_ok (a # r) =
     (if byte_in 0 127 a then utf8_ok r
      else case r of
        [] \<Rightarrow> False
      | b # r2 \<Rightarrow>
          if byte_in 194 223 a then cont_byte b \<and> utf8_ok r2
          else case r2 of
            [] \<Rightarrow> False
          | c # r3 \<Rightarrow>
              if byte_in 224 239 a then
                (if byte_in 224 224 a then byte_in 160 191 b
                 else if byte_in 237 237 a then byte_in 128 159 b
                 else cont_byte b) \<and> cont_byte c \<and> utf8_ok r3
              else case r3 of
                [] \<Rightarrow> False
              | d # r4 \<Rightarrow>
                  byte_in 240 244 a \<and>
                  (if byte_in 240 240 a then byte_in 144 191 b
                   else if byte_in 244 244 a then byte_in 128 143 b
                   else cont_byte b) \<and> cont_byte c \<and> cont_byte d \<and> utf8_ok r4)"

lemma utf8_ok_ascii: "ascii s \<Longrightarrow> utf8_ok s"
  by (induction s) (simp_all add: ascii_def byte_in_def)

lemma ascii_simps [simp]:
  "ascii []" "ascii (c # s) \<longleftrightarrow> of_char c < (128::nat) \<and> ascii s"
  "ascii (s @ t) \<longleftrightarrow> ascii s \<and> ascii t"
  by (auto simp: ascii_def)

lemma ascii_hex_of [simp]: "ascii (hex_of s)"
proof (induction s)
  case (Cons c cs)
  have "of_char (hex_char n) < (128::nat)" if "n < 16" for n
    using that by (simp add: hex_char_cases(6))
  then show ?case using Cons by (simp add: of_char_nibbles)
qed simp

lemma ascii_decimal: "decimal s \<Longrightarrow> ascii s"
proof -
  have "of_char (digit_char n) < (128::nat)" if "n < 10" for n
  proof -
    have "n \<in> {0, 1, 2, 3, 4, 5, 6, 7, 8, 9}" using that by auto
    then show ?thesis by (auto simp: digit_char_def)
  qed
  then show "decimal s \<Longrightarrow> ascii s" by (auto simp: decimal_def ascii_def)
qed

lemma ascii_str_of_int [simp]: "ascii (str_of_int i)"
  by (simp add: str_of_int_def ascii_decimal str_of_nat_decimal)

lemma ascii_join_with: "of_char c < (128::nat) \<Longrightarrow> \<forall>x \<in> set xs. ascii x \<Longrightarrow> ascii (join_with c xs)"
  by (induction c xs rule: join_with.induct) auto

end
