(* ===== verification/Json.thy ===== *)
theory Json
  imports Py_Float Py_Text
begin

section \<open>JSON values as Python objects\<close>

text \<open>
  The values \<open>json.loads\<close> builds: \<open>None\<close>, \<open>bool\<close>, \<open>int\<close>, \<open>float\<close>,
  \<open>str\<close>, \<open>list\<close> and \<open>dict\<close>. A \<open>dict\<close> is an association list in
  insertion order with distinct keys (\<open>wf_json\<close>); \<open>dict_get\<close> is \<open>d.get(k)\<close>.
\<close>

datatype json =
    JNull
  | JBool bool
  | JInt int
  | JFloat pyfloat
  | JStr string
  | JList "json list"
  | JDict "(string \<times> json) list"

type_synonym dict = "(string \<times> json) list"

abbreviation dict_get :: "dict \<Rightarrow> string \<Rightarrow> json option" where
  "dict_get d k \<equiv> map_of d k"

definition get_default :: "dict \<Rightarrow> string \<Rightarrow> json \<Rightarrow> json" where
  "get_default d k v = (case dict_get d k of None \<Rightarrow> v | Some x \<Rightarrow> x)"

text \<open>\<open>d[k] = v\<close> keeps the position of an existing key; \<open>d.pop(k, None)\<close> removes it.\<close>

abbreviation dict_set :: "string \<Rightarrow> json \<Rightarrow> dict \<Rightarrow> dict" where
  "dict_set k v d \<equiv> AList.update k v d"

abbreviation dict_pop :: "string \<Rightarrow> dict \<Rightarrow> dict" where
  "dict_pop k d \<equiv> AList.delete k d"

fun wf_json :: "json \<Rightarrow> bool" where
  "wf_json (JList xs) = (\<forall>x \<in> set xs. wf_json x)"
| "wf_json (JDict d) = (distinct (map fst d) \<and> (\<forall>p \<in> set d. wf_json (snd p)))"
| "wf_json (JFloat x) = canonical x"
| "wf_json _ = True"

text \<open>The truth value of an object, as \<open>or\<close> and \<open>if\<close> use it.\<close>

fun truthy :: "json \<Rightarrow> bool" where
  "truthy JNull = False"
| "truthy (JBool b) = b"
| "truthy (JInt i) = (i \<noteq> 0)"
| "truthy (JFloat x) = (\<not> fl_eq x fl_zero)"
| "truthy (JStr s) = (s \<noteq> [])"
| "truthy (JList xs) = (xs \<noteq> [])"
| "truthy (JDict d) = (d \<noteq> [])"

text \<open>\<open>a or b\<close> on strings.\<close>

definition or_str :: "string \<Rightarrow> string \<Rightarrow> string" where
  "or_str a b = (if a \<noteq> [] then a else b)"

fun is_str :: "json \<Rightarrow> bool" where
  "is_str (JStr _) = True"
| "is_str _ = False"

text \<open>\<open>isinstance(x, int) and not isinstance(x, bool)\<close>\<close>

fun is_int :: "json \<Rightarrow> bool" where
  "is_int (JInt _) = True"
| "is_int _ = False"

text \<open>\<open>float(x)\<close> of a JSON number.\<close>

fun to_float :: "json \<Rightarrow> pyfloat res" where
  "to_float (JInt n) = float_of_int n"
| "to_float (JFloat x) = Inr x"
| "to_float _ = Inl (TypeError ''float() argument must be a number'')"

text \<open>
  Typed views of a record that has been validated: the string and integer fields with the
  defaults the scripts give to \<open>dict.get\<close>.
\<close>

definition str_field :: "dict \<Rightarrow> string \<Rightarrow> string" where
  "str_field d k = (case dict_get d k of Some (JStr s) \<Rightarrow> s | _ \<Rightarrow> [])"

definition int_field :: "dict \<Rightarrow> string \<Rightarrow> int \<Rightarrow> int" where
  "int_field d k v = (case dict_get d k of Some (JInt i) \<Rightarrow> i | _ \<Rightarrow> v)"

lemma get_default_str:
  "is_str (get_default d k (JStr [])) \<Longrightarrow> get_default d k (JStr []) = JStr (str_field d k)"
  by (auto simp: get_default_def str_field_def split: option.splits json.splits)

lemma get_default_int:
  "is_int (get_default d k (JInt v)) \<Longrightarrow> get_default d k (JInt v) = JInt (int_field d k v)"
  by (auto simp: get_default_def int_field_def split: option.splits json.splits)

lemma str_field_set [simp]:
  "str_field (dict_set k (JStr s) d) k = s"
  "k \<noteq> k' \<Longrightarrow> str_field (dict_set k v d) k' = str_field d k'"
  by (simp_all add: str_field_def update_conv')

lemma int_field_set [simp]:
  "int_field (dict_set k (JInt i) d) k v = i"
  "k \<noteq> k' \<Longrightarrow> int_field (dict_set k x d) k' v = int_field d k' v"
  by (simp_all add: int_field_def update_conv')

lemma field_pop [simp]:
  "k \<noteq> k' \<Longrightarrow> str_field (dict_pop k d) k' = str_field d k'"
  "k \<noteq> k' \<Longrightarrow> int_field (dict_pop k d) k' v = int_field d k' v"
  by (simp_all add: str_field_def int_field_def delete_conv')

end
