(* ===== verification/Json_Codec.thy ===== *)
theory Json_Codec
  imports Json
begin

section \<open>Reading and writing JSON text\<close>

text \<open>
  \<open>json.loads\<close> on decoded text and \<open>json.dumps(..., sort_keys=True,
  separators=(",", ":"))\<close> as the scripts call them. The parser follows the scanner of the
  standard library: strict strings, the number grammar, the three non-finite constants
  handed to \<open>parse_constant\<close>, the pairs of an object handed to \<open>object_pairs_hook\<close>.
  \<open>loads\<close> runs with two units of fuel per input byte and two more, which is always
  enough (theory \<open>Json_Fuel\<close>).
\<close>

subsection \<open>Code points\<close>

text \<open>UTF-8 encoding of one code point (a lone surrogate keeps its three-byte form).\<close>

definition encode_cp :: "nat \<Rightarrow> string" where
  "encode_cp n =
     (if n < 128 then [char_of n]
      else if n < 2048 then [char_of (192 + n div 64), char_of (128 + n mod 64)]
      else if n < 65536 then
        [char_of (224 + n div 4096), char_of (128 + n div 64 mod 64), char_of (128 + n mod 64)]
      else
        [char_of (240 + n div 262144), char_of (128 + n div 4096 mod 64),
         char_of (128 + n div 64 mod 64), char_of (128 + n mod 64)])"

fun decode_cps :: "string \<Rightarrow> nat list" where
  "decode_cps [] = []"
| "decode_cps (a # r) =
     (let n = of_char a :: nat in
      if n < 128 then n # decode_cps r
      else case r of
        [] \<Rightarrow> [n]
      | b # r2 \<Rightarrow>
          if n < 224 then ((n - 192) * 64 + (of_char b - 128)) # decode_cps r2
          else case r2 of
            [] \<Rightarrow> [n, of_char b]
          | c # r3 \<Rightarrow>
              if n < 240 then
                ((n - 224) * 4096 + (of_char b - 128) * 64 + (of_char c - 128)) # decode_cps r3
              else case r3 of
                [] \<Rightarrow> [n, of_char b, of_char c]
              | d # r4 \<Rightarrow>
                  ((n - 240) * 262144 + (of_char b - 128) * 4096 + (of_char c - 128) * 64 +
                    (of_char d - 128)) # decode_cps r4)"

subsection \<open>Strings\<close>

definition DQ :: char where "DQ = CHR 0x22"
definition BSL :: char where "BSL = CHR 0x5C"

text \<open>\<open>_decode_uXXXX\<close>\<close>

definition hex4 :: "char \<Rightarrow> char \<Rightarrow> char \<Rightarrow> char \<Rightarrow> nat option" where
  "hex4 a b c d =
     (case (hex_val a, hex_val b, hex_val c, hex_val d) of
        (Some w, Some x, Some y, Some z) \<Rightarrow> Some (4096 * w + 256 * x + 16 * y + z)
      | _ \<Rightarrow> None)"

definition simple_escape :: "char \<Rightarrow> char option" where
  "simple_escape c =
     (if c = DQ then Some DQ else if c = BSL then Some BSL else if c = CHR ''/'' then Some (CHR ''/'')
      else if c = CHR ''b'' then Some (CHR 0x08) else if c = CHR ''f'' then Some (CHR 0x0C)
      else if c = CHR ''n'' then Some LF else if c = CHR ''r'' then Some CR
      else if c = CHR ''t'' then Some TAB else None)"

definition prepend :: "string \<Rightarrow> (string \<times> string) option \<Rightarrow> (string \<times> string) option" where
  "prepend p r = map_option (\<lambda>(s, rest). (p @ s, rest)) r"

text \<open>\<open>scanstring\<close> after the opening quote: the string and the text after the closing one.\<close>

fun scan_str :: "string \<Rightarrow> (string \<times> string) option" where
  "scan_str [] = None"
| "scan_str (c # r) =
     (if c = DQ then Some ([], r)
      else if of_char c < (32::nat) then None
      else if c \<noteq> BSL then prepend [c] (scan_str r)
      else case r of
        [] \<Rightarrow> None
      | e # r1 \<Rightarrow>
          if e \<noteq> CHR ''u'' then
            (case simple_escape e of None \<Rightarrow> None | Some x \<Rightarrow> prepend [x] (scan_str r1))
          else case r1 of
            h1 # h2 # h3 # h4 # r2 \<Rightarrow>
              (case hex4 h1 h2 h3 h4 of
                 None \<Rightarrow> None
               | Some n \<Rightarrow>
                   if 55296 \<le> n \<and> n \<le> 56319 then
                     (case r2 of
                        b1 # u1 # k1 # k2 # k3 # k4 # r3 \<Rightarrow>
                          if b1 = BSL \<and> u1 = CHR ''u'' then
                            (case hex4 k1 k2 k3 k4 of
                               None \<Rightarrow> None
                             | Some m \<Rightarrow>
                                 if 56320 \<le> m \<and> m \<le> 57343
                                 then prepend (encode_cp (65536 + (n - 55296) * 1024 + (m - 56320)))
                                   (scan_str r3)
                                 else prepend (encode_cp n) (scan_str r2))
                          else prepend (encode_cp n) (scan_str r2)
                      | _ \<Rightarrow> prepend (encode_cp n) (scan_str r2))
                   else prepend (encode_cp n) (scan_str r2))
          | _ \<Rightarrow> None)"

declare scan_str.simps [simp del]

text \<open>The escaped form of one code point in \<open>ensure_ascii\<close> mode.\<close>

definition u_escape :: "nat \<Rightarrow> string" where
  "u_escape n =
     [BSL, CHR ''u'', hex_char (n div 4096 mod 16), hex_char (n div 256 mod 16),
      hex_char (n div 16 mod 16), hex_char (n mod 16)]"

definition escape_cp :: "nat \<Rightarrow> string" where
  "escape_cp n =
     (if n = 34 then [BSL, DQ]
      else if n = 92 then [BSL, BSL]
      else if n = 10 then [BSL, CHR ''n'']
      else if n = 13 then [BSL, CHR ''r'']
      else if n = 9 then [BSL, CHR ''t'']
      else if n = 12 then [BSL, CHR ''f'']
      else if n = 8 then [BSL, CHR ''b'']
      else if 32 \<le> n \<and> n \<le> 126 then [char_of n]
      else if n < 65536 then u_escape n
      else u_escape (55296 + (n - 65536) div 1024) @ u_escape (56320 + (n - 65536) mod 1024))"

definition dump_str :: "string \<Rightarrow> string" where
  "dump_str s = DQ # concat (map escape_cp (decode_cps s)) @ [DQ]"

subsection \<open>Numbers\<close>

definition is_digit :: "char \<Rightarrow> bool" where
  "is_digit c \<longleftrightarrow> digit_val c \<noteq> None"

text \<open>The integer part of \<open>NUMBER_RE\<close>: \<open>-?(0|[1-9][0-9]*)\<close>; then the optional
  fraction and exponent.\<close>

definition scan_int_part :: "string \<Rightarrow> (string \<times> string) option" where
  "scan_int_part s =
     (case s of
        [] \<Rightarrow> None
      | c # r \<Rightarrow>
          if c = CHR ''0'' then Some ([c], r)
          else if is_digit c then Some (takeWhile is_digit s, dropWhile is_digit s)
          else None)"

definition scan_frac :: "string \<Rightarrow> string \<times> string" where
  "scan_frac s =
     (case s of
        c # r \<Rightarrow>
          if c = CHR ''.'' \<and> takeWhile is_digit r \<noteq> [] then (takeWhile is_digit r, dropWhile is_digit r)
          else ([], s)
      | [] \<Rightarrow> ([], s))"

definition scan_exp :: "string \<Rightarrow> int option \<times> string" where
  "scan_exp s =
     (case s of
        [] \<Rightarrow> (None, s)
      | c # r \<Rightarrow>
          if c \<noteq> CHR ''e'' \<and> c \<noteq> CHR ''E'' then (None, s)
          else
            let (neg, ds) = (case r of
                  [] \<Rightarrow> (False, r)
                | x # xs \<Rightarrow> if x = CHR ''-'' then (True, xs) else if x = CHR ''+'' then (False, xs) else (False, r));
                d = takeWhile is_digit ds
            in if d = [] then (None, s)
               else (Some ((if neg then -1 else 1) * int (nat_of_digits (map (\<lambda>c. the (digit_val c)) d))),
                     dropWhile is_digit ds))"

definition digits_nat :: "string \<Rightarrow> nat" where
  "digits_nat s = nat_of_digits (map (\<lambda>c. the (digit_val c)) s)"

definition pow10 :: "int \<Rightarrow> rat" where
  "pow10 k = (if 0 \<le> k then 10 ^ nat k else 1 / 10 ^ nat (- k))"

text \<open>\<open>parse_float\<close> is given the mantissa digits and the float they denote with the exponent.\<close>

definition scan_number ::
  "(string \<Rightarrow> pyfloat \<Rightarrow> json res) \<Rightarrow> string \<Rightarrow> (json res \<times> string) option"
where
  "scan_number parse_float s =
     (let (neg, t) = (case s of c # r \<Rightarrow> if c = CHR ''-'' then (True, r) else (False, s) | [] \<Rightarrow> (False, s))
      in case scan_int_part t of
           None \<Rightarrow> None
         | Some (ip, r1) \<Rightarrow>
             let (fr, r2) = scan_frac r1; (ex, r3) = scan_exp r2
             in if fr = [] \<and> ex = None then
                  Some (if int_max_str_digits < length ip
                        then Inl (ValueError ''Exceeds the limit (4300 digits) for integer string conversion'')
                        else Inr (JInt ((if neg then -1 else 1) * int (digits_nat ip))), r1)
                else
                  let x = of_nat (digits_nat (ip @ fr)) *
                        pow10 ((case ex of None \<Rightarrow> 0 | Some k \<Rightarrow> k) - int (length fr))
                  in Some (parse_float (ip @ fr) (fl_round neg (if neg then - x else x)), r3))"

text \<open>
  \<open>float.__repr__\<close>: the fewest decimal digits that read back as the same float, the
  nearest such decimal when there are two, in positional notation for a decimal point
  position in \<open>-3..16\<close> and with an exponent otherwise. At most 17 digits are tried;
  \<open>exact_decimal\<close>, the value itself, is the fallback that makes the search total.
\<close>

definition ilog10 :: "rat \<Rightarrow> int" where
  "ilog10 r =
     (let (p, q) = quotient_of r;
          k = int (length (str_of_nat (nat p))) - int (length (str_of_nat (nat q)))
      in if pow10 k \<le> r then k else k - 1)"

definition decimal_candidate :: "rat \<Rightarrow> (nat \<times> int) \<Rightarrow> nat \<Rightarrow> (nat \<times> int) option" where
  "decimal_candidate r me n =
     (let s = ilog10 r + 1 - int n;
          f = nat \<lfloor>r / pow10 s\<rfloor>;
          ok = filter (\<lambda>d. round_mag (of_nat d * pow10 s) = Some me) [f, Suc f]
      in case ok of
           [] \<Rightarrow> None
         | [d] \<Rightarrow> Some (d, s)
         | a # b # _ \<Rightarrow>
             Some (if r - of_nat a * pow10 s \<le> of_nat b * pow10 s - r then a else b, s))"

definition exact_decimal :: "nat \<Rightarrow> int \<Rightarrow> nat \<times> int" where
  "exact_decimal m e = (if 0 \<le> e then (m * 2 ^ nat e, 0) else (m * 5 ^ nat (- e), e))"

fun first_some :: "('a \<Rightarrow> 'b option) \<Rightarrow> 'a list \<Rightarrow> 'b option" where
  "first_some f [] = None"
| "first_some f (x # xs) = (case f x of None \<Rightarrow> first_some f xs | Some y \<Rightarrow> Some y)"

definition shortest_decimal :: "nat \<Rightarrow> int \<Rightarrow> nat \<times> int" where
  "shortest_decimal m e =
     (case first_some (decimal_candidate (mag_val m e) (m, e)) [1..<18] of
        None \<Rightarrow> exact_decimal m e
      | Some d \<Rightarrow> d)"

definition zeros :: "nat \<Rightarrow> string" where
  "zeros n = replicate n (CHR ''0'')"

text \<open>The digits \<open>ds\<close> with the decimal point after position \<open>decpt\<close>.\<close>

definition format_repr :: "string \<Rightarrow> int \<Rightarrow> string" where
  "format_repr ds decpt =
     (if - 4 < decpt \<and> decpt \<le> 16 then
        if decpt \<le> 0 then ''0.'' @ zeros (nat (- decpt)) @ ds
        else if nat decpt < length ds then take (nat decpt) ds @ ''.'' @ drop (nat decpt) ds
        else ds @ zeros (nat decpt - length ds) @ ''.0''
      else
        let x = decpt - 1;
            xs = str_of_nat (nat \<bar>x\<bar>)
        in take 1 ds @ (if length ds = 1 then [] else CHR ''.'' # drop 1 ds) @
           (if x < 0 then ''e-'' else ''e+'') @ (if length xs < 2 then CHR ''0'' # xs else xs))"

fun float_repr :: "pyfloat \<Rightarrow> string" where
  "float_repr (Finite s m e) =
     (if s then ''-'' else []) @
     (if m = 0 then ''0.0''
      else let (d, k) = shortest_decimal m e; ds = str_of_nat d
           in format_repr ds (int (length ds) + k))"
| "float_repr (Infinite s) = (if s then ''-Infinity'' else ''Infinity'')"
| "float_repr NaN = ''NaN''"

subsection \<open>Values\<close>

definition json_ws :: "char \<Rightarrow> bool" where
  "json_ws c \<longleftrightarrow> c = CHR '' '' \<or> c = TAB \<or> c = LF \<or> c = CR"

definition skip_ws :: "string \<Rightarrow> string" where
  "skip_ws = dropWhile json_ws"

text \<open>The hooks a caller may give to \<open>json.loads\<close>.\<close>

record hooks =
  pairs_hook :: "dict \<Rightarrow> json res"
  constant_hook :: "string \<Rightarrow> json res"
  float_hook :: "string \<Rightarrow> pyfloat \<Rightarrow> json res"

definition strip_prefix :: "string \<Rightarrow> string \<Rightarrow> string option" where
  "strip_prefix p s = (if take (length p) s = p then Some (drop (length p) s) else None)"

definition literals :: "hooks \<Rightarrow> (string \<times> json res) list" where
  "literals h =
     [(''null'', Inr JNull), (''true'', Inr (JBool True)), (''false'', Inr (JBool False)),
      (''NaN'', constant_hook h ''NaN''), (''Infinity'', constant_hook h ''Infinity''),
      (''-Infinity'', constant_hook h ''-Infinity'')]"

fun scan_literal :: "(string \<times> json res) list \<Rightarrow> string \<Rightarrow> (json \<times> string) res" where
  "scan_literal [] s = Inl JSONDecodeError"
| "scan_literal ((p, v) # ls) s =
     (case strip_prefix p s of
        Some r \<Rightarrow> bind_res v (\<lambda>x. Inr (x, r))
      | None \<Rightarrow> scan_literal ls s)"

text \<open>\<open>scan_once\<close>, the elements of an array and the members of an object.\<close>

fun parse_value :: "hooks \<Rightarrow> nat \<Rightarrow> string \<Rightarrow> (json \<times> string) res"
  and parse_elements :: "hooks \<Rightarrow> nat \<Rightarrow> json list \<Rightarrow> string \<Rightarrow> (json \<times> string) res"
  and parse_members :: "hooks \<Rightarrow> nat \<Rightarrow> dict \<Rightarrow> string \<Rightarrow> (json \<times> string) res"
where
  "parse_value h 0 s = Inl RecursionError"
| "parse_value h (Suc n) s =
     (case s of
        [] \<Rightarrow> Inl JSONDecodeError
      | c # r \<Rightarrow>
          if c = DQ then
            (case scan_str r of None \<Rightarrow> Inl JSONDecodeError | Some (x, r') \<Rightarrow> Inr (JStr x, r'))
          else if c = CHR ''{'' then
            (case skip_ws r of
               [] \<Rightarrow> Inl JSONDecodeError
             | d # r' \<Rightarrow>
                 if d = CHR ''}'' then bind_res (pairs_hook h []) (\<lambda>v. Inr (v, r'))
                 else parse_members h n [] (d # r'))
          else if c = CHR ''['' then
            (case skip_ws r of
               [] \<Rightarrow> Inl JSONDecodeError
             | d # r' \<Rightarrow> if d = CHR '']'' then Inr (JList [], r') else parse_elements h n [] (d # r'))
          else case scan_number (float_hook h) s of
            Some (v, r') \<Rightarrow> bind_res v (\<lambda>x. Inr (x, r'))
          | None \<Rightarrow> scan_literal (literals h) s)"
| "parse_elements h 0 acc s = Inl RecursionError"
| "parse_elements h (Suc n) acc s =
     bind_res (parse_value h n s) (\<lambda>(x, r).
       case skip_ws r of
         [] \<Rightarrow> Inl JSONDecodeError
       | d # r' \<Rightarrow>
           if d = CHR '']'' then Inr (JList (acc @ [x]), r')
           else if d = CHR '','' then parse_elements h n (acc @ [x]) (skip_ws r')
           else Inl JSONDecodeError)"
| "parse_members h 0 acc s = Inl RecursionError"
| "parse_members h (Suc n) acc s =
     (case s of
        [] \<Rightarrow> Inl JSONDecodeError
      | q # r \<Rightarrow>
          if q \<noteq> DQ then Inl JSONDecodeError
          else case scan_str r of
            None \<Rightarrow> Inl JSONDecodeError
          | Some (k, r1) \<Rightarrow>
              (case skip_ws r1 of
                 [] \<Rightarrow> Inl JSONDecodeError
               | c # r2 \<Rightarrow>
                   if c \<noteq> CHR '':'' then Inl JSONDecodeError
                   else bind_res (parse_value h n (skip_ws r2)) (\<lambda>(x, r3).
                     case skip_ws r3 of
                       [] \<Rightarrow> Inl JSONDecodeError
                     | d # r4 \<Rightarrow>
                         if d = CHR ''}'' then
                           bind_res (pairs_hook h (acc @ [(k, x)])) (\<lambda>v. Inr (v, r4))
                         else if d = CHR '','' then parse_members h n (acc @ [(k, x)]) (skip_ws r4)
                         else Inl JSONDecodeError)))"

text \<open>\<open>json.loads(text)\<close>\<close>

definition loads_text :: "hooks \<Rightarrow> string \<Rightarrow> json res" where
  "loads_text h s =
     bind_res (parse_value h (2 * length s + 2) (skip_ws s)) (\<lambda>(v, r).
       if skip_ws r = [] then Inr v else Inl JSONDecodeError)"

text \<open>\<open>json.loads(raw.decode("utf-8"))\<close>\<close>

definition loads :: "hooks \<Rightarrow> string \<Rightarrow> json res" where
  "loads h raw = bind_res (guard_res (utf8_ok raw) UnicodeError) (\<lambda>_. loads_text h raw)"

text \<open>Without hooks: the last of equal keys wins, non-finite constants are floats.\<close>

definition constant_value :: "string \<Rightarrow> json" where
  "constant_value c =
     (if c = ''NaN'' then JFloat NaN else JFloat (Infinite (c = ''-Infinity'')))"

definition default_hooks :: hooks where
  "default_hooks =
     \<lparr>pairs_hook = (\<lambda>ps. Inr (JDict (foldl (\<lambda>d (k, v). dict_set k v d) [] ps))),
      constant_hook = (\<lambda>c. Inr (constant_value c)), float_hook = (\<lambda>_ x. Inr (JFloat x))\<rparr>"

text \<open>\<open>json.dumps(value, sort_keys=True, separators=(",", ":"))\<close>\<close>

fun dumps :: "json \<Rightarrow> string" where
  "dumps JNull = ''null''"
| "dumps (JBool b) = (if b then ''true'' else ''false'')"
| "dumps (JInt i) = str_of_int i"
| "dumps (JFloat x) = float_repr x"
| "dumps (JStr s) = dump_str s"
| "dumps (JList xs) = ''['' @ join_with (CHR '','') (map dumps xs) @ '']''"
| "dumps (JDict d) =
     ''{'' @ join_with (CHR '','')
       (map (\<lambda>(k, v). dump_str k @ CHR '':'' # v) (sort_key fst (map (\<lambda>(k, v). (k, dumps v)) d))) @ ''}''"

end
