(* ===== verification/Json_Fuel.thy ===== *)
theory Json_Fuel
  imports Json_Codec
begin

text \<open>
  The parser of theory \<open>Json_Codec\<close> never runs out of fuel: every call is on a shorter text or
  is the first one on the same text, so two units per byte and two more are enough.
\<close>

subsection \<open>Scanners consume their input\<close>

lemma skip_ws_length: "length (skip_ws s) \<le> length s"
  unfolding skip_ws_def by (rule length_dropWhile_le)

lemma skip_ws_ConsD: "skip_ws s = c # r \<Longrightarrow> length r < length s"
  using skip_ws_length [of s] by simp

lemma prepend_SomeD: "prepend p x = Some (t, r) \<Longrightarrow> \<exists>u. x = Some (u, r)"
  by (auto simp: prepend_def)

lemma scan_str_length: "scan_str s = Some (t, r) \<Longrightarrow> length r < length s"
proof (induction s arbitrary: t rule: length_induct)
  case (1 s)
  have rest: "length r < length u" if "scan_str u = Some (x, r)" "length u < length s" for u x
    using 1(1) that by blast
  show ?case
  proof (cases s)
    case Nil
    then show ?thesis using 1(2) by (simp add: scan_str.simps)
  next
    case (Cons c s')
    show ?thesis using 1(2) unfolding Cons
      by (subst (asm) scan_str.simps)
        (auto simp: Cons split: if_splits list.splits option.splits dest!: prepend_SomeD rest)
  qed
qed

lemma scan_int_part_length: "scan_int_part s = Some (ip, r) \<Longrightarrow> length r \<le> length s"
  by (auto simp: scan_int_part_def split: list.splits if_splits intro: length_dropWhile_le le_SucI)

lemma scan_frac_length: "scan_frac s = (f, r) \<Longrightarrow> length r \<le> length s"
  by (auto simp: scan_frac_def split: list.splits if_splits intro: length_dropWhile_le le_SucI)

lemma scan_exp_length: "scan_exp s = (e, r) \<Longrightarrow> length r \<le> length s"
  by (auto simp: scan_exp_def Let_def split: list.splits if_splits
      intro: length_dropWhile_le le_SucI)

lemma scan_number_length: "scan_number pf s = Some (v, r) \<Longrightarrow> length r \<le> length s"
  by (auto simp: scan_number_def Let_def split: list.splits if_splits option.splits prod.splits
      dest!: scan_int_part_length scan_frac_length scan_exp_length)

lemma scan_literal_length: "scan_literal ls s = Inr (v, r) \<Longrightarrow> length r \<le> length s"
  by (induction ls s rule: scan_literal.induct)
    (auto simp: strip_prefix_def bind_res_def split: if_splits option.splits sum.splits)

lemma parse_length:
  shows "parse_value h n s = Inr (v, r) \<Longrightarrow> length r \<le> length s"
    and "parse_elements h n acc s = Inr (v, r) \<Longrightarrow> length r \<le> length s"
    and "parse_members h n ms s = Inr (v, r) \<Longrightarrow> length r \<le> length s"
proof (induction n arbitrary: s v r acc ms)
  case 0
  { case 1 then show ?case by simp }
  { case 2 then show ?case by simp }
  { case 3 then show ?case by simp }
next
  case (Suc n)
  note skipped = order_trans [OF Suc.IH(1) skip_ws_length] order_trans [OF Suc.IH(2) skip_ws_length]
    order_trans [OF Suc.IH(3) skip_ws_length]
  { case 1
    show ?case
    proof (cases s)
      case Nil
      then show ?thesis using 1 by simp
    next
      case (Cons c s')
      then show ?thesis using 1
        by (auto simp: bind_res_Inr_iff split: list.splits if_splits option.splits
            dest: scan_str_length skip_ws_ConsD scan_number_length scan_literal_length
            dest!: Suc.IH(2,3))
    qed }
  { case 2
    then obtain x u where u: "parse_value h n s = Inr (x, u)" by (auto simp: bind_res_Inr_iff)
    then have "length u \<le> length s" by (rule Suc.IH(1))
    then show ?case using 2 u
      by (auto split: list.splits if_splits dest!: skip_ws_ConsD skipped(2)) }
  { case 3
    then obtain q s' k r1 r2 where s: "s = q # s'" "scan_str s' = Some (k, r1)"
      and r2: "skip_ws r1 = CHR '':'' # r2"
      by (auto split: list.splits if_splits option.splits)
    with 3 obtain x r3 where x: "parse_value h n (skip_ws r2) = Inr (x, r3)"
      by (auto simp: bind_res_Inr_iff split: if_splits)
    have "length r3 < length s"
      using skipped(1) [OF x] skip_ws_ConsD [OF r2] scan_str_length [OF s(2)] s(1) by simp
    then show ?case using 3 s r2 x
      by (auto simp: bind_res_Inr_iff split: list.splits if_splits dest!: skip_ws_ConsD skipped(3)) }
qed

subsection \<open>More fuel changes nothing\<close>

declare parse_value.simps [simp del] parse_elements.simps [simp del] parse_members.simps [simp del]

lemma parse_step:
  shows "2 * length s + 1 \<le> n \<Longrightarrow> parse_value h (Suc n) s = parse_value h n s"
    and "2 * length s + 2 \<le> n \<Longrightarrow> parse_elements h (Suc n) acc s = parse_elements h n acc s"
    and "2 * length s + 2 \<le> n \<Longrightarrow> parse_members h (Suc n) ms s = parse_members h n ms s"
proof (induction n arbitrary: s acc ms)
  case 0
  { case 1 then show ?case by simp }
  { case 2 then show ?case by simp }
  { case 3 then show ?case by simp }
next
  case (Suc n)
  { case 1
    show ?case
    proof (cases s)
      case Nil
      then show ?thesis by (simp add: parse_value.simps)
    next
      case (Cons c s')
      have "parse_elements h (Suc n) [] (d # u) = parse_elements h n [] (d # u) \<and>
          parse_members h (Suc n) [] (d # u) = parse_members h n [] (d # u)"
        if "skip_ws s' = d # u" for d u
        using 1 Cons skip_ws_ConsD [OF that] by (intro conjI Suc.IH) simp_all
      then show ?thesis unfolding Cons parse_value.simps(2) [of h "Suc n" "c # s'"] parse_value.simps(2) [of h n "c # s'"]
        by (auto split: list.split)
    qed }
  { case 2
    have v: "parse_value h (Suc n) s = parse_value h n s" using 2 by (intro Suc.IH) simp
    have "parse_elements h (Suc n) a (skip_ws w) = parse_elements h n a (skip_ws w)"
      if "parse_value h n s = Inr (x, u)" "skip_ws u = d # w" for a x u d w
      using 2 parse_length(1) [OF that(1)] skip_ws_ConsD [OF that(2)] skip_ws_length [of w]
      by (intro Suc.IH) simp
    then show ?case
      by (subst (1 2) parse_elements.simps(2)) (auto simp: v split: list.split intro!: bind_res_cong) }
  { case 3
    have v: "parse_value h (Suc n) (skip_ws r2) = parse_value h n (skip_ws r2)"
      if "s = q # s'" "scan_str s' = Some (k, r1)" "skip_ws r1 = c # r2" for q s' k r1 c r2
      using 3 that(1) scan_str_length [OF that(2)] skip_ws_ConsD [OF that(3)] skip_ws_length [of r2]
      by (intro Suc.IH) simp
    have m: "parse_members h (Suc n) a (skip_ws w) = parse_members h n a (skip_ws w)"
      if "s = q # s'" "scan_str s' = Some (k, r1)" "skip_ws r1 = c # r2"
        "parse_value h n (skip_ws r2) = Inr (x, u)" "skip_ws u = d # w" for q s' k r1 c r2 a x u d w
      using 3 that(1) scan_str_length [OF that(2)] skip_ws_ConsD [OF that(3)] skip_ws_length [of r2]
        parse_length(1) [OF that(4)] skip_ws_ConsD [OF that(5)] skip_ws_length [of w]
      by (intro Suc.IH) simp
    show ?case
      by (subst (1 2) parse_members.simps(2))
        (auto split: list.split option.split simp: v m intro!: bind_res_cong) }
qed

lemma parse_value_fuel:
  assumes "m \<le> n" "2 * length s + 1 \<le> m"
  shows "parse_value h n s = parse_value h m s"
  using assms by (induction n rule: dec_induct) (simp_all add: parse_step)

text \<open>The fuel that \<open>json.loads\<close> is given is enough: with any larger amount the parser returns
the same value or the same error, for every text and all hooks.\<close>

lemma loads_fuel:
  "2 * length s + 2 \<le> n \<Longrightarrow>
    bind_res (parse_value h n (skip_ws s)) (\<lambda>(v, r). if skip_ws r = [] then Inr v else Inl JSONDecodeError) =
    loads_text h s"
  unfolding loads_text_def
  using parse_value_fuel [of "2 * length s + 2" n "skip_ws s" h] skip_ws_length [of s] by simp

end
