(* ===== verification/Posix.thy ===== *)
theory Posix
  imports Prelude
begin

section \<open>File metadata and read observations\<close>

text \<open>
  What the scripts read of \<open>os.stat_result\<close> and the predicates they build on it
  (\<open>_identity\<close>, \<open>_private_regular\<close>, \<open>_private_directory\<close> of
  \<open>hepta_oms_checkpoint.py\<close>, \<open>_directory_identity\<close> of \<open>hepta_oms_lifecycle.py\<close>).
  A reader stats the descriptor before and after reading and the name at the end; the
  four things it sees are an \<open>observation\<close>, so a file that another process changes
  while it is read is an observation whose parts disagree.
\<close>

record stat =
  st_dev :: nat
  st_ino :: nat
  st_mode :: nat
  st_nlink :: nat
  st_size :: nat
  st_uid :: nat
  st_gid :: nat
  st_mtime_ns :: int
  st_ctime_ns :: int

text \<open>\<open>stat.S_ISREG\<close>, \<open>S_ISDIR\<close>: the type is in the bits \<open>0o170000\<close>;
  \<open>S_IMODE\<close> keeps the bits \<open>0o7777\<close>.\<close>

definition S_ISREG :: "nat \<Rightarrow> bool" where
  "S_ISREG m \<longleftrightarrow> m div 4096 mod 16 = 8"

definition S_ISDIR :: "nat \<Rightarrow> bool" where
  "S_ISDIR m \<longleftrightarrow> m div 4096 mod 16 = 4"

definition S_IMODE :: "nat \<Rightarrow> nat" where
  "S_IMODE m = m mod 4096"

definition MODE_0600 :: nat where "MODE_0600 = 384"
definition MODE_0700 :: nat where "MODE_0700 = 448"

type_synonym identity_tuple = "nat \<times> nat \<times> nat \<times> nat \<times> nat \<times> nat \<times> nat \<times> int \<times> int"

definition identity :: "stat \<Rightarrow> identity_tuple" where
  "identity i =
     (st_dev i, st_ino i, st_mode i, st_nlink i, st_size i, st_uid i, st_gid i, st_mtime_ns i, st_ctime_ns i)"

definition private_regular :: "nat \<Rightarrow> stat \<Rightarrow> bool" where
  "private_regular euid i \<longleftrightarrow>
     S_ISREG (st_mode i) \<and> st_nlink i = 1 \<and> st_uid i = euid \<and> S_IMODE (st_mode i) = MODE_0600"

definition private_directory :: "nat \<Rightarrow> stat \<Rightarrow> bool" where
  "private_directory euid i \<longleftrightarrow>
     S_ISDIR (st_mode i) \<and> st_uid i = euid \<and> S_IMODE (st_mode i) = MODE_0700"

definition directory_identity :: "stat \<Rightarrow> nat \<times> nat \<times> nat \<times> nat \<times> nat \<times> nat" where
  "directory_identity i = (st_dev i, st_ino i, st_mode i, st_nlink i, st_uid i, st_gid i)"

record observation =
  ob_before :: stat
  ob_data :: string
  ob_after :: stat
  ob_named :: stat

definition unchanged :: "observation \<Rightarrow> bool" where
  "unchanged ob \<longleftrightarrow>
     identity (ob_before ob) = identity (ob_after ob) \<and> identity (ob_after ob) = identity (ob_named ob)"

lemma identity_inject [simp]: "identity i = identity j \<longleftrightarrow> (i :: stat) = j"
  by (cases i; cases j) (auto simp: identity_def)

end
