(* ===== verification/Framing.thy ===== *)
theory Framing
  imports Py_Text
begin

section \<open>Newline framing of bounded files\<close>

text \<open>
  The journal and index readers read a file in blocks and cut it at newlines:
  \<open>validated_raw_records\<close> (\<open>verify_oms_journal_replay.py\<close>),
  \<open>_strict_records\<close> and \<open>_iter_private_lines\<close> (\<open>hepta_oms_lifecycle.py\<close>). They
  keep the bytes after the last newline in \<open>pending\<close> and hand each complete line to
  their own check. \<open>frame_chunk\<close> is the loop over one block, \<open>frame_chunks\<close> the loop
  over the blocks; the reader's check is the parameter \<open>emit\<close>. A reader that raises keeps
  what it has yielded so far, so a run returns the state, the pending bytes and the error.
\<close>

type_synonym 's run = "string \<times> 's \<times> exn option"

function frame_chunk ::
  "('s \<Rightarrow> string \<Rightarrow> 's res) \<Rightarrow> nat \<Rightarrow> exn \<Rightarrow> string \<Rightarrow> 's \<Rightarrow> string \<Rightarrow> 's run"
where
  "frame_chunk emit lim e_lim pending s chunk =
     (if chunk = [] then (pending, s, None)
      else case partition_at LF chunk of
        None \<Rightarrow>
          if lim < length chunk + length pending then (pending, s, Some e_lim)
          else (pending @ chunk, s, None)
      | Some (fragment, rest) \<Rightarrow>
          if lim < length fragment + length pending then (pending, s, Some e_lim)
          else case emit s (pending @ fragment) of
            Inl e \<Rightarrow> (pending @ fragment, s, Some e)
          | Inr s' \<Rightarrow> frame_chunk emit lim e_lim [] s' rest)"
  by pat_completeness auto
termination
  by (relation "measure (\<lambda>(emit, lim, e, p, s, chunk). length chunk)")
    (auto dest: partition_at_SomeD)

declare frame_chunk.simps [simp del]

fun frame_chunks ::
  "('s \<Rightarrow> string \<Rightarrow> 's res) \<Rightarrow> nat \<Rightarrow> exn \<Rightarrow> string \<Rightarrow> 's \<Rightarrow> string list \<Rightarrow> 's run"
where
  "frame_chunks emit lim e_lim pending s [] = (pending, s, None)"
| "frame_chunks emit lim e_lim pending s (c # cs) =
     (case frame_chunk emit lim e_lim pending s c of
        (pending', s', Some e) \<Rightarrow> (pending', s', Some e)
      | (pending', s', None) \<Rightarrow> frame_chunks emit lim e_lim pending' s' cs)"

text \<open>After the last block, pending bytes are a torn record.\<close>

definition frame_file ::
  "('s \<Rightarrow> string \<Rightarrow> 's res) \<Rightarrow> nat \<Rightarrow> exn \<Rightarrow> exn \<Rightarrow> 's \<Rightarrow> string list \<Rightarrow> 's \<times> exn option"
where
  "frame_file emit lim e_lim e_torn s cs =
     (case frame_chunks emit lim e_lim [] s cs of
        (pending, s', Some e) \<Rightarrow> (s', Some e)
      | (pending, s', None) \<Rightarrow> (s', if pending = [] then None else Some e_torn))"

text \<open>Blocks of at most \<open>n\<close> bytes, as successive reads of a regular file return them.\<close>

function blocks :: "nat \<Rightarrow> string \<Rightarrow> string list" where
  "blocks n data = (if data = [] \<or> n = 0 then [] else take n data # blocks n (drop n data))"
  by pat_completeness auto
termination
  by (relation "measure (\<lambda>(n, data). length data)") auto

declare blocks.simps [simp del]

lemma concat_blocks: "0 < n \<Longrightarrow> concat (blocks n data) = data"
proof (induction n data rule: blocks.induct)
  case (1 n data)
  then show ?case
    by (cases "data = []") (auto simp: blocks.simps [of n data] blocks.simps [of n "[]"])
qed

subsection \<open>Independence of the block size\<close>

text \<open>
  The reference reader works on the whole file: the lines of \<open>split_on LF\<close> in order, the
  last of them the bytes after the last newline.
\<close>

fun frame_lines ::
  "('s \<Rightarrow> string \<Rightarrow> 's res) \<Rightarrow> nat \<Rightarrow> exn \<Rightarrow> exn \<Rightarrow> 's \<Rightarrow> string list \<Rightarrow> 's \<times> exn option"
where
  "frame_lines emit lim e_lim e_torn s [] = (s, None)"
| "frame_lines emit lim e_lim e_torn s [l] =
     (s, if lim < length l then Some e_lim else if l = [] then None else Some e_torn)"
| "frame_lines emit lim e_lim e_torn s (l # l' # ls) =
     (if lim < length l then (s, Some e_lim)
      else case emit s l of
        Inl e \<Rightarrow> (s, Some e)
      | Inr s' \<Rightarrow> frame_lines emit lim e_lim e_torn s' (l' # ls))"

definition finish_run :: "exn \<Rightarrow> 's run \<Rightarrow> 's \<times> exn option" where
  "finish_run e_torn r =
     (case r of
        (pending, s', Some e) \<Rightarrow> (s', Some e)
      | (pending, s', None) \<Rightarrow> (s', if pending = [] then None else Some e_torn))"

lemma frame_file_alt:
  "frame_file emit lim e_lim e_torn s cs = finish_run e_torn (frame_chunks emit lim e_lim [] s cs)"
  by (simp add: frame_file_def finish_run_def)

lemma split_on_partition:
  "split_on c s =
     (case partition_at c s of None \<Rightarrow> [s] | Some (a, b) \<Rightarrow> a # split_on c b)"
proof (cases "partition_at c s")
  case None
  then have "c \<notin> set s" by (simp add: partition_at_None)
  then show ?thesis using None by (simp add: split_on_no_sep)
next
  case (Some p)
  then obtain a b where "p = (a, b)" "s = a @ c # b" "c \<notin> set a"
    by (cases p) (auto dest: partition_at_SomeD)
  then show ?thesis using Some by (simp add: split_on_append_sep)
qed

lemma split_on_prefix:
  assumes "c \<notin> set a"
  shows "\<exists>l ls. split_on c (a @ b) = (a @ l) # ls"
  using assms
proof (induction a)
  case Nil
  then show ?case using split_on_not_Nil [of c b] by (cases "split_on c b") auto
qed auto

text \<open>Pending bytes never hold a newline and stay within the limit.\<close>

definition pending_ok :: "nat \<Rightarrow> string \<Rightarrow> bool" where
  "pending_ok lim p \<longleftrightarrow> LF \<notin> set p \<and> length p \<le> lim"

lemma frame_chunk_pending:
  assumes "frame_chunk emit lim e_lim pending s chunk = (p, s', None)" and "pending_ok lim pending"
  shows "pending_ok lim p"
  using assms
proof (induction emit lim e_lim pending s chunk rule: frame_chunk.induct)
  case (1 emit lim e_lim pending s chunk)
  show ?case
  proof (cases "partition_at LF chunk")
    case None
    then have "LF \<notin> set chunk" by (simp add: partition_at_None)
    then show ?thesis using "1.prems" None
      by (auto simp: frame_chunk.simps [of emit lim e_lim pending s chunk] pending_ok_def
          split: if_splits)
  next
    case (Some q)
    then obtain frag rest where q: "q = (frag, rest)" by (cases q)
    have ne: "chunk \<noteq> []" using Some by auto
    from "1.prems"(1) Some q ne obtain s1 where
      s1: "emit s (pending @ frag) = Inr s1" "\<not> lim < length frag + length pending"
      "frame_chunk emit lim e_lim [] s1 rest = (p, s', None)"
      by (auto simp: frame_chunk.simps [of emit lim e_lim pending s chunk]
          split: if_splits sum.splits)
    show ?thesis
      using "1.IH" [OF ne Some q [symmetric] s1(2,1) s1(3)] by (simp add: pending_ok_def)
  qed
qed

text \<open>One block in front of the rest of the data.\<close>

lemma frame_chunk_split:
  assumes "pending_ok lim pending"
  shows "frame_lines emit lim e_lim e_torn s (split_on LF (pending @ chunk @ data)) =
    (case frame_chunk emit lim e_lim pending s chunk of
       (p, s', Some e) \<Rightarrow> (s', Some e)
     | (p, s', None) \<Rightarrow> frame_lines emit lim e_lim e_torn s' (split_on LF (p @ data)))"
  using assms
proof (induction emit lim e_lim pending s chunk rule: frame_chunk.induct)
  case (1 emit lim e_lim pending s chunk)
  note unf = frame_chunk.simps [of emit lim e_lim pending s chunk]
  have pend: "LF \<notin> set pending" "length pending \<le> lim"
    using "1.prems" by (simp_all add: pending_ok_def)
  show ?case
  proof (cases "partition_at LF chunk")
    case None
    then have nl: "LF \<notin> set (pending @ chunk)" using pend by (simp add: partition_at_None)
    show ?thesis
    proof (cases "lim < length chunk + length pending")
      case True
      then have ne: "chunk \<noteq> []" using pend by auto
      obtain l ls where l: "split_on LF ((pending @ chunk) @ data) = ((pending @ chunk) @ l) # ls"
        using split_on_prefix [OF nl] by blast
      then show ?thesis using True ne None
        by (cases ls) (simp_all add: unf)
    next
      case False
      then show ?thesis using None
        by (cases "chunk = []") (simp_all add: unf frame_chunk.simps [of emit lim e_lim pending s "[]"])
    qed
  next
    case (Some q)
    then obtain frag rest where q: "q = (frag, rest)" by (cases q)
    have ne: "chunk \<noteq> []" using Some by auto
    from Some q have ch: "chunk = frag @ LF # rest" "LF \<notin> set frag"
      by (auto dest: partition_at_SomeD)
    have sp: "split_on LF (pending @ chunk @ data) = (pending @ frag) # split_on LF (rest @ data)"
      using ch pend split_on_append_sep [of LF "pending @ frag" "rest @ data"] by simp
    obtain l ls where l: "split_on LF (rest @ data) = l # ls"
      by (metis split_on_not_Nil neq_Nil_conv)
    show ?thesis
    proof (cases "lim < length frag + length pending")
      case True
      then show ?thesis using sp l Some q ne by (simp add: unf add.commute)
    next
      case False
      show ?thesis
      proof (cases "emit s (pending @ frag)")
        case (Inl e)
        then show ?thesis using sp l Some q ne False by (simp add: unf add.commute)
      next
        case (Inr s1)
        have "frame_lines emit lim e_lim e_torn s1 (split_on LF ([] @ rest @ data)) =
          (case frame_chunk emit lim e_lim [] s1 rest of
             (p, s', Some e) \<Rightarrow> (s', Some e)
           | (p, s', None) \<Rightarrow> frame_lines emit lim e_lim e_torn s' (split_on LF (p @ data)))"
          by (rule "1.IH" [OF ne Some q [symmetric] False Inr]) (simp add: pending_ok_def)
        then show ?thesis using sp l Some q ne False Inr by (simp add: unf add.commute)
      qed
    qed
  qed
qed

text \<open>
  Reading in blocks gives the same state and the same error as reading the whole file,
  whatever the blocks are.
\<close>

lemma frame_chunks_reference:
  assumes "pending_ok lim pending"
  shows "finish_run e_torn (frame_chunks emit lim e_lim pending s cs) =
    frame_lines emit lim e_lim e_torn s (split_on LF (pending @ concat cs))"
  using assms
proof (induction cs arbitrary: pending s)
  case Nil
  then show ?case by (simp add: finish_run_def pending_ok_def split_on_no_sep)
next
  case (Cons c cs)
  obtain p s' r where f: "frame_chunk emit lim e_lim pending s c = (p, s', r)"
    by (metis prod_cases3)
  show ?case
  proof (cases r)
    case None
    have "pending_ok lim p"
      by (rule frame_chunk_pending [OF _ Cons.prems]) (use f None in simp)
    from Cons.IH [OF this, of s'] None f show ?thesis
      using frame_chunk_split [OF Cons.prems, of emit e_lim e_torn s c "concat cs"] by simp
  next
    case (Some e)
    then show ?thesis using f
      using frame_chunk_split [OF Cons.prems, of emit e_lim e_torn s c "concat cs"]
      by (simp add: finish_run_def)
  qed
qed

lemma frame_file_reference:
  "frame_file emit lim e_lim e_torn s cs =
     frame_lines emit lim e_lim e_torn s (split_on LF (concat cs))"
  using frame_chunks_reference [of lim "[]"]
  by (simp add: frame_file_alt pending_ok_def)

subsection \<open>Files read to the end\<close>

definition unlines :: "string list \<Rightarrow> string" where
  "unlines ls = concat (map (\<lambda>l. l @ [LF]) ls)"

lemma unlines_simps [simp]:
  "unlines [] = []" "unlines (l # ls) = l @ LF # unlines ls"
  "unlines (ls @ ls') = unlines ls @ unlines ls'"
  by (simp_all add: unlines_def)

lemma split_on_unlines: "\<forall>l \<in> set ls. LF \<notin> set l \<Longrightarrow> split_on LF (unlines ls) = ls @ [[]]"
  by (induction ls) (simp_all add: split_on_append_sep)

lemma split_on_elems: "l \<in> set (split_on c s) \<Longrightarrow> c \<notin> set l"
  by (induction s arbitrary: l) (auto split: if_splits list.splits)

lemma join_with_snoc_Nil: "join_with LF (ls @ [[]]) = unlines ls"
proof (induction ls)
  case (Cons l ls)
  then show ?case by (cases ls) simp_all
qed simp

lemma frame_lines_None_iff:
  "frame_lines emit lim e_lim e_torn s (ls @ [l]) = (s', None) \<longleftrightarrow>
     l = [] \<and> fold_res emit s ls = Inr s' \<and> (\<forall>x \<in> set ls. length x \<le> lim)"
proof (induction ls arbitrary: s)
  case (Cons x ls)
  obtain y ys where "ls @ [l] = y # ys" by (cases ls) auto
  then have "frame_lines emit lim e_lim e_torn s ((x # ls) @ [l]) =
      (if lim < length x then (s, Some e_lim)
       else case emit s x of Inl e \<Rightarrow> (s, Some e)
        | Inr s1 \<Rightarrow> frame_lines emit lim e_lim e_torn s1 (ls @ [l]))"
    by (simp cong: sum.case_cong)
  then show ?case by (auto simp: Cons.IH split: sum.splits)
qed auto

text \<open>
  A file is read without error exactly if it is a sequence of newline-terminated lines
  within the limit that the reader accepts in order.
\<close>

lemma frame_file_None_iff:
  "frame_file emit lim e_lim e_torn s cs = (s', None) \<longleftrightarrow>
     (\<exists>ls. concat cs = unlines ls \<and> (\<forall>l \<in> set ls. LF \<notin> set l \<and> length l \<le> lim) \<and>
        fold_res emit s ls = Inr s')"
proof
  assume ok: "frame_file emit lim e_lim e_torn s cs = (s', None)"
  obtain ls l where ls: "split_on LF (concat cs) = ls @ [l]"
    by (metis split_on_not_Nil append_butlast_last_id)
  from ok have "l = [] \<and> fold_res emit s ls = Inr s' \<and> (\<forall>x \<in> set ls. length x \<le> lim)"
    by (simp add: frame_file_reference ls frame_lines_None_iff)
  moreover from this have "concat cs = unlines ls"
    using join_split_on [of LF "concat cs"] ls by (simp add: join_with_snoc_Nil)
  moreover have "\<forall>x \<in> set ls. LF \<notin> set x"
    using split_on_elems [of _ LF "concat cs"] ls by simp
  ultimately show "\<exists>ls. concat cs = unlines ls \<and> (\<forall>l \<in> set ls. LF \<notin> set l \<and> length l \<le> lim) \<and>
      fold_res emit s ls = Inr s'" by blast
qed (auto simp: frame_file_reference split_on_unlines frame_lines_None_iff)

end
