(* ===== verification/Archive_Codec.thy ===== *)
theory Archive_Codec
  imports Framing
begin

section \<open>Bounded decoding of plain and gzip journals\<close>

text \<open>
  Model of \<open>scripts/oms_archive_codec.py\<close>. \<open>decoded_chunks\<close> streams the decoded
  bytes of a journal: a plain file in blocks of \<open>CHUNK\<close> bytes, a gzip file member by
  member. It is a generator, so a run returns the chunks yielded before it ended and the
  error it ended with, if any.

  The inflate routine is the C library behind \<open>zlib.decompressobj(31)\<close> and is a
  parameter: \<open>z_decompress d input n\<close> is \<open>None\<close> for \<open>zlib.error\<close>, otherwise the
  output, the number of input bytes it took, whether the member ended, and the decoder
  after the call. \<open>unused_data\<close> (after the end of a member) and \<open>unconsumed_tail\<close>
  (before it) are both the input that was not taken. Nothing is assumed of it: the loop
  ends and stays within its byte budget whatever the decoder answers.
\<close>

definition CHUNK :: nat where "CHUNK = 8192"
definition MAX_MEMBERS :: nat where "MAX_MEMBERS = 1000000"

record 'd zlib =
  z_new :: 'd
  z_decompress :: "'d \<Rightarrow> string \<Rightarrow> nat \<Rightarrow> (string \<times> nat \<times> bool \<times> 'd) option"

text \<open>\<open>os.pread(fd, n, offset)\<close> of a file with content \<open>data\<close>.\<close>

definition pread :: "string \<Rightarrow> nat \<Rightarrow> nat \<Rightarrow> string" where
  "pread data n offset = take n (drop offset data)"

definition gzip_magic :: "string \<Rightarrow> bool" where
  "gzip_magic data \<longleftrightarrow> pread data 2 0 = [CHR 0x1F, CHR 0x8B]"

text \<open>
  Each round ends a member, yields output, or takes input: the members are bounded by
  \<open>MAX_MEMBERS\<close>, the output by \<open>max_bytes\<close>, the input by the file.
\<close>

lemma pread_length: "length (pread data n off) \<le> n"
  by (simp add: pread_def)

lemma decode_refill:
  assumes "block = pread data (min CHUNK (sz - offset)) offset"
    and "pend = (if refill then block else pending)"
    and "off = (if refill then offset + length block else offset)"
  shows "length pend + (sz - off) \<le> length pending + (sz - offset)"
proof -
  have "length block \<le> sz - offset" using pread_length [of data "min CHUNK (sz - offset)" offset] assms(1)
    by simp
  then have "length block + (sz - (offset + length block)) \<le> sz - offset" by linarith
  then show ?thesis by (simp add: assms(2,3) trans_le_add2)
qed

lemma decode_decrease:
  assumes "out \<noteq> [] \<or> length rest < length pend" and "\<not> max_bytes < tot + length out"
    and "length pend + (sz - off) \<le> length pending + (sz - offset)"
  shows "Suc max_bytes - (tot + length out) < Suc max_bytes - tot \<or>
    Suc max_bytes - (tot + length out) = Suc max_bytes - tot \<and>
    length rest + (sz - off) < length pending + (sz - offset)"
  using assms by (cases out) auto

text \<open>The loop of \<open>decoded_chunks\<close>; \<open>decoder\<close> is \<open>None\<close> for a plain file.\<close>

function decode_loop ::
  "'d zlib \<Rightarrow> string \<Rightarrow> nat \<Rightarrow> nat \<Rightarrow> nat \<Rightarrow> nat \<Rightarrow> nat \<Rightarrow> 'd option \<Rightarrow> bool \<Rightarrow> string \<Rightarrow> string list
    \<Rightarrow> string list \<times> exn option"
where
  "decode_loop z data sz max_bytes offset tot members decoder at_end pending acc =
     (let refill = (pending = [] \<and> offset < sz);
          block = pread data (min CHUNK (sz - offset)) offset
      in if refill \<and> block = [] then (acc, Some (ArchiveError ''OMS_REPLAY_IO_OR_IDENTITY_FAILURE''))
      else
        let pend = (if refill then block else pending);
            off = (if refill then offset + length block else offset)
        in case decoder of
          None \<Rightarrow>
            if pend = [] then (acc, None)
            else if max_bytes < tot + length pend
              then (acc, Some (ArchiveError ''OMS_REPLAY_BYTE_LIMIT''))
            else decode_loop z data sz max_bytes off (tot + length pend) members None at_end [] (acc @ [pend])
        | Some d0 \<Rightarrow>
            if at_end \<and> pend = [] \<and> off = sz then (acc, None)
            else
              let d = (if at_end then z_new z else d0)
              in case z_decompress z d pend CHUNK of
                None \<Rightarrow> (acc, Some (ArchiveError ''OMS_REPLAY_ARCHIVE_INVALID''))
              | Some (out, taken, eof, d') \<Rightarrow>
                  if max_bytes < tot + length out
                    then (acc, Some (ArchiveError ''OMS_REPLAY_BYTE_LIMIT''))
                  else
                    let acc' = (if out = [] then acc else acc @ [out]);
                        rest = drop taken pend
                    in if eof then
                         if MAX_MEMBERS < Suc members
                           then (acc', Some (ArchiveError ''OMS_REPLAY_ARCHIVE_MEMBER_LIMIT''))
                         else decode_loop z data sz max_bytes off (tot + length out) (Suc members)
                           (Some d') True rest acc'
                       else if out = [] \<and> length rest = length pend
                         then (acc', Some (ArchiveError ''OMS_REPLAY_ARCHIVE_INVALID''))
                       else decode_loop z data sz max_bytes off (tot + length out) members
                           (Some d') False rest acc')"
  by pat_completeness auto

termination
proof (relation "inv_image (less_than <*lex*> less_than <*lex*> less_than)
    (\<lambda>(z, data, sz, max_bytes, offset, tot, members, decoder, at_end, pending, acc).
      (Suc MAX_MEMBERS - members, Suc max_bytes - tot, length pending + (sz - offset)))",
    goal_cases)
  case 1
  show ?case by (intro wf_inv_image wf_lex_prod wf_less_than)
next
  case (2 z data sz max_bytes offset tot members decoder at_end pending acc refill block pend off)
  have "length pend + (sz - off) \<le> length pending + (sz - offset)"
    by (rule decode_refill [OF 2(2,4,5)])
  from decode_decrease [OF _ 2(8) this, of "[]"] 2(7) show ?case by auto
next
  case (3 z data sz max_bytes offset tot members decoder at_end pending acc)
  from 3(17) have "Suc MAX_MEMBERS - Suc members < Suc MAX_MEMBERS - members" by linarith
  then show ?case by (simp only: in_inv_image prod.case in_lex_prod less_than_iff) blast
next
  case (4 z data sz max_bytes offset tot members decoder at_end pending acc refill block pend off
      d0 d p out q taken r eof d' acc' rest)
  have "length pend + (sz - off) \<le> length pending + (sz - offset)"
    by (rule decode_refill [OF 4(2,4,5)])
  moreover have "out \<noteq> [] \<or> length rest < length pend"
    using 4(15,17) by auto
  ultimately show ?case
    using decode_decrease [OF _ 4(13), of rest pend] by simp
qed

declare decode_loop.simps [simp del]

definition decoded_chunks :: "'d zlib \<Rightarrow> string \<Rightarrow> nat \<Rightarrow> nat \<Rightarrow> string list \<times> exn option" where
  "decoded_chunks z data sz max_bytes =
     (let compressed = gzip_magic data in
      if (if compressed then 2 * max_bytes + 1048576 else max_bytes) < sz
      then ([], Some (ArchiveError
             (if compressed then ''OMS_REPLAY_STORAGE_LIMIT'' else ''OMS_REPLAY_BYTE_LIMIT'')))
      else decode_loop z data sz max_bytes 0 0 0
             (if compressed then Some (z_new z) else None) False [] [])"

subsection \<open>Decoded output stays within the byte budget\<close>

lemma decode_loop_budget:
  assumes "length (concat acc) = tot" and "tot \<le> max_bytes"
  shows "length (concat (fst (decode_loop z data sz max_bytes offset tot members decoder at_end pending acc)))
    \<le> max_bytes"
  using assms
proof (induction z data sz max_bytes offset tot members decoder at_end pending acc
    rule: decode_loop.induct)
  case (1 z data sz max_bytes offset tot members decoder at_end pending acc)
  note IH = "1.IH" [OF refl refl _ refl refl]
  note unf = decode_loop.simps [of z data sz max_bytes offset tot members decoder at_end pending acc]
  define refill where "refill \<longleftrightarrow> pending = [] \<and> offset < sz"
  define block where "block = pread data (min CHUNK (sz - offset)) offset"
  define pend where "pend = (if refill then block else pending)"
  define off where "off = (if refill then offset + length block else offset)"
  note defs = refill_def [symmetric] block_def [symmetric] pend_def [symmetric] off_def [symmetric]
  note IH' = IH [unfolded defs] and unf' = unf [unfolded Let_def defs]
  show ?case
  proof (cases "refill \<and> block = []")
    case True
    then show ?thesis unfolding unf' using "1.prems" by simp
  next
    case False
    show ?thesis
    proof (cases decoder)
      case None
      then show ?thesis unfolding unf' using "1.prems" False IH'(1) [OF False None] by simp
    next
      case (Some d0)
      show ?thesis
      proof (cases "z_decompress z (if at_end then z_new z else d0) pend CHUNK")
        case None
        then show ?thesis unfolding unf' using "1.prems" False Some by simp
      next
        case dec: (Some r)
        obtain out taken eof d' where r: "r = (out, taken, eof, d')" by (cases r)
        define acc' where "acc' = (if out = [] then acc else acc @ [out])"
        have acc': "length (concat acc') = tot + length out"
          using "1.prems" by (simp add: acc'_def)
        let ?res = "decode_loop z data sz max_bytes offset tot members decoder at_end pending acc"
        have unf'': "?res =
          (if at_end \<and> pend = [] \<and> off = sz then (acc, None)
           else if max_bytes < tot + length out
             then (acc, Some (ArchiveError ''OMS_REPLAY_BYTE_LIMIT''))
           else if eof then
             if MAX_MEMBERS < Suc members
             then (acc', Some (ArchiveError ''OMS_REPLAY_ARCHIVE_MEMBER_LIMIT''))
             else decode_loop z data sz max_bytes off (tot + length out) (Suc members) (Some d') True
               (drop taken pend) acc'
           else if out = [] \<and> length (drop taken pend) = length pend
             then (acc', Some (ArchiveError ''OMS_REPLAY_ARCHIVE_INVALID''))
           else decode_loop z data sz max_bytes off (tot + length out) members (Some d') False
               (drop taken pend) acc')"
          unfolding unf' if_not_P [OF False] acc'_def
          by (simp only: Some dec r option.case prod.case)
        consider "at_end \<and> pend = [] \<and> off = sz \<or> max_bytes < tot + length out"
          | (more) "\<not> (at_end \<and> pend = [] \<and> off = sz)" "\<not> max_bytes < tot + length out"
          by blast
        then show ?thesis
        proof cases
          case 1
          then show ?thesis unfolding unf'' using "1.prems" by auto
        next
          case more
          note IH'' = IH'(2,3) [OF False Some more(1) refl dec r [symmetric] refl refl more(2) refl refl,
              folded acc'_def]
          have "tot + length out \<le> max_bytes" using more by simp
          then show ?thesis unfolding unf'' if_not_P [OF more(1)] if_not_P [OF more(2)]
            using IH'' acc' by (cases eof) simp_all
        qed
      qed
    qed
  qed
qed

text \<open>Whatever the decoder answers, the chunks hold at most \<open>max_bytes\<close> bytes.\<close>

lemma decoded_chunks_budget: "length (concat (fst (decoded_chunks z data sz max_bytes))) \<le> max_bytes"
  by (simp add: decoded_chunks_def Let_def decode_loop_budget)

subsection \<open>Plain files\<close>

lemma pread_file:
  assumes "offset < length data" and "0 < n"
  defines "b \<equiv> pread data (min n (length data - offset)) offset"
  shows "b \<noteq> []" and "length b \<le> length data - offset"
    and "blocks n (drop offset data) = b # blocks n (drop (offset + length b) data)"
proof -
  have b: "b = take n (drop offset data)"
    by (simp add: b_def pread_def min_def)
  then show "b \<noteq> []" "length b \<le> length data - offset" using assms(1,2) by auto
  have "drop (length b) (drop offset data) = drop n (drop offset data)" by (simp add: b min_def)
  then show "blocks n (drop offset data) = b # blocks n (drop (offset + length b) data)"
    using assms(1,2) b by (simp add: blocks.simps [of n "drop offset data"] add.commute)
qed

lemma CHUNK_pos [simp]: "0 < CHUNK"
  by (simp add: CHUNK_def)

lemma decode_loop_plain:
  assumes "sz = length data" and "tot + (sz - offset) \<le> max_bytes"
  shows "decode_loop z data sz max_bytes offset tot members None at_end [] acc =
    (acc @ blocks CHUNK (drop offset data), None)"
  using assms
proof (induction "sz - offset" arbitrary: offset tot acc rule: less_induct)
  case less
  let ?b = "pread data (min CHUNK (sz - offset)) offset"
  note unf = decode_loop.simps [of z data sz max_bytes offset tot members None at_end "[]" acc]
  show ?case
  proof (cases "offset < sz")
    case False
    then show ?thesis unfolding unf using less.prems by (simp add: blocks.simps)
  next
    case True
    note b = pread_file [of offset data CHUNK, folded less.prems(1), OF True CHUNK_pos]
    have arith: "sz - (offset + l) < sz - offset \<and> tot + l + (sz - (offset + l)) \<le> max_bytes \<and>
        \<not> max_bytes < tot + l"
      if "0 < l" "l \<le> sz - offset" for l
      using that True less.prems(2) by linarith
    have len: "0 < length ?b" using b(1) by simp
    note bounds = arith [OF len b(2)]
    have "decode_loop z data sz max_bytes (offset + length ?b) (tot + length ?b) members None at_end []
        (acc @ [?b]) = ((acc @ [?b]) @ blocks CHUNK (drop (offset + length ?b) data), None)"
      using bounds by (intro less.hyps less.prems(1)) simp_all
    then show ?thesis unfolding unf using True b(1,3) bounds by (simp add: Let_def)
  qed
qed

lemma decoded_chunks_plain:
  assumes "\<not> gzip_magic data" and "length data \<le> max_bytes"
  shows "decoded_chunks z data (length data) max_bytes = (blocks CHUNK data, None)"
  using assms by (simp add: decoded_chunks_def decode_loop_plain)

end
