(* ===== verification/Os_Model.thy ===== *)
theory Os_Model
  imports Posix Archive_Codec
begin

section \<open>The operating system as the generation tools use it\<close>

text \<open>
  A file system is a table of path names and a table of nodes; a descriptor is the node it was
  opened on, so a reader keeps its file when the name is replaced. An operation runs in an
  environment (\<open>os\<close>) that decides, for every system call by its number, whether the call
  fails (\<open>fault\<close>), what other processes do to the file system before it (\<open>interfere\<close>),
  how many bytes a \<open>write\<close> accepts, and what the clock and \<open>uuid4\<close> return. A process
  killed before call \<open>n\<close> is an environment in which every call from \<open>n\<close> on fails: the
  handlers that Python would run then have no effect.

  Every node records whether its content has been synced since it was last written, and the
  file system records which directory entries have been synced.

  Paths are strings. Symbolic links are nodes that every \<open>O_NOFOLLOW\<close> open refuses; links in
  the directory part of a path are not resolved. Reading a whole file is one call; closing a
  descriptor has no effect.
\<close>

subsection \<open>State and environment\<close>

record node =
  n_stat :: stat
  n_data :: string
  n_synced :: bool

record fs =
  names :: "(string \<times> nat) list"
  nodes :: "(nat \<times> node) list"
  durable :: "string list"

record os =
  euid :: nat
  cwd :: string
  fault :: "nat \<Rightarrow> exn option"
  interfere :: "nat \<Rightarrow> fs \<Rightarrow> fs"
  accepted :: "nat \<Rightarrow> nat"
  clock :: "nat \<Rightarrow> nat"
  uuid4_hex :: "nat \<Rightarrow> string"

record world =
  w_fs :: fs
  w_calls :: nat

type_synonym 'a io = "os \<Rightarrow> world \<Rightarrow> 'a res \<times> world"

definition return_io :: "'a \<Rightarrow> 'a io" where
  "return_io x os w = (Inr x, w)"

definition raise_io :: "exn \<Rightarrow> 'a io" where
  "raise_io e os w = (Inl e, w)"

definition bind_io :: "'a io \<Rightarrow> ('a \<Rightarrow> 'b io) \<Rightarrow> 'b io" where
  "bind_io m f os w = (case m os w of (Inl e, w') \<Rightarrow> (Inl e, w') | (Inr x, w') \<Rightarrow> f x os w')"

definition then_io :: "'a io \<Rightarrow> 'b io \<Rightarrow> 'b io" where
  "then_io m k = bind_io m (\<lambda>_. k)"

text \<open>A pure computation that may raise, and a guard.\<close>

definition lift_io :: "'a res \<Rightarrow> 'a io" where
  "lift_io r os w = (r, w)"

definition guard_io :: "bool \<Rightarrow> exn \<Rightarrow> unit io" where
  "guard_io b e = lift_io (guard_res b e)"

text \<open>\<open>try: m except <class>: h\<close>.\<close>

definition catch_io :: "(exn \<Rightarrow> bool) \<Rightarrow> 'a io \<Rightarrow> 'a io \<Rightarrow> 'a io" where
  "catch_io c m h os w =
     (case m os w of (Inl e, w') \<Rightarrow> if c e then h os w' else (Inl e, w') | (Inr x, w') \<Rightarrow> (Inr x, w'))"

text \<open>A clean-up that runs only when \<open>m\<close> fails, and the outcome of \<open>m\<close> as a value.\<close>

definition on_error_io :: "'a io \<Rightarrow> unit io \<Rightarrow> 'a io" where
  "on_error_io m f os w =
     (case m os w of
        (Inl e, w') \<Rightarrow> (case f os w' of (Inl e', w'') \<Rightarrow> (Inl e', w'') | (Inr _, w'') \<Rightarrow> (Inl e, w''))
      | (Inr x, w') \<Rightarrow> (Inr x, w'))"

definition try_io :: "'a io \<Rightarrow> 'a res io" where
  "try_io m os w = (case m os w of (r, w') \<Rightarrow> (Inr r, w'))"

fun map_io :: "('a \<Rightarrow> 'b io) \<Rightarrow> 'a list \<Rightarrow> 'b list io" where
  "map_io f [] = return_io []"
| "map_io f (x # xs) = bind_io (f x) (\<lambda>y. bind_io (map_io f xs) (\<lambda>ys. return_io (y # ys)))"

fun fold_io :: "('s \<Rightarrow> 'a \<Rightarrow> 's io) \<Rightarrow> 's \<Rightarrow> 'a list \<Rightarrow> 's io" where
  "fold_io f s [] = return_io s"
| "fold_io f s (x # xs) = bind_io (f s x) (\<lambda>s'. fold_io f s' xs)"

definition ask :: "(os \<Rightarrow> 'a) \<Rightarrow> 'a io" where
  "ask f os w = (Inr (f os), w)"

text \<open>One system call.\<close>

definition sysc :: "(os \<Rightarrow> nat \<Rightarrow> fs \<Rightarrow> 'a res \<times> fs) \<Rightarrow> 'a io" where
  "sysc f os w =
     (let n = w_calls w; s = interfere os n (w_fs w) in
      case fault os n of
        Some e \<Rightarrow> (Inl e, \<lparr>w_fs = s, w_calls = Suc n\<rparr>)
      | None \<Rightarrow> (case f os n s of (r, s') \<Rightarrow> (r, \<lparr>w_fs = s', w_calls = Suc n\<rparr>)))"

subsection \<open>Paths\<close>

definition SLASH :: char where "SLASH = CHR ''/''"

text \<open>\<open>p / n\<close>: an absolute right operand replaces the left one.\<close>

definition path_join :: "string \<Rightarrow> string \<Rightarrow> string" where
  "path_join p n = (if take 1 n = [SLASH] then n else p @ SLASH # n)"

definition path_parent :: "string \<Rightarrow> string" where
  "path_parent p = rev (drop 1 (dropWhile (\<lambda>c. c \<noteq> SLASH) (rev p)))"

definition path_name :: "string \<Rightarrow> string" where
  "path_name p = rev (takeWhile (\<lambda>c. c \<noteq> SLASH) (rev p))"

definition with_name :: "string \<Rightarrow> string \<Rightarrow> string" where
  "with_name p n = path_parent p @ SLASH # n"

definition resolve :: "string \<Rightarrow> string io" where
  "resolve p = ask (\<lambda>os. if take 1 p = [SLASH] then p else cwd os @ SLASH # p)"

subsection \<open>System calls\<close>

definition not_found :: exn where "not_found = OSError ''FileNotFoundError''"

definition lookup_node :: "fs \<Rightarrow> string \<Rightarrow> (nat \<times> node) option" where
  "lookup_node s p =
     (case map_of (names s) p of
        None \<Rightarrow> None
      | Some i \<Rightarrow> (case map_of (nodes s) i of None \<Rightarrow> None | Some nd \<Rightarrow> Some (i, nd)))"

definition S_ISLNK :: "nat \<Rightarrow> bool" where
  "S_ISLNK m \<longleftrightarrow> m div 4096 mod 16 = 10"

definition node_stat :: "node \<Rightarrow> stat" where
  "node_stat nd = (if S_ISREG (st_mode (n_stat nd)) then (n_stat nd)\<lparr>st_size := length (n_data nd)\<rparr> else n_stat nd)"

definition open_node :: "(node \<Rightarrow> bool) \<Rightarrow> string \<Rightarrow> nat io" where
  "open_node refused p = sysc (\<lambda>os n s.
     (case lookup_node s p of
        None \<Rightarrow> Inl not_found
      | Some (i, nd) \<Rightarrow> if refused nd then Inl (OSError ''OSError'') else Inr i, s))"

text \<open>\<open>O_RDONLY | O_NONBLOCK | O_NOFOLLOW\<close>, and the same with \<open>O_DIRECTORY\<close>.\<close>

definition open_read :: "string \<Rightarrow> nat io" where
  "open_read = open_node (\<lambda>nd. S_ISLNK (st_mode (n_stat nd)))"

definition open_dir :: "string \<Rightarrow> nat io" where
  "open_dir = open_node (\<lambda>nd. \<not> S_ISDIR (st_mode (n_stat nd)))"

definition bad_fd :: exn where "bad_fd = OSError ''OSError''"

definition fstat :: "nat \<Rightarrow> stat io" where
  "fstat fd = sysc (\<lambda>os n s.
     (case map_of (nodes s) fd of None \<Rightarrow> Inl bad_fd | Some nd \<Rightarrow> Inr (node_stat nd), s))"

definition lstat :: "string \<Rightarrow> stat io" where
  "lstat p = sysc (\<lambda>os n s.
     (case lookup_node s p of None \<Rightarrow> Inl not_found | Some (i, nd) \<Rightarrow> Inr (node_stat nd), s))"

text \<open>The content of an open file.\<close>

definition read_fd :: "nat \<Rightarrow> string io" where
  "read_fd fd = sysc (\<lambda>os n s.
     (case map_of (nodes s) fd of
        None \<Rightarrow> Inl bad_fd
      | Some nd \<Rightarrow> if S_ISDIR (st_mode (n_stat nd)) then Inl (OSError ''IsADirectoryError'') else Inr (n_data nd), s))"

definition path_exists :: "string \<Rightarrow> bool io" where
  "path_exists p = sysc (\<lambda>os n s. (Inr (lookup_node s p \<noteq> None), s))"

definition is_dir_at :: "fs \<Rightarrow> string \<Rightarrow> bool" where
  "is_dir_at s p = (case lookup_node s p of None \<Rightarrow> False | Some (i, nd) \<Rightarrow> S_ISDIR (st_mode (n_stat nd)))"

definition path_is_dir :: "string \<Rightarrow> bool io" where
  "path_is_dir p = sysc (\<lambda>os n s. (Inr (is_dir_at s p), s))"

text \<open>A new node gets an unused number; its mode is the mode asked for, which the tools choose
  so that no usual \<open>umask\<close> changes it.\<close>

definition fresh_node :: "fs \<Rightarrow> nat" where
  "fresh_node s = Suc (foldr max (map fst (nodes s) @ map snd (names s)) 0)"

definition new_stat :: "os \<Rightarrow> nat \<Rightarrow> nat \<Rightarrow> nat \<Rightarrow> nat \<Rightarrow> stat" where
  "new_stat os n i mode links =
     \<lparr>st_dev = 0, st_ino = i, st_mode = mode, st_nlink = links, st_size = 0, st_uid = euid os, st_gid = euid os,
      st_mtime_ns = int (clock os n), st_ctime_ns = int (clock os n)\<rparr>"

definition add_node :: "string \<Rightarrow> node \<Rightarrow> fs \<Rightarrow> fs" where
  "add_node p nd s =
     s\<lparr>names := (p, fresh_node s) # names s, nodes := (fresh_node s, nd) # nodes s,
       durable := removeAll p (durable s)\<rparr>"

definition create_node :: "nat \<Rightarrow> nat \<Rightarrow> string \<Rightarrow> nat io" where
  "create_node mode links p = sysc (\<lambda>os n s.
     if map_of (names s) p \<noteq> None then (Inl (OSError ''FileExistsError''), s)
     else if \<not> is_dir_at s (path_parent p) then (Inl not_found, s)
     else
       (Inr (fresh_node s),
        add_node p \<lparr>n_stat = new_stat os n (fresh_node s) mode links, n_data = [], n_synced = False\<rparr> s))"

definition S_IFREG :: nat where "S_IFREG = 32768"
definition S_IFDIR :: nat where "S_IFDIR = 16384"

text \<open>\<open>O_WRONLY | O_CREAT | O_EXCL\<close> with mode \<open>0o600\<close>, and \<open>mkdir\<close> with mode \<open>0o700\<close>.\<close>

definition create_excl :: "string \<Rightarrow> nat io" where
  "create_excl = create_node (S_IFREG + MODE_0600) 1"

definition mkdir :: "string \<Rightarrow> unit io" where
  "mkdir p = bind_io (create_node (S_IFDIR + MODE_0700) 2 p) (\<lambda>_. return_io ())"

definition os_error :: "exn \<Rightarrow> bool" where
  "os_error e = (case e of OSError _ \<Rightarrow> True | _ \<Rightarrow> False)"

text \<open>\<open>path.mkdir(exist_ok=True)\<close>: an error is dropped if the path is a directory.\<close>

definition mkdir_exist_ok :: "string \<Rightarrow> unit io" where
  "mkdir_exist_ok p os w =
     (case mkdir p os w of
        (Inl e, w') \<Rightarrow>
          if os_error e then
            (case path_is_dir p os w' of
               (Inl e', w'') \<Rightarrow> (Inl e', w'')
             | (Inr d, w'') \<Rightarrow> (if d then Inr () else Inl e, w''))
          else (Inl e, w')
      | (Inr x, w') \<Rightarrow> (Inr x, w'))"

definition update_node :: "nat \<Rightarrow> (node \<Rightarrow> node) \<Rightarrow> fs \<Rightarrow> fs" where
  "update_node i f s =
     (case map_of (nodes s) i of None \<Rightarrow> s | Some nd \<Rightarrow> s\<lparr>nodes := AList.update i (f nd) (nodes s)\<rparr>)"

text \<open>\<open>os.write\<close>: the first bytes are appended, as many as the call accepts.\<close>

definition touched :: "os \<Rightarrow> nat \<Rightarrow> stat \<Rightarrow> stat" where
  "touched os n st = st\<lparr>st_mtime_ns := int (clock os n), st_ctime_ns := int (clock os n)\<rparr>"

definition os_write :: "nat \<Rightarrow> string \<Rightarrow> nat io" where
  "os_write fd data = sysc (\<lambda>os n s.
     let k = min (accepted os n) (length data) in
     (Inr k, update_node fd (\<lambda>nd. nd\<lparr>n_data := n_data nd @ take k data, n_synced := False,
        n_stat := touched os n (n_stat nd)\<rparr>) s))"

text \<open>\<open>os.fsync\<close>; on a directory it makes the entries of the directory durable.\<close>

definition entries_of :: "fs \<Rightarrow> nat \<Rightarrow> string list" where
  "entries_of s i = filter (\<lambda>p. map_of (names s) (path_parent p) = Some i) (map fst (names s))"

definition os_fsync :: "nat \<Rightarrow> unit io" where
  "os_fsync fd = sysc (\<lambda>os n s.
     (Inr (), update_node fd (\<lambda>nd. nd\<lparr>n_synced := True\<rparr>) (s\<lparr>durable := entries_of s fd @ durable s\<rparr>)))"

definition os_replace :: "string \<Rightarrow> string \<Rightarrow> unit io" where
  "os_replace src dst = sysc (\<lambda>os n s.
     case map_of (names s) src of
       None \<Rightarrow> (Inl not_found, s)
     | Some i \<Rightarrow>
         if is_dir_at s dst then (Inl (OSError ''IsADirectoryError''), s)
         else if \<not> is_dir_at s (path_parent dst) then (Inl not_found, s)
         else (Inr (), s\<lparr>names := (dst, i) # AList.delete dst (AList.delete src (names s)),
                         durable := removeAll src (removeAll dst (durable s))\<rparr>))"

definition remove_name :: "string \<Rightarrow> fs \<Rightarrow> fs" where
  "remove_name p s = s\<lparr>names := AList.delete p (names s), durable := removeAll p (durable s)\<rparr>"

definition os_unlink :: "string \<Rightarrow> unit io" where
  "os_unlink p = sysc (\<lambda>os n s.
     case lookup_node s p of
       None \<Rightarrow> (Inl not_found, s)
     | Some (i, nd) \<Rightarrow>
         if S_ISDIR (st_mode (n_stat nd)) then (Inl (OSError ''IsADirectoryError''), s)
         else (Inr (), remove_name p s))"

definition os_rmdir :: "string \<Rightarrow> unit io" where
  "os_rmdir p = sysc (\<lambda>os n s.
     case lookup_node s p of
       None \<Rightarrow> (Inl not_found, s)
     | Some (i, nd) \<Rightarrow>
         if \<not> S_ISDIR (st_mode (n_stat nd)) then (Inl (OSError ''NotADirectoryError''), s)
         else if entries_of s i \<noteq> [] then (Inl (OSError ''OSError''), s)
         else (Inr (), remove_name p s))"

definition os_listdir :: "nat \<Rightarrow> string list io" where
  "os_listdir fd = sysc (\<lambda>os n s. (Inr (map path_name (entries_of s fd)), s))"

text \<open>\<open>flock(fd, LOCK_EX | LOCK_NB)\<close> only succeeds or fails.\<close>

definition flock :: "nat \<Rightarrow> unit io" where
  "flock fd = sysc (\<lambda>os n s. (Inr (), s))"

definition time_ns :: "nat io" where
  "time_ns = sysc (\<lambda>os n s. (Inr (clock os n), s))"

definition uuid4 :: "string io" where
  "uuid4 = sysc (\<lambda>os n s. (Inr (uuid4_hex os n), s))"

end
