(* ===== verification/Io_Logic.thy ===== *)
theory Io_Logic
  imports Os_Model
begin

section \<open>Reasoning about operations on the file system\<close>

text \<open>
  An environment is quiet when no other process changes the file system; the tools require that
  every writer is stopped. All statements below hold for every schedule of failing calls, so
  also for a process that is killed between two calls.

  \<open>runs R m\<close> says that the file systems before and after \<open>m\<close> are related by \<open>R\<close>, whether
  \<open>m\<close> succeeds or fails. The locale proves the rules of the combinators once for every
  reflexive and transitive relation. It has two instances: equality (operations that only read)
  and \<open>kept A F\<close>, under which every name outside \<open>A\<close> keeps its file and every file outside
  \<open>F\<close> its content. \<open>valid\<close> is the triple with a postcondition for success and one for failure.
\<close>

definition quiet :: "os \<Rightarrow> bool" where
  "quiet os \<longleftrightarrow> (\<forall>n s. interfere os n s = s)"

definition runs :: "(fs \<Rightarrow> fs \<Rightarrow> bool) \<Rightarrow> 'a io \<Rightarrow> bool" where
  "runs R m \<longleftrightarrow> (\<forall>os w. quiet os \<longrightarrow> R (w_fs w) (w_fs (snd (m os w))))"

lemma runsI: "(\<And>os w. quiet os \<Longrightarrow> R (w_fs w) (w_fs (snd (m os w)))) \<Longrightarrow> runs R m"
  by (simp add: runs_def)

lemma runsD: "runs R m \<Longrightarrow> quiet os \<Longrightarrow> m os w = (r, w') \<Longrightarrow> R (w_fs w) (w_fs w')"
  by (metis runs_def snd_conv)

subsection \<open>Rules for every reflexive and transitive relation\<close>

locale io_relation =
  fixes R :: "fs \<Rightarrow> fs \<Rightarrow> bool"
  assumes R_refl: "R s s"
    and R_trans: "R s t \<Longrightarrow> R t u \<Longrightarrow> R s u"
begin

lemma runs_return: "runs R (return_io x)"
  by (simp add: runs_def return_io_def R_refl)

lemma runs_raise: "runs R (raise_io e)"
  by (simp add: runs_def raise_io_def R_refl)

lemma runs_lift: "runs R (lift_io r)"
  by (simp add: runs_def lift_io_def R_refl)

lemma runs_guard: "runs R (guard_io b e)"
  by (simp add: guard_io_def runs_lift)

lemma runs_ask: "runs R (ask f)"
  by (simp add: runs_def ask_def R_refl)

lemma runs_bind:
  assumes m: "runs R m" and f: "\<And>x. runs R (f x)"
  shows "runs R (bind_io m f)"
proof (rule runsI)
  fix os w assume q: "quiet os"
  obtain r w' where mw: "m os w = (r, w')" by force
  have 1: "R (w_fs w) (w_fs w')" using m q mw by (rule runsD)
  show "R (w_fs w) (w_fs (snd (bind_io m f os w)))"
  proof (cases r)
    case (Inr x)
    have "R (w_fs w') (w_fs (snd (f x os w')))" using f [of x] q by (simp add: runs_def)
    then show ?thesis using 1 Inr mw by (auto simp: bind_io_def intro: R_trans)
  qed (use 1 mw in \<open>simp add: bind_io_def\<close>)
qed

lemma runs_then: "runs R m \<Longrightarrow> runs R k \<Longrightarrow> runs R (then_io m k)"
  by (simp add: then_io_def runs_bind)

lemma runs_catch:
  assumes m: "runs R m" and h: "runs R h"
  shows "runs R (catch_io c m h)"
proof (rule runsI)
  fix os w assume q: "quiet os"
  obtain r w' where mw: "m os w = (r, w')" by force
  have 1: "R (w_fs w) (w_fs w')" using m q mw by (rule runsD)
  have 2: "R (w_fs w') (w_fs (snd (h os w')))" using h q by (simp add: runs_def)
  show "R (w_fs w) (w_fs (snd (catch_io c m h os w)))"
    using R_trans [OF 1 2] 1 mw by (cases r) (simp_all add: catch_io_def)
qed

lemma runs_on_error:
  assumes m: "runs R m" and h: "runs R h"
  shows "runs R (on_error_io m h)"
proof (rule runsI)
  fix os w assume q: "quiet os"
  obtain r w' where mw: "m os w = (r, w')" by force
  obtain r2 w2 where hw: "h os w' = (r2, w2)" by force
  have 1: "R (w_fs w) (w_fs w')" using m q mw by (rule runsD)
  have 2: "R (w_fs w') (w_fs w2)" using h q hw by (rule runsD)
  show "R (w_fs w) (w_fs (snd (on_error_io m h os w)))"
    using R_trans [OF 1 2] 1 mw hw by (cases r; cases r2) (simp_all add: on_error_io_def)
qed

lemma runs_try: "runs R m \<Longrightarrow> runs R (try_io m)"
  by (auto simp: runs_def try_io_def split: prod.splits) (metis snd_conv)

lemma runs_map: "(\<And>x. runs R (f x)) \<Longrightarrow> runs R (map_io f xs)"
  by (induction xs) (auto intro!: runs_return runs_bind)

lemma runs_fold: "(\<And>s x. runs R (f s x)) \<Longrightarrow> runs R (fold_io f s xs)"
  by (induction xs arbitrary: s) (auto intro!: runs_return runs_bind)

lemma runs_sysc:
  assumes "\<And>os n s. R s (snd (f os n s))"
  shows "runs R (sysc f)"
proof (rule runsI)
  fix os w assume "quiet os"
  then show "R (w_fs w) (w_fs (snd (sysc f os w)))"
    using assms [of "w_fs w" os "w_calls w"]
    by (auto simp: sysc_def Let_def quiet_def R_refl split: option.splits prod.splits)
qed

lemmas runs_rules =
  runs_return runs_raise runs_lift runs_guard runs_ask runs_bind runs_then runs_catch runs_on_error runs_try
  runs_map runs_fold

end

subsection \<open>Case distinctions\<close>

lemma runs_if: "(c \<Longrightarrow> runs R a) \<Longrightarrow> (\<not> c \<Longrightarrow> runs R b) \<Longrightarrow> runs R (if c then a else b)"
  by simp

lemma runs_prod: "(\<And>a b. x = (a, b) \<Longrightarrow> runs R (f a b)) \<Longrightarrow> runs R (case x of (a, b) \<Rightarrow> f a b)"
  by (cases x) simp

lemma runs_prod_app:
  "(\<And>a b. x = (a, b) \<Longrightarrow> runs R (f a b y)) \<Longrightarrow> runs R ((case x of (a, b) \<Rightarrow> f a b) y)"
  by (cases x) simp

lemma runs_option:
  "(x = None \<Longrightarrow> runs R a) \<Longrightarrow> (\<And>y. x = Some y \<Longrightarrow> runs R (f y)) \<Longrightarrow> runs R (case x of None \<Rightarrow> a | Some y \<Rightarrow> f y)"
  by (cases x) simp_all

lemma runs_sum:
  "(\<And>y. x = Inl y \<Longrightarrow> runs R (f y)) \<Longrightarrow> (\<And>y. x = Inr y \<Longrightarrow> runs R (g y)) \<Longrightarrow>
   runs R (case x of Inl y \<Rightarrow> f y | Inr y \<Rightarrow> g y)"
  by (cases x) simp_all

lemmas runs_cases = runs_if runs_prod runs_prod_app runs_option runs_sum

subsection \<open>Operations that only read\<close>

abbreviation reads :: "'a io \<Rightarrow> bool" where
  "reads \<equiv> runs (=)"

interpretation rd: io_relation "(=)"
  by unfold_locales simp_all

named_theorems reads_calls

lemma reads_syscalls [reads_calls]:
  "reads (open_read p)" "reads (open_dir p)" "reads (fstat fd)" "reads (lstat p)" "reads (read_fd fd)"
  "reads (path_exists p)" "reads (path_is_dir p)" "reads (os_listdir fd)" "reads (flock fd)" "reads time_ns"
  "reads uuid4" "reads (resolve p)"
  by (simp_all add: open_read_def open_dir_def open_node_def fstat_def lstat_def read_fd_def path_exists_def
      path_is_dir_def os_listdir_def flock_def time_ns_def uuid4_def resolve_def rd.runs_sysc rd.runs_ask)

lemma readsD: "reads m \<Longrightarrow> quiet os \<Longrightarrow> m os w = (r, w') \<Longrightarrow> w_fs w' = w_fs w"
  by (drule (2) runsD) (rule sym)

subsection \<open>What an operation keeps\<close>

definition same_content :: "node \<Rightarrow> node \<Rightarrow> bool" where
  "same_content nd nd' \<longleftrightarrow>
     n_data nd' = n_data nd \<and> n_stat nd' = n_stat nd \<and> (n_synced nd \<longrightarrow> n_synced nd')"

definition kept :: "string set \<Rightarrow> nat set \<Rightarrow> fs \<Rightarrow> fs \<Rightarrow> bool" where
  "kept A F s t \<longleftrightarrow>
     (\<forall>p i. p \<notin> A \<longrightarrow> map_of (names s) p = Some i \<longrightarrow>
        map_of (names t) p = Some i \<and> (p \<in> set (durable s) \<longrightarrow> p \<in> set (durable t))) \<and>
     (\<forall>i nd. map_of (nodes s) i = Some nd \<longrightarrow>
        (\<exists>nd'. map_of (nodes t) i = Some nd' \<and> (i \<notin> F \<longrightarrow> same_content nd nd')))"

lemma same_content_refl: "same_content nd nd"
  by (simp add: same_content_def)

lemma same_content_trans: "same_content a b \<Longrightarrow> same_content b c \<Longrightarrow> same_content a c"
  by (simp add: same_content_def)

lemma kept_refl: "kept A F s s"
  by (auto simp: kept_def same_content_refl)

lemma kept_trans:
  assumes 1: "kept A F s t" and 2: "kept A F t u"
  shows "kept A F s u"
  unfolding kept_def
proof (intro conjI allI impI)
  fix i nd assume "map_of (nodes s) i = Some nd"
  then obtain nd1 where a: "map_of (nodes t) i = Some nd1" "i \<notin> F \<longrightarrow> same_content nd nd1"
    using 1 unfolding kept_def by blast
  then obtain nd2 where "map_of (nodes u) i = Some nd2" "i \<notin> F \<longrightarrow> same_content nd1 nd2"
    using 2 unfolding kept_def by blast
  then show "\<exists>nd'. map_of (nodes u) i = Some nd' \<and> (i \<notin> F \<longrightarrow> same_content nd nd')"
    using a same_content_trans by blast
qed (use 1 2 in \<open>simp_all add: kept_def\<close>)

abbreviation leaves :: "string set \<Rightarrow> nat set \<Rightarrow> 'a io \<Rightarrow> bool" where
  "leaves A F \<equiv> runs (kept A F)"

interpretation kp: io_relation "kept A F" for A F
  by unfold_locales (fact kept_refl, fact kept_trans)

lemma reads_keeps:
  assumes "reads m"
  shows "leaves A F m"
proof (rule runsI)
  fix os w assume q: "quiet os"
  have eq: "w_fs (snd (m os w)) = w_fs w"
    using assms [unfolded runs_def, rule_format, OF q, of w] by (rule sym)
  show "kept A F (w_fs w) (w_fs (snd (m os w)))" unfolding eq by (rule kept_refl)
qed

lemma kept_mono: "kept A F s t \<Longrightarrow> A \<subseteq> A' \<Longrightarrow> F \<subseteq> F' \<Longrightarrow> kept A' F' s t"
  unfolding kept_def by (meson subsetD)

lemma keeps_mono: "leaves A F m \<Longrightarrow> A \<subseteq> A' \<Longrightarrow> F \<subseteq> F' \<Longrightarrow> leaves A' F' m"
  unfolding runs_def using kept_mono by blast

text \<open>Consequences for a name and for its file.\<close>

lemma kept_name: "kept A F s t \<Longrightarrow> p \<notin> A \<Longrightarrow> map_of (names s) p = Some i \<Longrightarrow> map_of (names t) p = Some i"
  by (simp add: kept_def)

lemma kept_durable:
  "kept A F s t \<Longrightarrow> p \<notin> A \<Longrightarrow> map_of (names s) p = Some i \<Longrightarrow> p \<in> set (durable s) \<Longrightarrow> p \<in> set (durable t)"
  by (simp add: kept_def)

lemma kept_node:
  "kept A F s t \<Longrightarrow> map_of (nodes s) i = Some nd \<Longrightarrow> i \<notin> F \<Longrightarrow>
   \<exists>nd'. map_of (nodes t) i = Some nd' \<and> same_content nd nd'"
  unfolding kept_def by blast

lemma lookup_nodeI: "map_of (names s) p = Some i \<Longrightarrow> map_of (nodes s) i = Some nd \<Longrightarrow> lookup_node s p = Some (i, nd)"
  by (simp add: lookup_node_def)

lemma lookup_nodeD:
  "lookup_node s p = Some (i, nd) \<Longrightarrow> map_of (names s) p = Some i \<and> map_of (nodes s) i = Some nd"
  by (auto simp: lookup_node_def split: option.splits)

lemma kept_lookup:
  assumes k: "kept A F s t" and p: "p \<notin> A" and l: "lookup_node s p = Some (i, nd)" and i: "i \<notin> F"
  shows "\<exists>nd'. lookup_node t p = Some (i, nd') \<and> same_content nd nd'"
proof -
  have "map_of (names t) p = Some i" using kept_name [OF k p] lookup_nodeD [OF l] by blast
  moreover obtain nd' where "map_of (nodes t) i = Some nd'" "same_content nd nd'"
    using kept_node [OF k _ i] lookup_nodeD [OF l] by blast
  ultimately show ?thesis using lookup_nodeI by blast
qed

subsection \<open>The calls that change the file system\<close>

lemma map_of_delete: "map_of (AList.delete k xs) = (map_of xs)(k := None)"
  by (rule AList.delete_conv')

lemma map_of_update: "map_of (AList.update k v xs) = (map_of xs)(k \<mapsto> v)"
  by (rule AList.update_conv')

lemma update_node_fields [simp]:
  "names (update_node i f s) = names s" "durable (update_node i f s) = durable s"
  by (simp_all add: update_node_def split: option.splits)

lemma update_node_nodes:
  "map_of (nodes (update_node i f s)) = (map_of (nodes s))(i := map_option f (map_of (nodes s) i))"
  by (auto simp: update_node_def map_of_update fun_eq_iff split: option.splits)

lemma kept_update_node:
  "i \<in> F \<or> (\<forall>nd. same_content nd (f nd)) \<Longrightarrow> kept A F s (update_node i f s)"
  by (auto simp: kept_def update_node_nodes same_content_refl)

lemma foldr_max_ge: "(x::nat) \<in> set xs \<Longrightarrow> x \<le> foldr max xs 0"
  by (induction xs) auto

lemma fresh_node_unused: "i \<in> fst ` set (nodes s) \<union> snd ` set (names s) \<Longrightarrow> i < fresh_node s"
  using foldr_max_ge [of i "map fst (nodes s) @ map snd (names s)"] by (auto simp: fresh_node_def)

lemma fresh_node_none: "map_of (nodes s) (fresh_node s) = None"
proof -
  have "fresh_node s \<notin> fst ` set (nodes s)" using fresh_node_unused [of "fresh_node s" s] by blast
  then show ?thesis by (simp only: map_of_eq_None_iff not_False_eq_True)
qed

lemma fresh_node_name: "map_of (names s) p \<noteq> Some (fresh_node s)"
proof
  assume "map_of (names s) p = Some (fresh_node s)"
  then have "fresh_node s \<in> snd ` set (names s)" by (metis image_eqI map_of_SomeD snd_conv)
  then show False using fresh_node_unused [of "fresh_node s" s] by blast
qed

lemma add_node_kept: "map_of (names s) p = None \<Longrightarrow> kept A F s (add_node p nd s)"
  by (auto simp: kept_def add_node_def same_content_refl fresh_node_none)

lemma keeps_os_write: "fd \<in> F \<Longrightarrow> leaves A F (os_write fd d)"
  unfolding os_write_def by (rule kp.runs_sysc) (simp add: Let_def kept_update_node)

lemma keeps_os_fsync: "leaves A F (os_fsync fd)"
  unfolding os_fsync_def
proof (rule kp.runs_sysc)
  fix os n s
  have "kept A F s (s\<lparr>durable := entries_of s fd @ durable s\<rparr>)" by (auto simp: kept_def same_content_refl)
  moreover have "kept A F (s\<lparr>durable := entries_of s fd @ durable s\<rparr>)
    (update_node fd (\<lambda>nd. nd\<lparr>n_synced := True\<rparr>) (s\<lparr>durable := entries_of s fd @ durable s\<rparr>))"
    by (rule kept_update_node) (simp add: same_content_def)
  ultimately show "kept A F s (snd (Inr (), update_node fd (\<lambda>nd. nd\<lparr>n_synced := True\<rparr>)
    (s\<lparr>durable := entries_of s fd @ durable s\<rparr>)))"
    unfolding snd_conv by (rule kept_trans)
qed

lemma keeps_os_replace: "src \<in> A \<Longrightarrow> dst \<in> A \<Longrightarrow> leaves A F (os_replace src dst)"
  unfolding os_replace_def
  by (rule kp.runs_sysc) (auto simp: kept_def same_content_refl map_of_delete split: option.splits)

lemma remove_name_kept: "p \<in> A \<Longrightarrow> kept A F s (remove_name p s)"
  by (auto simp: kept_def remove_name_def same_content_refl map_of_delete)

lemma keeps_os_unlink: "p \<in> A \<Longrightarrow> leaves A F (os_unlink p)"
  unfolding os_unlink_def
  by (rule kp.runs_sysc) (auto simp: kept_refl remove_name_kept split: option.splits)

lemma keeps_os_rmdir: "p \<in> A \<Longrightarrow> leaves A F (os_rmdir p)"
  unfolding os_rmdir_def
  by (rule kp.runs_sysc) (auto simp: kept_refl remove_name_kept split: option.splits)

lemma keeps_create: "leaves A F (create_node mode links p)"
  unfolding create_node_def
  by (rule kp.runs_sysc) (auto simp: kept_refl add_node_kept)

text \<open>The outcome of a system call.\<close>

lemma sysc_cases:
  assumes "sysc f os w = (r, w')" and "quiet os"
  obtains (fault) e where "r = Inl e" "w_fs w' = w_fs w"
    | (call) n where "f os n (w_fs w) = (r, w_fs w')"
  using assms by (auto simp: sysc_def Let_def quiet_def split: option.splits prod.splits)

lemma create_node_cases:
  assumes c: "create_node mode links p os w = (r, w')" and q: "quiet os"
  obtains (failed) e where "r = Inl e" "w_fs w' = w_fs w"
    | (created) st where "r = Inr (fresh_node (w_fs w))" "map_of (names (w_fs w)) p = None"
        "is_dir_at (w_fs w) (path_parent p)"
        "w_fs w' = add_node p \<lparr>n_stat = st, n_data = [], n_synced = False\<rparr> (w_fs w)"
proof -
  from c q show thesis
    unfolding create_node_def
  proof (cases rule: sysc_cases)
    case (fault e)
    then show ?thesis by (rule failed)
  next
    case (call n)
    show ?thesis
    proof (cases "map_of (names (w_fs w)) p = None \<and> is_dir_at (w_fs w) (path_parent p)")
      case True
      then have "r = Inr (fresh_node (w_fs w))"
        "w_fs w' = add_node p \<lparr>n_stat = new_stat os n (fresh_node (w_fs w)) mode links, n_data = [], n_synced = False\<rparr> (w_fs w)"
        using call by (simp_all split: if_splits)
      then show ?thesis using True created by blast
    next
      case False
      then have "\<exists>e. r = Inl e \<and> w_fs w' = w_fs w" using call by (auto split: if_splits)
      then show ?thesis using failed by blast
    qed
  qed
qed

lemma kept_new:
  assumes k: "kept (insert p A) (insert i F) s t" and p: "map_of (names s) p = None" and i: "map_of (nodes s) i = None"
  shows "kept A F s t"
  unfolding kept_def
proof (intro conjI allI impI)
  fix q j assume q: "q \<notin> A" "map_of (names s) q = Some j"
  then have "q \<notin> insert p A" using p by auto
  then show "map_of (names t) q = Some j" "q \<in> set (durable s) \<Longrightarrow> q \<in> set (durable t)"
    using k q(2) by (simp_all add: kept_def)
next
  fix j nd assume j: "map_of (nodes s) j = Some nd"
  then have "j \<noteq> i" using i by auto
  then show "\<exists>nd'. map_of (nodes t) j = Some nd' \<and> (j \<notin> F \<longrightarrow> same_content nd nd')"
    using k j unfolding kept_def by blast
qed

lemma kept_new_name:
  assumes "kept (insert p A) F s t" and p: "map_of (names s) p = None"
  shows "kept A F s t"
  unfolding kept_def
proof (intro conjI allI impI)
  fix q j assume q: "q \<notin> A" "map_of (names s) q = Some j"
  then have "q \<notin> insert p A" using p by auto
  then show "map_of (names t) q = Some j" "q \<in> set (durable s) \<Longrightarrow> q \<in> set (durable t)"
    using assms(1) q(2) by (simp_all add: kept_def)
qed (use assms(1) in \<open>simp add: kept_def\<close>)

lemma runs_create:
  assumes body: "\<And>fd. leaves (insert p A) (insert fd F) (body fd)"
  shows "leaves A F (bind_io (create_node mode links p) body)"
proof (rule runsI)
  fix os w assume q: "quiet os"
  obtain r w1 where c: "create_node mode links p os w = (r, w1)" by force
  from c q show "kept A F (w_fs w) (w_fs (snd (bind_io (create_node mode links p) body os w)))"
  proof (cases rule: create_node_cases)
    case (failed e)
    then show ?thesis using c by (simp add: bind_io_def kept_refl)
  next
    case (created st)
    obtain r2 w2 where b: "body (fresh_node (w_fs w)) os w1 = (r2, w2)" by force
    have "kept (insert p A) (insert (fresh_node (w_fs w)) F) (w_fs w1) (w_fs w2)"
      using body q b by (rule runsD)
    moreover have "kept (insert p A) (insert (fresh_node (w_fs w)) F) (w_fs w) (w_fs w1)"
      using created add_node_kept by simp
    ultimately have k: "kept (insert p A) (insert (fresh_node (w_fs w)) F) (w_fs w) (w_fs w2)"
      by (rule kept_trans [rotated])
    have "kept A F (w_fs w) (w_fs w2)" using k created(2) fresh_node_none by (rule kept_new)
    then show ?thesis using c created(1) b by (simp add: bind_io_def)
  qed
qed

lemma bind_assoc: "bind_io (bind_io m f) g = bind_io m (\<lambda>x. bind_io (f x) g)"
  by (auto simp: fun_eq_iff bind_io_def split: prod.splits sum.splits)

lemma bind_io_InrE:
  assumes "bind_io m f os w = (Inr y, w')"
  obtains x w1 where "m os w = (Inr x, w1)" "f x os w1 = (Inr y, w')"
  using assms by (auto simp: bind_io_def split: prod.splits sum.splits)

lemma then_io_InrE:
  assumes "then_io m k os w = (Inr y, w')"
  obtains x w1 where "m os w = (Inr x, w1)" "k os w1 = (Inr y, w')"
  using assms unfolding then_io_def by (rule bind_io_InrE)

subsection \<open>Triples\<close>

text \<open>From a state that satisfies \<open>P\<close> a successful run ends in \<open>Q\<close> and a failed one in \<open>E\<close>.\<close>

definition valid :: "os \<Rightarrow> (fs \<Rightarrow> bool) \<Rightarrow> 'a io \<Rightarrow> ('a \<Rightarrow> fs \<Rightarrow> bool) \<Rightarrow> (fs \<Rightarrow> bool) \<Rightarrow> bool" where
  "valid os P m Q E \<longleftrightarrow>
     (\<forall>w. P (w_fs w) \<longrightarrow> (case m os w of (Inl e, w') \<Rightarrow> E (w_fs w') | (Inr x, w') \<Rightarrow> Q x (w_fs w')))"

lemma validI:
  assumes "\<And>w e w'. P (w_fs w) \<Longrightarrow> m os w = (Inl e, w') \<Longrightarrow> E (w_fs w')"
    and "\<And>w x w'. P (w_fs w) \<Longrightarrow> m os w = (Inr x, w') \<Longrightarrow> Q x (w_fs w')"
  shows "valid os P m Q E"
  using assms by (auto simp: valid_def split: prod.splits sum.splits)

lemma valid_Inr: "valid os P m Q E \<Longrightarrow> P (w_fs w) \<Longrightarrow> m os w = (Inr x, w') \<Longrightarrow> Q x (w_fs w')"
  by (auto simp: valid_def split: prod.splits sum.splits)

lemma valid_Inl: "valid os P m Q E \<Longrightarrow> P (w_fs w) \<Longrightarrow> m os w = (Inl e, w') \<Longrightarrow> E (w_fs w')"
  by (fastforce simp: valid_def split: prod.splits sum.splits)

lemma valid_bind:
  assumes m: "valid os P m Q E" and f: "\<And>x. valid os (Q x) (f x) R E"
  shows "valid os P (bind_io m f) R E"
  unfolding valid_def
proof (intro allI impI)
  fix w :: world assume p: "P (w_fs w)"
  obtain r w1 where mw: "m os w = (r, w1)" by force
  show "case bind_io m f os w of (Inl e, w') \<Rightarrow> E (w_fs w') | (Inr x, w') \<Rightarrow> R x (w_fs w')"
  proof (cases r)
    case (Inl e)
    then show ?thesis using valid_Inl [OF m p] mw by (simp add: bind_io_def)
  next
    case (Inr x)
    then have "Q x (w_fs w1)" using valid_Inr [OF m p] mw by simp
    then show ?thesis using f [of x] Inr mw by (simp add: valid_def bind_io_def)
  qed
qed

lemma valid_then: "valid os P m (\<lambda>_. Q) E \<Longrightarrow> valid os Q k R E \<Longrightarrow> valid os P (then_io m k) R E"
  unfolding then_io_def by (rule valid_bind)

lemma valid_reads:
  assumes "reads m" and q: "quiet os" and E: "\<And>s. P s \<Longrightarrow> E s"
    and info: "\<And>w x w'. m os w = (Inr x, w') \<Longrightarrow> w_fs w' = w_fs w \<Longrightarrow> P (w_fs w) \<Longrightarrow> Q x (w_fs w)"
  shows "valid os P m Q E"
proof (rule validI)
  fix w e w' assume "P (w_fs w)" "m os w = (Inl e, w')"
  then show "E (w_fs w')" using E readsD [OF assms(1) q] by metis
next
  fix w x w' assume "P (w_fs w)" "m os w = (Inr x, w')"
  then show "Q x (w_fs w')" using info readsD [OF assms(1) q] by metis
qed

lemma valid_read: "reads m \<Longrightarrow> quiet os \<Longrightarrow> (\<And>s. P s \<Longrightarrow> E s) \<Longrightarrow> valid os P m (\<lambda>_. P) E"
  by (rule valid_reads)

lemma valid_lift:
  "(\<And>s e. r = Inl e \<Longrightarrow> P s \<Longrightarrow> E s) \<Longrightarrow> (\<And>s x. r = Inr x \<Longrightarrow> P s \<Longrightarrow> Q x s) \<Longrightarrow> valid os P (lift_io r) Q E"
  by (cases r) (auto simp: valid_def lift_io_def)

lemma valid_return: "(\<And>s. P s \<Longrightarrow> Q x s) \<Longrightarrow> valid os P (return_io x) Q E"
  by (simp add: valid_def return_io_def)

lemma valid_runs:
  assumes k: "runs R m" and q: "quiet os" and P: "\<And>s t. P s \<Longrightarrow> R s t \<Longrightarrow> P' t" and E: "\<And>s. P' s \<Longrightarrow> E s"
  shows "valid os P m (\<lambda>_. P') E"
proof (rule validI)
  fix w e w' assume "P (w_fs w)" "m os w = (Inl e, w')"
  then show "E (w_fs w')" using E P runsD [OF k q] by blast
next
  fix w x w' assume "P (w_fs w)" "m os w = (Inr x, w')"
  then show "P' (w_fs w')" using P runsD [OF k q] by blast
qed

lemma valid_conseq:
  "valid os P m Q E \<Longrightarrow> (\<And>s. P' s \<Longrightarrow> P s) \<Longrightarrow> (\<And>x s. Q x s \<Longrightarrow> Q' x s) \<Longrightarrow> (\<And>s. E s \<Longrightarrow> E' s) \<Longrightarrow> valid os P' m Q' E'"
  by (fastforce simp: valid_def split: prod.splits sum.splits)

lemma valid_pure: "(\<phi> \<Longrightarrow> valid os P m Q E) \<Longrightarrow> valid os (\<lambda>s. \<phi> \<and> P s) m Q E"
  by (auto simp: valid_def)

text \<open>A step that only reads leaves the run itself as a fact about its value.\<close>

lemma valid_reads_bind:
  assumes m: "reads m" and q: "quiet os" and E: "E s"
    and f: "\<And>w x w'. m os w = (Inr x, w') \<Longrightarrow> w_fs w = s \<Longrightarrow> valid os ((=) s) (f x) R E"
  shows "valid os ((=) s) (bind_io m f) R E"
proof (rule validI)
  fix w e w' assume s: "s = w_fs w" and r: "bind_io m f os w = (Inl e, w')"
  obtain rm w1 where mw: "m os w = (rm, w1)" by force
  have w1: "w_fs w1 = s" using readsD [OF m q mw] s by simp
  show "E (w_fs w')"
  proof (cases rm)
    case (Inl e')
    then show ?thesis using r mw w1 E by (simp add: bind_io_def)
  next
    case (Inr x)
    then show ?thesis using valid_Inl [OF f [OF mw [unfolded Inr] s [symmetric]] w1 [symmetric]] r mw by (simp add: bind_io_def)
  qed
next
  fix w y w' assume s: "s = w_fs w" and r: "bind_io m f os w = (Inr y, w')"
  from r obtain x w1 where mw: "m os w = (Inr x, w1)" and fx: "f x os w1 = (Inr y, w')" by (rule bind_io_InrE)
  have "s = w_fs w1" using readsD [OF m q mw] s by simp
  then show "R y (w_fs w')" using valid_Inr [OF f [OF mw s [symmetric]]] fx by blast
qed

lemma valid_reads_then:
  assumes "reads m" and "quiet os" and "E s"
    and "\<And>w x w'. m os w = (Inr x, w') \<Longrightarrow> w_fs w = s \<Longrightarrow> valid os ((=) s) k R E"
  shows "valid os ((=) s) (then_io m k) R E"
  unfolding then_io_def using assms by (rule valid_reads_bind)

text \<open>A file that an operation leaves as it was.\<close>

definition intact :: "fs \<Rightarrow> fs \<Rightarrow> string \<Rightarrow> bool" where
  "intact s t p =
     (case lookup_node s p of
        None \<Rightarrow> True
      | Some (i, nd) \<Rightarrow> (case lookup_node t p of None \<Rightarrow> False | Some (j, nd') \<Rightarrow> j = i \<and> same_content nd nd'))"

lemma kept_intact:
  assumes "kept A {} s t" and "p \<notin> A"
  shows "intact s t p"
proof (cases "lookup_node s p")
  case (Some ind)
  obtain i nd where "ind = (i, nd)" by force
  then show ?thesis using kept_lookup [OF assms, of i nd] Some by (auto simp: intact_def)
qed (simp add: intact_def)

text \<open>Every name has a parent directory in the table; the root has the empty name.\<close>

definition rooted :: "fs \<Rightarrow> bool" where
  "rooted s \<longleftrightarrow> list_all (\<lambda>(p, i). map_of (names s) (path_parent p) \<noteq> None) (names s)"

lemma rooted_child:
  assumes "rooted s" and "map_of (names s) d = None" and "path_parent p = d"
  shows "map_of (names s) p = None"
proof (rule ccontr)
  assume "map_of (names s) p \<noteq> None"
  then obtain i where "(p, i) \<in> set (names s)" by (auto dest: map_of_SomeD)
  then have "map_of (names s) (path_parent p) \<noteq> None" using assms(1) by (auto simp: rooted_def list_all_iff)
  then show False using assms(2,3) by simp
qed

text \<open>Names in a directory.\<close>

lemma path_parent_child: "SLASH \<notin> set n \<Longrightarrow> path_parent (d @ SLASH # n) = d"
  by (simp add: path_parent_def dropWhile_append)

lemma path_parent_join: "SLASH \<notin> set n \<Longrightarrow> path_parent (path_join d n) = d"
  by (cases n) (auto simp: path_join_def path_parent_child)

lemma path_join_eq: "SLASH \<notin> set n \<Longrightarrow> SLASH \<notin> set k \<Longrightarrow> path_join d n = path_join d k \<longleftrightarrow> n = k"
  by (cases n; cases k) (auto simp: path_join_def)

end
