(* ===== verification/Py_Object.thy ===== *)
theory Py_Object
  imports Json_Codec
begin

section \<open>Python operations on parsed metadata\<close>

text \<open>
  What the generation tools do with a value that \<open>json.loads\<close> returned and that has not been
  validated yet: \<open>==\<close> between objects, \<open>obj.get(k)\<close> and \<open>obj[k]\<close> on an object that may
  not be a \<open>dict\<close>, \<open>str(obj)\<close>, \<open>len\<close>, and the two \<open>splitlines\<close>.
\<close>

subsection \<open>Equality\<close>

text \<open>\<open>bool\<close>, \<open>int\<close> and \<open>float\<close> compare by value; a \<open>dict\<close> ignores the order of its keys.\<close>

fun num_val :: "json \<Rightarrow> rat option" where
  "num_val (JBool b) = Some (if b then 1 else 0)"
| "num_val (JInt i) = Some (of_int i)"
| "num_val (JFloat (Finite s m e)) = Some (fl_val (Finite s m e))"
| "num_val _ = None"

fun py_eq :: "json \<Rightarrow> json \<Rightarrow> bool"
  and py_eq_items :: "json list \<Rightarrow> json list \<Rightarrow> bool"
  and py_eq_members :: "dict \<Rightarrow> dict \<Rightarrow> bool"
where
  "py_eq (JList xs) b = (case b of JList ys \<Rightarrow> py_eq_items xs ys | _ \<Rightarrow> False)"
| "py_eq (JDict d) b = (case b of JDict d' \<Rightarrow> length d = length d' \<and> py_eq_members d d' | _ \<Rightarrow> False)"
| "py_eq (JStr s) b = (case b of JStr t \<Rightarrow> s = t | _ \<Rightarrow> False)"
| "py_eq JNull b = (b = JNull)"
| "py_eq (JFloat x) (JFloat y) = fl_eq x y"
| "py_eq a b = (num_val a \<noteq> None \<and> num_val a = num_val b)"
| "py_eq_items [] ys = (ys = [])"
| "py_eq_items (x # xs) ys = (case ys of [] \<Rightarrow> False | y # ys' \<Rightarrow> py_eq x y \<and> py_eq_items xs ys')"
| "py_eq_members [] d' = True"
| "py_eq_members ((k, v) # d) d' =
     ((case map_of d' k of None \<Rightarrow> False | Some v' \<Rightarrow> py_eq v v') \<and> py_eq_members d d')"

subsection \<open>Member access\<close>

text \<open>\<open>obj.get(k)\<close> and \<open>obj[k]\<close>; a missing key of \<open>get\<close> is \<open>None\<close>.\<close>

definition py_get :: "json \<Rightarrow> string \<Rightarrow> json res" where
  "py_get obj k =
     (case obj of
        JDict d \<Rightarrow> Inr (get_default d k JNull)
      | _ \<Rightarrow> Inl (AttributeError ''get''))"

definition py_item :: "json \<Rightarrow> string \<Rightarrow> json res" where
  "py_item obj k =
     (case obj of
        JDict d \<Rightarrow> (case dict_get d k of None \<Rightarrow> Inl (KeyError k) | Some v \<Rightarrow> Inr v)
      | _ \<Rightarrow> Inl (TypeError ''object is not subscriptable by str''))"

text \<open>\<open>a or b\<close>\<close>

definition py_or :: "json \<Rightarrow> json \<Rightarrow> json" where
  "py_or a b = (if truthy a then a else b)"

text \<open>
  \<open>d.update({...})\<close>: the new members in order.
\<close>

definition dict_update :: "dict \<Rightarrow> dict \<Rightarrow> dict" where
  "dict_update d new = foldl (\<lambda>d (k, v). dict_set k v d) d new"

subsection \<open>Text of an object\<close>

text \<open>
  \<open>str(obj)\<close>. Inside a container a string is shown by \<open>repr\<close>: between single quotes, or
  double quotes if it contains a single quote and no double quote; backslash, the quote and the
  ASCII control characters are escaped. Characters beyond ASCII are shown as they are.
\<close>

definition SQ :: char where "SQ = CHR 0x27"

definition repr_char :: "char \<Rightarrow> char \<Rightarrow> string" where
  "repr_char q c =
     (if c = q \<or> c = BSL then [BSL, c]
      else if c = LF then [BSL, CHR ''n'']
      else if c = CR then [BSL, CHR ''r'']
      else if c = TAB then [BSL, CHR ''t'']
      else if of_char c < (32::nat) \<or> c = CHR 0x7F then [BSL, CHR ''x''] @ hex_of [c]
      else [c])"

definition repr_str :: "string \<Rightarrow> string" where
  "repr_str s =
     (let q = (if SQ \<in> set s \<and> DQ \<notin> set s then DQ else SQ)
      in q # concat (map (repr_char q) s) @ [q])"

definition comma_sep :: "string list \<Rightarrow> string" where
  "comma_sep xs = (case xs of [] \<Rightarrow> [] | x # ys \<Rightarrow> x @ concat (map (\<lambda>y. '', '' @ y) ys))"

fun float_str :: "pyfloat \<Rightarrow> string" where
  "float_str (Infinite s) = (if s then ''-inf'' else ''inf'')"
| "float_str NaN = ''nan''"
| "float_str x = float_repr x"

fun py_repr :: "json \<Rightarrow> string" where
  "py_repr JNull = ''None''"
| "py_repr (JBool b) = (if b then ''True'' else ''False'')"
| "py_repr (JInt i) = str_of_int i"
| "py_repr (JFloat x) = float_str x"
| "py_repr (JStr s) = repr_str s"
| "py_repr (JList xs) = ''['' @ comma_sep (map py_repr xs) @ '']''"
| "py_repr (JDict d) = ''{'' @ comma_sep (map (\<lambda>(k, v). repr_str k @ '': '' @ py_repr v) d) @ ''}''"

definition py_str :: "json \<Rightarrow> string" where
  "py_str v = (case v of JStr s \<Rightarrow> s | _ \<Rightarrow> py_repr v)"

text \<open>The code points of a text: a lead byte with the continuation bytes after it.\<close>

function code_points :: "string \<Rightarrow> string list" where
  "code_points [] = []"
| "code_points (c # s) = (c # takeWhile cont_byte s) # code_points (dropWhile cont_byte s)"
  by pat_completeness auto
termination
  by (relation "measure length") (auto simp: le_imp_less_Suc length_dropWhile_le)

subsection \<open>Lines\<close>

text \<open>\<open>splitlines\<close> with the line ends kept: \<open>brk\<close> are the single-character line
  boundaries, and a carriage return followed by a line feed is one boundary.\<close>

fun split_keep :: "(char \<Rightarrow> bool) \<Rightarrow> string \<Rightarrow> string \<Rightarrow> string list" where
  "split_keep brk acc [] = (if acc = [] then [] else [acc])"
| "split_keep brk acc (c # s) =
     (if c = CR then
        (case s of
           d # s' \<Rightarrow> if d = LF then (acc @ [c, d]) # split_keep brk [] s' else (acc @ [c]) # split_keep brk [] s
         | [] \<Rightarrow> [acc @ [c]])
      else if brk c then (acc @ [c]) # split_keep brk [] s
      else split_keep brk (acc @ [c]) s)"

definition bytes_break :: "char \<Rightarrow> bool" where
  "bytes_break c \<longleftrightarrow> c = LF \<or> c = CR"

text \<open>The ASCII line boundaries of \<open>str.splitlines\<close>.\<close>

definition str_break :: "char \<Rightarrow> bool" where
  "str_break c \<longleftrightarrow> c \<in> {LF, CR, CHR 0x0B, CHR 0x0C, CHR 0x1C, CHR 0x1D, CHR 0x1E}"

definition bytes_splitlines_keepends :: "string \<Rightarrow> string list" where
  "bytes_splitlines_keepends s = split_keep bytes_break [] s"

definition chomp :: "(char \<Rightarrow> bool) \<Rightarrow> string \<Rightarrow> string" where
  "chomp brk l = rev (dropWhile brk (rev l))"

definition bytes_splitlines :: "string \<Rightarrow> string list" where
  "bytes_splitlines s = map (chomp bytes_break) (bytes_splitlines_keepends s)"

definition ascii_splitlines :: "string \<Rightarrow> string list" where
  "ascii_splitlines s = map (chomp str_break) (split_keep str_break [] s)"

subsection \<open>Lines of a text that only uses line feeds\<close>

lemma split_keep_line:
  assumes "\<forall>c \<in> set l. \<not> brk c \<and> c \<noteq> CR" and "brk LF"
  shows "split_keep brk acc (l @ LF # s) = (acc @ l @ [LF]) # split_keep brk [] s"
  using assms
proof (induction l arbitrary: acc)
  case Nil
  then show ?case by (simp add: LF_def CR_def)
next
  case (Cons c l)
  then show ?case by simp
qed

end
