(* ===== verification/Journal.thy ===== *)
theory Journal
  imports Json_Codec Archive_Codec Posix
begin

section \<open>The OMS journal: records and the bounded reader\<close>

text \<open>
  Model of \<open>scripts/verify_oms_journal_replay.py\<close>: validation of one journal record
  (\<open>validate_event\<close>) and the bounded reader (\<open>validated_raw_records\<close>,
  \<open>read_records\<close>, \<open>load_events\<close>).
\<close>

type_synonym event = dict

definition CURRENT_SCHEMA :: int where
  "CURRENT_SCHEMA = 4"

definition NUMERIC_FIELDS :: "string list" where
  "NUMERIC_FIELDS = [''qty'', ''price'', ''broker_remaining_quantity'', ''broker_market_cap_price'']"

definition STRING_FIELDS :: "string list" where
  "STRING_FIELDS =
     [''event'', ''client_req_id'', ''instrument'', ''side'', ''status'', ''reason'', ''source'',
      ''trace_id'', ''req_id'', ''risk_code'', ''venue'', ''strategy'', ''account'', ''event_id'',
      ''execution_domain'', ''request_hash'', ''venue_correlation_id'', ''broker_callback_type'',
      ''broker_service_epoch'', ''broker_message'', ''broker_advanced_order_reject_json'',
      ''broker_why_held'', ''broker_execution_id'']"

definition INTEGER_FIELDS :: "string list" where
  "INTEGER_FIELDS = [''broker_connection_epoch'', ''broker_request_id'', ''broker_error_code'']"

definition line_error :: "nat \<Rightarrow> string \<Rightarrow> exn" where
  "line_error line msg = JournalError (''line '' @ str_of_nat line @ '': '' @ msg)"

definition require_integer :: "event \<Rightarrow> string \<Rightarrow> nat \<Rightarrow> int res" where
  "require_integer ev key line =
     (case dict_get ev key of
        Some (JInt i) \<Rightarrow> Inr i
      | _ \<Rightarrow> Inl (line_error line (key @ '' must be an integer'')))"

definition check_string_field :: "nat \<Rightarrow> event \<Rightarrow> string \<Rightarrow> unit res" where
  "check_string_field line ev key =
     guard_res (is_str (get_default ev key (JStr []))) (line_error line (key @ '' must be a string''))"

definition check_numeric_field :: "nat \<Rightarrow> event \<Rightarrow> string \<Rightarrow> unit res" where
  "check_numeric_field line ev key =
     (case get_default ev key (JFloat fl_zero) of
        JInt n \<Rightarrow> bind_res (float_of_int n) (\<lambda>x.
          guard_res (fl_isfinite x) (line_error line (key @ '' must be finite'')))
      | JFloat x \<Rightarrow> guard_res (fl_isfinite x) (line_error line (key @ '' must be finite''))
      | _ \<Rightarrow> Inl (line_error line (key @ '' must be numeric'')))"

definition check_integer_field :: "nat \<Rightarrow> event \<Rightarrow> string \<Rightarrow> unit res" where
  "check_integer_field line ev key =
     guard_res (is_int (get_default ev key (JInt 0))) (line_error line (key @ '' must be an integer''))"

definition check_all :: "('a \<Rightarrow> unit res) \<Rightarrow> 'a list \<Rightarrow> unit res" where
  "check_all f xs = fold_res (\<lambda>_. f) () xs"

definition validate_event :: "json \<Rightarrow> nat \<Rightarrow> event res" where
  "validate_event value line =
     (case value of
        JDict ev \<Rightarrow>
          (case get_default ev ''schema_version'' (JInt 1) of
             JInt schema \<Rightarrow>
               bind_res (guard_res (1 \<le> schema) (line_error line ''invalid schema_version'')) (\<lambda>_.
               bind_res (guard_res (schema \<le> CURRENT_SCHEMA)
                 (line_error line (''schema_version '' @ str_of_int schema @
                   '' is newer than supported '' @ str_of_int CURRENT_SCHEMA))) (\<lambda>_.
               bind_res (guard_res (str_field ev ''event'' \<noteq> [])
                 (line_error line ''event must be a non-empty string'')) (\<lambda>_.
               bind_res (require_integer ev ''ts_ms'' line) (\<lambda>_.
               bind_res (guard_res (is_int (get_default ev ''order_id'' (JInt (- 1))))
                 (line_error line ''order_id must be an integer'')) (\<lambda>_.
               bind_res (check_all (check_string_field line ev) STRING_FIELDS) (\<lambda>_.
               bind_res (check_all (check_numeric_field line ev) NUMERIC_FIELDS) (\<lambda>_.
               bind_res (check_all (check_integer_field line ev) INTEGER_FIELDS) (\<lambda>_.
               bind_res (guard_res (0 \<le> int_field ev ''broker_connection_epoch'' 0)
                 (line_error line ''broker_connection_epoch must be non-negative'')) (\<lambda>_.
               Inr (dict_set ''_line'' (JInt (int line)) ev))))))))))
           | _ \<Rightarrow> Inl (line_error line ''invalid schema_version''))
      | _ \<Rightarrow> Inl (line_error line ''record must be a JSON object''))"

text \<open>What a validated record guarantees to its readers.\<close>

definition valid_event :: "event \<Rightarrow> bool" where
  "valid_event ev \<longleftrightarrow>
     (\<forall>k \<in> set STRING_FIELDS. is_str (get_default ev k (JStr []))) \<and>
     str_field ev ''event'' \<noteq> [] \<and>
     (\<exists>i. dict_get ev ''ts_ms'' = Some (JInt i)) \<and>
     is_int (get_default ev ''order_id'' (JInt (- 1))) \<and>
     (\<forall>k \<in> set INTEGER_FIELDS. is_int (get_default ev k (JInt 0))) \<and>
     (\<forall>k \<in> set NUMERIC_FIELDS. \<exists>x. to_float (get_default ev k (JFloat fl_zero)) = Inr x \<and> fl_isfinite x) \<and>
     0 \<le> int_field ev ''broker_connection_epoch'' 0"

lemma check_all_iff: "check_all f xs = Inr u \<longleftrightarrow> (\<forall>x \<in> set xs. f x = Inr ())"
  unfolding check_all_def by (induction xs) (auto simp: bind_res_Inr_iff)

lemma check_numeric_field_iff:
  "check_numeric_field line ev k = Inr u \<longleftrightarrow>
     (\<exists>x. to_float (get_default ev k (JFloat fl_zero)) = Inr x \<and> fl_isfinite x)"
  by (cases "get_default ev k (JFloat fl_zero)")
    (auto simp: check_numeric_field_def bind_res_Inr_iff)

lemma validate_event_valid:
  assumes "validate_event v line = Inr ev"
  obtains d where "v = JDict d" "ev = dict_set ''_line'' (JInt (int line)) d" "valid_event d"
proof -
  from assms obtain d where v: "v = JDict d"
    by (auto simp: validate_event_def split: json.splits)
  with assms have "ev = dict_set ''_line'' (JInt (int line)) d" "valid_event d"
    by (auto simp: validate_event_def valid_event_def bind_res_Inr_iff check_all_iff
        check_string_field_def check_numeric_field_iff check_integer_field_def require_integer_def
        split: json.splits option.splits)
  with v show thesis by (rule that)
qed

subsection \<open>The bounded reader\<close>

definition DEFAULT_MAX_BYTES :: nat where "DEFAULT_MAX_BYTES = 64 * 1024 * 1024"
definition DEFAULT_MAX_RECORDS :: nat where "DEFAULT_MAX_RECORDS = 65536"
definition DEFAULT_MAX_RECORD_BYTES :: nat where "DEFAULT_MAX_RECORD_BYTES = 256 * 1024"

text \<open>\<open>unique_object\<close>: a repeated key is an error. The message of the source also quotes the
  key; messages are not modelled beyond their fixed part.\<close>

fun unique_object_from :: "dict \<Rightarrow> dict \<Rightarrow> json res" where
  "unique_object_from result [] = Inr (JDict result)"
| "unique_object_from result ((k, v) # ps) =
     (if dict_get result k \<noteq> None then Inl (JournalError ''duplicate key'')
      else unique_object_from (dict_set k v result) ps)"

definition unique_object :: "dict \<Rightarrow> json res" where
  "unique_object pairs = unique_object_from [] pairs"

definition reject_constant :: "string \<Rightarrow> json res" where
  "reject_constant value = Inl (JournalError (''non-finite JSON constant '' @ value))"

definition journal_hooks :: hooks where
  "journal_hooks = \<lparr>pairs_hook = unique_object, constant_hook = reject_constant, float_hook = (\<lambda>_ x. Inr (JFloat x))\<rparr>"

text \<open>\<open>except (JSONDecodeError, UnicodeError, RecursionError)\<close>: the errors of the decoder;
  a \<open>JournalError\<close> of a hook and the \<open>ValueError\<close> of an oversized integer pass through.\<close>

fun decode_failure :: "exn \<Rightarrow> bool" where
  "decode_failure JSONDecodeError = True"
| "decode_failure UnicodeError = True"
| "decode_failure RecursionError = True"
| "decode_failure _ = False"

definition catch_res :: "(exn \<Rightarrow> bool) \<Rightarrow> 'a res \<Rightarrow> exn \<Rightarrow> 'a res" where
  "catch_res p m e = (case m of Inl x \<Rightarrow> if p x then Inl e else Inl x | Inr v \<Rightarrow> Inr v)"

record budgets =
  bytes_budget :: nat
  records_budget :: nat
  record_bytes_budget :: nat

definition default_budgets :: budgets where
  "default_budgets =
     \<lparr>bytes_budget = DEFAULT_MAX_BYTES, records_budget = DEFAULT_MAX_RECORDS,
      record_bytes_budget = DEFAULT_MAX_RECORD_BYTES\<rparr>"

text \<open>What the generator has produced: the yielded pairs of raw line and event, and the counters
  \<open>records\<close> and \<open>largest_record_bytes\<close> of the metrics.\<close>

record reader =
  rd_yielded :: "(string \<times> event) list"
  rd_records :: nat
  rd_largest :: nat

definition init_reader :: reader where
  "init_reader = \<lparr>rd_yielded = [], rd_records = 0, rd_largest = 0\<rparr>"

definition emit_record :: "budgets \<Rightarrow> reader \<Rightarrow> string \<Rightarrow> reader res" where
  "emit_record b rd raw =
     (let number = Suc (rd_records rd) in
      bind_res (guard_res (number \<le> records_budget b) (JournalError ''OMS_REPLAY_RECORD_COUNT_LIMIT'')) (\<lambda>_.
      bind_res (guard_res (raw \<noteq> []) (line_error number ''empty record'')) (\<lambda>_.
      bind_res (catch_res decode_failure (loads journal_hooks raw) (line_error number ''invalid JSON'')) (\<lambda>value.
      bind_res (validate_event value number) (\<lambda>ev.
      Inr \<lparr>rd_yielded = rd_yielded rd @ [(raw @ [LF], ev)], rd_records = number,
           rd_largest = max (rd_largest rd) (length raw)\<rparr>)))))"

definition budgets_ok :: "budgets \<Rightarrow> unit res" where
  "budgets_ok b =
     bind_res (guard_res (1 \<le> bytes_budget b \<and> bytes_budget b \<le> 1024 ^ 3) (JournalError ''invalid bytes budget'')) (\<lambda>_.
     bind_res (guard_res (1 \<le> records_budget b \<and> records_budget b \<le> 1000000) (JournalError ''invalid records budget'')) (\<lambda>_.
     guard_res (1 \<le> record_bytes_budget b \<and> record_bytes_budget b \<le> 1024 ^ 2)
       (JournalError ''invalid record bytes budget'')))"

text \<open>\<open>raise JournalError(str(error)) from error\<close> for an archive error.\<close>

fun archive_to_journal :: "exn \<Rightarrow> exn" where
  "archive_to_journal (ArchiveError m) = JournalError m"
| "archive_to_journal e = e"

text \<open>
  The generator run to its end: the reader state and the error it raised. The chunks of the
  decoder are consumed one by one; an error of the decoder arrives after the chunks yielded
  before it, and before the check for a torn record.
\<close>

definition validated_raw_records ::
  "'d zlib \<Rightarrow> string \<Rightarrow> nat \<Rightarrow> budgets \<Rightarrow> reader \<times> exn option"
where
  "validated_raw_records z data sz b =
     (case budgets_ok b of
        Inl e \<Rightarrow> (init_reader, Some e)
      | Inr _ \<Rightarrow>
          let (chunks, err) = decoded_chunks z data sz (bytes_budget b) in
          case frame_chunks (emit_record b) (record_bytes_budget b) (JournalError ''OMS_REPLAY_RECORD_BYTE_LIMIT'')
              [] init_reader chunks of
            (pending, rd, Some e) \<Rightarrow> (rd, Some e)
          | (pending, rd, None) \<Rightarrow>
              (rd, case err of
                     Some e \<Rightarrow> Some (archive_to_journal e)
                   | None \<Rightarrow> if pending = [] then None else Some (JournalError ''OMS_REPLAY_TORN_RECORD'')))"

text \<open>\<open>read_records\<close> compares device, inode, size and times only.\<close>

definition replay_identity :: "stat \<Rightarrow> nat \<times> nat \<times> nat \<times> int \<times> int" where
  "replay_identity i = (st_dev i, st_ino i, st_size i, st_mtime_ns i, st_ctime_ns i)"

record metrics =
  m_records :: nat
  m_largest_record_bytes :: nat
  m_warning_at_80_percent :: bool

fun safe_read_error :: "exn \<Rightarrow> exn" where
  "safe_read_error (OSError m) = JournalError ''cannot safely read journal''"
| "safe_read_error (OverflowError m) = JournalError ''cannot safely read journal''"
| "safe_read_error e = e"

definition decoded_bytes :: "'d zlib \<Rightarrow> string \<Rightarrow> nat \<Rightarrow> budgets \<Rightarrow> nat" where
  "decoded_bytes z data sz b = length (concat (fst (decoded_chunks z data sz (bytes_budget b))))"

definition read_records ::
  "'d zlib \<Rightarrow> observation res \<Rightarrow> budgets \<Rightarrow> (event list \<times> metrics) res"
where
  "read_records z opened b =
     (case opened of
        Inl e \<Rightarrow> Inl (safe_read_error e)
      | Inr ob \<Rightarrow>
          bind_res (guard_res (S_ISREG (st_mode (ob_before ob)))
            (JournalError ''journal must be a regular non-symlink file'')) (\<lambda>_.
          case validated_raw_records z (ob_data ob) (st_size (ob_before ob)) b of
            (rd, Some e) \<Rightarrow> Inl (safe_read_error e)
          | (rd, None) \<Rightarrow>
              bind_res (guard_res
                (replay_identity (ob_before ob) = replay_identity (ob_after ob) \<and>
                 replay_identity (ob_after ob) = replay_identity (ob_named ob))
                (JournalError ''OMS_REPLAY_SNAPSHOT_CHANGED'')) (\<lambda>_.
              bind_res (guard_res (rd_records rd \<noteq> 0) (JournalError ''journal contains no events'')) (\<lambda>_.
              Inr (map snd (rd_yielded rd),
                \<lparr>m_records = rd_records rd, m_largest_record_bytes = rd_largest rd,
                 m_warning_at_80_percent =
                   (bytes_budget b * 4 \<le> decoded_bytes z (ob_data ob) (st_size (ob_before ob)) b * 5 \<or>
                    records_budget b * 4 \<le> rd_records rd * 5 \<or>
                    record_bytes_budget b * 4 \<le> rd_largest rd * 5)\<rparr>)))))"

definition load_events :: "'d zlib \<Rightarrow> observation res \<Rightarrow> budgets \<Rightarrow> event list res" where
  "load_events z opened b = bind_res (read_records z opened b) (\<lambda>(evs, m). Inr evs)"

subsection \<open>What a complete read guarantees\<close>

lemma emit_record_Inr_iff:
  "emit_record b rd raw = Inr rd' \<longleftrightarrow>
     (\<exists>v ev. rd_records rd < records_budget b \<and> raw \<noteq> [] \<and> loads journal_hooks raw = Inr v \<and>
        validate_event v (Suc (rd_records rd)) = Inr ev \<and>
        rd' = \<lparr>rd_yielded = rd_yielded rd @ [(raw @ [LF], ev)], rd_records = Suc (rd_records rd),
               rd_largest = max (rd_largest rd) (length raw)\<rparr>)"
  by (auto simp: emit_record_def bind_res_Inr_iff catch_res_def Let_def Suc_le_eq
      split: sum.splits if_splits)

text \<open>The yielded record of a raw line at a position.\<close>

definition yields :: "nat \<Rightarrow> string \<Rightarrow> string \<times> event \<Rightarrow> bool" where
  "yields line raw p \<longleftrightarrow> raw \<noteq> [] \<and> fst p = raw @ [LF] \<and>
     (\<exists>v. loads journal_hooks raw = Inr v \<and> validate_event v line = Inr (snd p))"

lemma emit_records_yielded:
  assumes "fold_res (emit_record b) rd ls = Inr rd'"
  shows "\<exists>ys. rd_yielded rd' = rd_yielded rd @ ys \<and> length ys = length ls \<and>
      (\<forall>i < length ls. yields (Suc (rd_records rd + i)) (ls ! i) (ys ! i)) \<and>
      rd_records rd' = rd_records rd + length ls \<and>
      (ls \<noteq> [] \<longrightarrow> rd_records rd' \<le> records_budget b) \<and>
      rd_largest rd' = Max (insert (rd_largest rd) (length ` set ls))"
  using assms
proof (induction ls arbitrary: rd)
  case (Cons l ls)
  then obtain rd1 where rd1: "emit_record b rd l = Inr rd1" "fold_res (emit_record b) rd1 ls = Inr rd'"
    by (auto simp: bind_res_Inr_iff)
  from rd1(1) obtain v ev where ev: "rd_records rd < records_budget b" "l \<noteq> []"
      "loads journal_hooks l = Inr v" "validate_event v (Suc (rd_records rd)) = Inr ev"
    and r1: "rd_yielded rd1 = rd_yielded rd @ [(l @ [LF], ev)]" "rd_records rd1 = Suc (rd_records rd)"
      "rd_largest rd1 = max (rd_largest rd) (length l)"
    by (auto simp: emit_record_Inr_iff)
  from Cons.IH [OF rd1(2)] obtain ys where ys: "rd_yielded rd' = rd_yielded rd1 @ ys"
      "length ys = length ls" "\<forall>i < length ls. yields (Suc (rd_records rd1 + i)) (ls ! i) (ys ! i)"
      "rd_records rd' = rd_records rd1 + length ls" "ls \<noteq> [] \<longrightarrow> rd_records rd' \<le> records_budget b"
      "rd_largest rd' = Max (insert (rd_largest rd1) (length ` set ls))" by blast
  have "\<forall>i < length (l # ls). yields (Suc (rd_records rd + i)) ((l # ls) ! i) (((l @ [LF], ev) # ys) ! i)"
    using ys(3) ev r1(2) by (auto simp: less_Suc_eq_0_disj yields_def)
  moreover have "rd_largest rd' = Max (insert (rd_largest rd) (length ` set (l # ls)))"
    using ys(6) r1(3) by (cases "ls = []") (auto simp: max.assoc)
  ultimately show ?case
    using ys r1 ev by (intro exI [of _ "(l @ [LF], ev) # ys"]) (cases ls, auto)
qed simp

lemma validated_raw_records_None:
  assumes "validated_raw_records z data sz b = (rd, None)"
  shows "frame_file (emit_record b) (record_bytes_budget b) (JournalError ''OMS_REPLAY_RECORD_BYTE_LIMIT'')
      (JournalError ''OMS_REPLAY_TORN_RECORD'') init_reader (fst (decoded_chunks z data sz (bytes_budget b))) =
      (rd, None) \<and> snd (decoded_chunks z data sz (bytes_budget b)) = None"
  using assms
  by (auto simp: validated_raw_records_def frame_file_def split: sum.splits prod.splits option.splits if_splits)

text \<open>C6. A journal that \<open>validated_raw_records\<close> accepts is reproduced byte for byte: the raw
  records it yields concatenate to the decoded content, which fits the byte budget; there are
  at most as many records as the budget allows; every record is within the record budget,
  non-empty, parses strictly and is the validated form of the line at its position. This holds
  for every behaviour of the decompressor.\<close>

theorem validated_raw_records_sound:
  assumes "validated_raw_records z data sz b = (rd, None)"
  shows "\<exists>ls. concat (fst (decoded_chunks z data sz (bytes_budget b))) = unlines ls \<and>
    length (unlines ls) \<le> bytes_budget b \<and>
    concat (map fst (rd_yielded rd)) = unlines ls \<and>
    rd_records rd = length ls \<and> length (rd_yielded rd) = length ls \<and> length ls \<le> records_budget b \<and>
    (\<forall>i < length ls. length (ls ! i) \<le> record_bytes_budget b \<and> yields (Suc i) (ls ! i) (rd_yielded rd ! i))"
proof -
  let ?cs = "fst (decoded_chunks z data sz (bytes_budget b))"
  from validated_raw_records_None [OF assms] obtain ls where ls: "concat ?cs = unlines ls"
      "\<forall>l \<in> set ls. LF \<notin> set l \<and> length l \<le> record_bytes_budget b"
      "fold_res (emit_record b) init_reader ls = Inr rd"
    by (auto simp: frame_file_None_iff)
  have init: "rd_yielded init_reader = []" "rd_records init_reader = 0" by (simp_all add: init_reader_def)
  from emit_records_yielded [OF ls(3)] init
  have ys: "length (rd_yielded rd) = length ls" "rd_records rd = length ls"
      "\<forall>i < length ls. yields (Suc i) (ls ! i) (rd_yielded rd ! i)" "ls \<noteq> [] \<longrightarrow> length ls \<le> records_budget b"
    by auto
  then have "map fst (rd_yielded rd) = map (\<lambda>l. l @ [LF]) ls"
    by (intro nth_equalityI) (auto simp: yields_def)
  then have "concat (map fst (rd_yielded rd)) = unlines ls" by (simp add: unlines_def)
  moreover have "length (unlines ls) \<le> bytes_budget b"
    using decoded_chunks_budget [of z data sz "bytes_budget b"] ls(1) by simp
  moreover have "length ls \<le> records_budget b" using ys(4) by (cases ls) auto
  ultimately show ?thesis using ls ys by (intro exI [of _ ls]) auto
qed

lemma validated_raw_records_blocks:
  assumes "\<not> gzip_magic data" and "length data \<le> bytes_budget b" and "budgets_ok b = Inr ()"
  shows "validated_raw_records z data (length data) b =
    frame_file (emit_record b) (record_bytes_budget b) (JournalError ''OMS_REPLAY_RECORD_BYTE_LIMIT'')
      (JournalError ''OMS_REPLAY_TORN_RECORD'') init_reader (blocks CHUNK data)"
  using assms by (simp add: validated_raw_records_def decoded_chunks_plain frame_file_def
      split: prod.split option.split)

text \<open>C15. Reading a plain journal does not depend on where the 8192-byte reads cut it: the
  records yielded, the counters and the error are those of a reader that splits the whole
  file at newlines.\<close>

theorem validated_raw_records_plain:
  assumes "\<not> gzip_magic data" and "length data \<le> bytes_budget b" and "budgets_ok b = Inr ()"
  shows "validated_raw_records z data (length data) b =
    frame_lines (emit_record b) (record_bytes_budget b) (JournalError ''OMS_REPLAY_RECORD_BYTE_LIMIT'')
      (JournalError ''OMS_REPLAY_TORN_RECORD'') init_reader (split_on LF data)"
  using validated_raw_records_blocks [OF assms] by (simp add: frame_file_reference concat_blocks)

text \<open>A journal of two records, read with the default budgets.\<close>

definition sample_line :: string where
  \<open>sample_line = ''{"event":"status","ts_ms":1,"order_id":7}''\<close>

definition sample_record :: event where
  "sample_record = [(''event'', JStr ''status''), (''ts_ms'', JInt 1), (''order_id'', JInt 7)]"

definition no_zlib :: "unit zlib" where
  "no_zlib = \<lparr>z_new = (), z_decompress = (\<lambda>d input n. None)\<rparr>"

lemma sample_line_loads: "loads journal_hooks sample_line = Inr (JDict sample_record)"
  by code_simp

lemma sample_line_valid:
  "validate_event (JDict sample_record) n = Inr (sample_record @ [(''_line'', JInt (int n))])"
  by (simp add: validate_event_def sample_record_def get_default_def str_field_def int_field_def
      require_integer_def check_all_def check_string_field_def check_integer_field_def
      check_numeric_field_def STRING_FIELDS_def INTEGER_FIELDS_def NUMERIC_FIELDS_def
      CURRENT_SCHEMA_def fl_zero_def)

lemma sample_line_plain:
  "sample_line \<noteq> []" "length sample_line = 41" "\<not> gzip_magic (sample_line @ s)" "LF \<notin> set sample_line"
  by (simp_all add: sample_line_def gzip_magic_def pread_def LF_def)

definition sample_journal :: string where
  "sample_journal = unlines [sample_line, sample_line]"

definition sample_reader :: reader where
  "sample_reader =
     \<lparr>rd_yielded = [(sample_line @ [LF], sample_record @ [(''_line'', JInt 1)]),
                    (sample_line @ [LF], sample_record @ [(''_line'', JInt 2)])],
      rd_records = 2, rd_largest = 41\<rparr>"

lemma default_budgets_ok: "budgets_ok default_budgets = Inr ()"
  by (simp add: budgets_ok_def default_budgets_def DEFAULT_MAX_BYTES_def DEFAULT_MAX_RECORDS_def
      DEFAULT_MAX_RECORD_BYTES_def)

lemma default_budgets_sel:
  "bytes_budget default_budgets = 67108864" "records_budget default_budgets = 65536"
  "record_bytes_budget default_budgets = 262144"
  by (simp_all add: default_budgets_def DEFAULT_MAX_BYTES_def DEFAULT_MAX_RECORDS_def
      DEFAULT_MAX_RECORD_BYTES_def)

lemma sample_journal_plain: "\<not> gzip_magic sample_journal" "length sample_journal = 84"
  using sample_line_plain by (simp_all add: sample_journal_def)

lemma sample_emit:
  "fold_res (emit_record default_budgets) init_reader [sample_line, sample_line] = Inr sample_reader"
  using sample_line_plain sample_line_loads sample_line_valid
  by (simp add: emit_record_def init_reader_def sample_reader_def default_budgets_sel catch_res_def Let_def)

lemma sample_lines_read:
  "frame_lines (emit_record default_budgets) (record_bytes_budget default_budgets) e_lim e_torn init_reader
     (split_on LF sample_journal) = (sample_reader, None)"
proof -
  have "split_on LF sample_journal = [sample_line, sample_line] @ [[]]"
    unfolding sample_journal_def by (rule split_on_unlines) (simp add: sample_line_plain)
  then show ?thesis
    by (simp only: frame_lines_None_iff sample_emit) (simp add: sample_line_plain default_budgets_sel)
qed

theorem validated_raw_records_plain_witness:
  "\<not> gzip_magic sample_journal \<and> length sample_journal \<le> bytes_budget default_budgets \<and>
   budgets_ok default_budgets = Inr () \<and>
   validated_raw_records no_zlib sample_journal (length sample_journal) default_budgets = (sample_reader, None)"
proof -
  have h: "length sample_journal \<le> bytes_budget default_budgets"
    by (simp add: sample_journal_plain default_budgets_sel)
  show ?thesis
    using validated_raw_records_plain [OF sample_journal_plain(1) h default_budgets_ok]
      sample_journal_plain h default_budgets_ok by (simp add: sample_lines_read)
qed

lemma sample_journal_read:
  "validated_raw_records no_zlib sample_journal (length sample_journal) default_budgets = (sample_reader, None)"
  using validated_raw_records_blocks [of sample_journal default_budgets no_zlib]
  by (simp add: sample_journal_plain default_budgets_ok default_budgets_sel frame_file_reference
      concat_blocks sample_lines_read [unfolded default_budgets_sel])

theorem validated_raw_records_sound_witness:
  "validated_raw_records no_zlib sample_journal (length sample_journal) default_budgets = (sample_reader, None) \<and>
   (\<exists>ls. concat (fst (decoded_chunks no_zlib sample_journal (length sample_journal) (bytes_budget default_budgets)))
       = unlines ls \<and> concat (map fst (rd_yielded sample_reader)) = unlines ls \<and>
       rd_records sample_reader = length ls)"
  using sample_journal_read validated_raw_records_sound [OF sample_journal_read] by blast

end
