(* ===== verification/Projection.thy ===== *)
theory Projection
  imports Journal
begin

section \<open>Hot-state projection of the journal\<close>

text \<open>
  Model of the projection in \<open>scripts/hepta_oms_checkpoint.py\<close>: the identity of a
  command (\<open>_key\<close>), its operation, status and index record (\<open>_operation\<close>,
  \<open>_status\<close>, \<open>_update_command\<close>), and \<open>_project_hot\<close>, which selects the events
  that must survive compaction: session fences, recovery-only owners, active order owners,
  account entry fences, the terminal fence, an unresolved projection failure and every
  event of an uncertain command.

  The events are journal records that passed \<open>validate_event\<close>, so every field read here
  is a string or an integer (\<open>str_field\<close>, \<open>int_field\<close>).
\<close>

subsection \<open>Command identity\<close>

type_synonym ckey = "string \<times> string \<times> string"
type_synonym owner = "string \<times> string"

definition starts_with :: "string \<Rightarrow> string \<Rightarrow> bool" where
  "starts_with p s \<longleftrightarrow> take (length p) s = p"

definition agent_of_source :: "string \<Rightarrow> string" where
  "agent_of_source source =
     (if starts_with ''agent.tool:'' source then drop (length ''agent.tool:'') source
      else if starts_with ''agent:'' source then drop (length ''agent:'') source
      else [])"

definition event_kind :: "event \<Rightarrow> string" where
  "event_kind ev = str_field ev ''event''"

definition command_id_of :: "event \<Rightarrow> string" where
  "command_id_of ev =
     or_str (str_field ev ''req_id'') (or_str (str_field ev ''client_req_id'') (str_field ev ''event_id''))"

definition key_of :: "event \<Rightarrow> ckey" where
  "key_of ev =
     (agent_of_source (str_field ev ''source''), str_field ev ''trace_id'', command_id_of ev)"

definition key_complete :: "ckey \<Rightarrow> bool" where
  "key_complete k = (case k of (a, s, c) \<Rightarrow> a \<noteq> [] \<and> s \<noteq> [] \<and> c \<noteq> [])"

subsection \<open>Operation and status\<close>

definition operation_of :: "event \<Rightarrow> string \<Rightarrow> string" where
  "operation_of ev prior =
     (let kind = event_kind ev in
      if starts_with ''flatten_'' kind \<or> kind = ''flatten_noop'' then ''flatten''
      else if starts_with ''cancel_'' kind \<or> kind = ''cancel'' then ''cancel''
      else if kind \<in> {''order_intent'', ''place_send_attempt'', ''place_sent'', ''place_activated'',
          ''place_outcome_uncertain'', ''execution_command_resolved'', ''reject''}
        then or_str prior ''place''
      else prior)"

definition status_of :: "event \<Rightarrow> string \<Rightarrow> string" where
  "status_of ev prior =
     (let kind = event_kind ev; state = str_field ev ''status'' in
      if kind \<in> {''order_intent'', ''flatten_intent'', ''place_send_attempt'', ''flatten_send_attempt'',
          ''place_outcome_uncertain'', ''flatten_outcome_uncertain''} then ''uncertain''
      else if kind \<in> {''reject'', ''flatten_reject''} then ''rejected''
      else if kind = ''cancel_send_attempt'' \<or>
          kind = ''cancel'' \<and> state \<in> {''intent_recorded'', ''cancel_pending''} then ''uncertain''
      else if kind = ''cancel'' \<and> state = ''cancel_sent'' then ''accepted''
      else if kind = ''place_sent'' \<and> state = ''activation_pending'' then ''uncertain''
      else if kind \<in> {''place_sent'', ''place_activated'', ''flatten_sent'', ''flatten_noop''}
        then ''accepted''
      else if kind \<in> {''execution_command_resolved'', ''cancel_command_resolved''}
        then (if state = ''accepted'' then ''accepted'' else ''rejected'')
      else if kind = ''execution_projection_failed'' then ''uncertain''
      else prior)"

definition durable_intent :: "event \<Rightarrow> bool" where
  "durable_intent ev \<longleftrightarrow>
     event_kind ev \<in> {''order_intent'', ''flatten_intent''} \<or>
     event_kind ev = ''cancel'' \<and> str_field ev ''status'' = ''intent_recorded''"

subsection \<open>Index records\<close>

record command =
  agent_id :: string
  session_id :: string
  command_id :: string
  request_hash :: string
  operation :: string
  status :: string
  order_id :: int
  reason :: string
  venue_correlation_id :: string
  last_sequence :: int
  account :: string
  execution_domain :: string
  durable_mutation_intent :: bool

type_synonym commands = "(ckey \<times> command) list"

definition new_command :: "ckey \<Rightarrow> command" where
  "new_command k =
     \<lparr>agent_id = fst k, session_id = fst (snd k), command_id = snd (snd k), request_hash = [],
      operation = [], status = ''unknown'', order_id = -1, reason = [], venue_correlation_id = [],
      last_sequence = 0, account = [], execution_domain = [], durable_mutation_intent = False\<rparr>"

text \<open>The update of one record by an event of its key.\<close>

definition apply_fields :: "command \<Rightarrow> event \<Rightarrow> command" where
  "apply_fields r ev =
     (let oid = int_field ev ''order_id'' (-1) in
      r\<lparr>request_hash := or_str (str_field ev ''request_hash'') (request_hash r),
        operation := operation_of ev (operation r),
        status := status_of ev (status r),
        order_id := (if 0 \<le> oid then oid else order_id r),
        reason := or_str (str_field ev ''risk_code'') (reason r),
        venue_correlation_id := or_str (str_field ev ''venue_correlation_id'') (venue_correlation_id r),
        account := or_str (str_field ev ''account'') (account r),
        execution_domain := or_str (str_field ev ''execution_domain'') (execution_domain r),
        durable_mutation_intent := durable_mutation_intent r \<or> durable_intent ev\<rparr>)"

definition apply_event :: "command \<Rightarrow> event \<Rightarrow> int \<Rightarrow> command res" where
  "apply_event r ev sequence =
     (let h = str_field ev ''request_hash'' in
      if request_hash r \<noteq> [] \<and> h \<noteq> [] \<and> request_hash r \<noteq> h
      then Inl (GenerationError ''OMS_GENERATION_COMMAND_HASH_CONFLICT'')
      else Inr ((apply_fields r ev)\<lparr>last_sequence := sequence\<rparr>))"

text \<open>\<open>commands.setdefault(key, {...})\<close>\<close>

definition current_command :: "commands \<Rightarrow> ckey \<Rightarrow> command" where
  "current_command cs k = (case map_of cs k of None \<Rightarrow> new_command k | Some r \<Rightarrow> r)"

definition update_command :: "commands \<Rightarrow> event \<Rightarrow> int \<Rightarrow> commands res" where
  "update_command cs ev sequence =
     (let k = key_of ev in
      if \<not> key_complete k then Inr cs
      else bind_res (apply_event (current_command cs k) ev sequence) (\<lambda>r. Inr (AList.update k r cs)))"

lemma update_commandE:
  assumes "update_command cs ev n = Inr cs'"
  obtains (skip) "\<not> key_complete (key_of ev)" "cs' = cs"
    | (upd) r where "key_complete (key_of ev)" "apply_event (current_command cs (key_of ev)) ev n = Inr r"
        "cs' = AList.update (key_of ev) r cs"
  using assms by (auto simp: update_command_def bind_res_Inr_iff Let_def split: if_splits)

subsection \<open>The projection loop\<close>

record owner_info =
  oi_agent_id :: string
  oi_session_id :: string
  oi_account :: string
  oi_execution_domain :: string
  oi_instrument :: string
  oi_side :: string

record attempt =
  sa_account :: string
  sa_execution_domain :: string
  sa_ts_ms :: int
  sa_agent_id :: string
  sa_session_id :: string
  sa_command_id :: string
  sa_sequence :: int

record hot_state =
  commands :: commands
  fenced :: "owner set"
  recovery_only :: "(owner \<times> string) list"
  active_owners :: "(int \<times> owner_info) list"
  active_owner_event :: "(int \<times> nat) list"
  fence_event :: "(owner \<times> nat) list"
  recovery_event :: "(owner \<times> nat) list"
  account_entry_fence_event :: "(string \<times> nat) list"
  terminal_fence_event :: "nat option"
  projection_failure_event :: "nat option"
  send_attempts :: "(ckey \<times> attempt) list"

definition init_hot :: hot_state where
  "init_hot =
     \<lparr>commands = [], fenced = {}, recovery_only = [], active_owners = [], active_owner_event = [],
      fence_event = [], recovery_event = [], account_entry_fence_event = [],
      terminal_fence_event = None, projection_failure_event = None, send_attempts = []\<rparr>"

definition owner_of :: "event \<Rightarrow> owner" where
  "owner_of ev = (agent_of_source (str_field ev ''source''), str_field ev ''trace_id'')"

definition owner_complete :: "owner \<Rightarrow> bool" where
  "owner_complete p \<longleftrightarrow> fst p \<noteq> [] \<and> snd p \<noteq> []"

text \<open>Session fences and recovery-only owners (\<open>if agent and session: ...\<close>).\<close>

definition step_session :: "nat \<Rightarrow> event \<Rightarrow> hot_state \<Rightarrow> hot_state" where
  "step_session i ev st =
     (let p = owner_of ev; kind = event_kind ev in
      if \<not> owner_complete p then st
      else if kind = ''session_owner_fenced'' then
        st\<lparr>fenced := insert p (fenced st), fence_event := AList.update p i (fence_event st)\<rparr>
      else if kind = ''session_owner_fence_release'' then
        st\<lparr>fenced := fenced st - {p}, fence_event := AList.delete p (fence_event st)\<rparr>
      else if kind = ''session_owner_recovery_only'' then
        st\<lparr>recovery_only := AList.update p (str_field ev ''status'') (recovery_only st),
           recovery_event := AList.update p i (recovery_event st)\<rparr>
      else st)"

definition step_account_fence :: "nat \<Rightarrow> event \<Rightarrow> hot_state \<Rightarrow> hot_state res" where
  "step_account_fence i ev st =
     (if event_kind ev = ''account_new_entry_fenced'' then
        let acc = str_field ev ''account'' in
        if acc = [] then Inl (GenerationError ''OMS_ACCOUNT_NEW_ENTRY_FENCE_ACCOUNT_INVALID'')
        else Inr (case map_of (account_entry_fence_event st) acc of
               None \<Rightarrow> st\<lparr>account_entry_fence_event := AList.update acc i (account_entry_fence_event st)\<rparr>
             | Some _ \<Rightarrow> st)
      else Inr st)"

definition owner_info_of :: "event \<Rightarrow> owner_info" where
  "owner_info_of ev =
     \<lparr>oi_agent_id = agent_of_source (str_field ev ''source''), oi_session_id = str_field ev ''trace_id'',
      oi_account = str_field ev ''account'', oi_execution_domain = str_field ev ''execution_domain'',
      oi_instrument = str_field ev ''instrument'', oi_side = str_field ev ''side''\<rparr>"

definition step_owners :: "nat \<Rightarrow> event \<Rightarrow> hot_state \<Rightarrow> hot_state" where
  "step_owners i ev st =
     (let kind = event_kind ev; oid = int_field ev ''order_id'' (-1) in
      if kind \<in> {''place_sent'', ''place_activated'', ''flatten_sent''} \<and> 0 \<le> oid \<and>
          agent_of_source (str_field ev ''source'') \<noteq> [] then
        st\<lparr>active_owners := AList.update oid (owner_info_of ev) (active_owners st),
           active_owner_event := AList.update oid i (active_owner_event st)\<rparr>
      else if kind = ''order_owner_reconciled_terminal'' \<and> 0 \<le> oid then
        st\<lparr>active_owners := AList.delete oid (active_owners st),
           active_owner_event := AList.delete oid (active_owner_event st)\<rparr>
      else st)"

definition step_markers :: "nat \<Rightarrow> event \<Rightarrow> hot_state \<Rightarrow> hot_state" where
  "step_markers i ev st =
     (let kind = event_kind ev in
      if kind = ''paper_terminal_fence'' then st\<lparr>terminal_fence_event := Some i\<rparr>
      else if kind = ''execution_projection_failed'' then st\<lparr>projection_failure_event := Some i\<rparr>
      else if kind = ''execution_projection_resolved'' then st\<lparr>projection_failure_event := None\<rparr>
      else st)"

definition step_attempt :: "nat \<Rightarrow> event \<Rightarrow> hot_state \<Rightarrow> hot_state" where
  "step_attempt i ev st =
     (let k = key_of ev in
      if key_complete k \<and> map_of (send_attempts st) k = None \<and>
          event_kind ev \<in> {''place_send_attempt'', ''place_sent'', ''flatten_send_attempt'', ''flatten_sent''}
      then st\<lparr>send_attempts := AList.update k
          \<lparr>sa_account = str_field ev ''account'', sa_execution_domain = str_field ev ''execution_domain'',
           sa_ts_ms = int_field ev ''ts_ms'' 0, sa_agent_id = fst k, sa_session_id = fst (snd k),
           sa_command_id = snd (snd k), sa_sequence = int (Suc i)\<rparr> (send_attempts st)\<rparr>
      else st)"

text \<open>One iteration of the loop over \<open>enumerate(events, 1)\<close>; \<open>i\<close> is
  \<open>sequence - 1\<close>.\<close>

definition hot_step :: "hot_state \<Rightarrow> nat \<times> event \<Rightarrow> hot_state res" where
  "hot_step st ie =
     (case ie of (i, ev) \<Rightarrow>
        bind_res (step_account_fence i ev (step_session i ev st)) (\<lambda>st1.
        let st2 = step_attempt i ev (step_markers i ev (step_owners i ev st1)) in
        bind_res (update_command (commands st2) ev (int (Suc i))) (\<lambda>cs.
        Inr (st2\<lparr>commands := cs\<rparr>))))"

definition hot_scan :: "event list \<Rightarrow> hot_state res" where
  "hot_scan events = fold_res hot_step init_hot (enumerate 0 events)"

subsection \<open>Selection and checkpoint\<close>

definition record_key :: "command \<Rightarrow> ckey" where
  "record_key r = (agent_id r, session_id r, command_id r)"

definition hot_commands :: "hot_state \<Rightarrow> command list" where
  "hot_commands st =
     sort_key record_key (filter (\<lambda>r. status r = ''uncertain'') (map snd (commands st)))"

definition selected_events :: "hot_state \<Rightarrow> event list \<Rightarrow> nat set" where
  "selected_events st events =
     (let uncertain_keys = record_key ` set (hot_commands st) in
      set (map snd (active_owner_event st)) \<union> set (map snd (fence_event st)) \<union>
      set (map snd (recovery_event st)) \<union> set (map snd (account_entry_fence_event st)) \<union>
      set_option (terminal_fence_event st) \<union> set_option (projection_failure_event st) \<union>
      {i \<in> {0..<length events}. key_of (events ! i) \<in> uncertain_keys})"

definition hot_replay :: "hot_state \<Rightarrow> event list \<Rightarrow> event list" where
  "hot_replay st events = map ((!) events) (sorted_list_of_set (selected_events st events))"

text \<open>\<open>_hex\<close>: UTF-8 encoding raises on a lone surrogate.\<close>

definition py_hex :: "string \<Rightarrow> string res" where
  "py_hex s = (if utf8_ok s then Inr (hex_of s) else Inl UnicodeError)"

type_synonym attempt_key = "string \<times> string \<times> int \<times> int \<times> string \<times> string \<times> string"

definition attempt_sort_key :: "attempt \<Rightarrow> attempt_key res" where
  "attempt_sort_key a =
     bind_res (py_hex (sa_account a)) (\<lambda>ac. bind_res (py_hex (sa_execution_domain a)) (\<lambda>dm.
     bind_res (py_hex (sa_agent_id a)) (\<lambda>ag. bind_res (py_hex (sa_session_id a)) (\<lambda>se.
     bind_res (py_hex (sa_command_id a)) (\<lambda>co.
     Inr (ac, dm, sa_ts_ms a, sa_sequence a, ag, se, co))))))"

definition sorted_attempts :: "hot_state \<Rightarrow> attempt list res" where
  "sorted_attempts st =
     bind_res (map_res (\<lambda>a. bind_res (attempt_sort_key a) (\<lambda>k. Inr (k, a))) (map snd (send_attempts st)))
       (\<lambda>keyed. Inr (map snd (sort_key fst keyed)))"

definition command_json :: "command \<Rightarrow> json" where
  "command_json r = JDict
     [(''agent_id'', JStr (agent_id r)), (''session_id'', JStr (session_id r)),
      (''command_id'', JStr (command_id r)), (''request_hash'', JStr (request_hash r)),
      (''operation'', JStr (operation r)), (''status'', JStr (status r)),
      (''order_id'', JInt (order_id r)), (''reason'', JStr (reason r)),
      (''venue_correlation_id'', JStr (venue_correlation_id r)),
      (''last_sequence'', JInt (last_sequence r)), (''account'', JStr (account r)),
      (''execution_domain'', JStr (execution_domain r)),
      (''durable_mutation_intent'', JBool (durable_mutation_intent r))]"

definition owner_info_json :: "int \<times> owner_info \<Rightarrow> json" where
  "owner_info_json p = (case p of (oid, v) \<Rightarrow> JDict
     [(''order_id'', JInt oid), (''agent_id'', JStr (oi_agent_id v)),
      (''session_id'', JStr (oi_session_id v)), (''account'', JStr (oi_account v)),
      (''execution_domain'', JStr (oi_execution_domain v)),
      (''instrument'', JStr (oi_instrument v)), (''side'', JStr (oi_side v))])"

definition CHECKPOINT_SCHEMA :: string where
  "CHECKPOINT_SCHEMA = ''heptatrader.oms-hot-checkpoint.v1''"

definition checkpoint_of :: "hot_state \<Rightarrow> event list \<Rightarrow> attempt list \<Rightarrow> dict" where
  "checkpoint_of st events attempts =
     [(''schema'', JStr CHECKPOINT_SCHEMA),
      (''last_sequence'', JInt (int (length events))),
      (''hot_commands'', JList (map command_json (hot_commands st))),
      (''active_order_owners'', JList (map owner_info_json (sort_key fst (active_owners st)))),
      (''fenced_owners'', JList (map (\<lambda>(a, s). JDict [(''agent_id'', JStr a), (''session_id'', JStr s)])
         (sorted_list_of_set (fenced st)))),
      (''recovery_only_owners'', JList (map (\<lambda>((a, s), fence).
         JDict [(''agent_id'', JStr a), (''session_id'', JStr s), (''fence'', JStr fence)])
         (sort_key fst (recovery_only st)))),
      (''hot_replay_records'', JInt (int (length (hot_replay st events)))),
      (''send_attempt_records'', JInt (int (length attempts))),
      (''paper_authorized'', JBool False),
      (''live_authorized'', JBool False)]"

record projection =
  pr_checkpoint :: dict
  pr_commands :: commands
  pr_hot_replay :: "event list"
  pr_attempts :: "attempt list"

definition project_hot :: "event list \<Rightarrow> projection res" where
  "project_hot events =
     bind_res (hot_scan events) (\<lambda>st.
     bind_res (sorted_attempts st) (\<lambda>attempts.
     Inr \<lparr>pr_checkpoint = checkpoint_of st events attempts, pr_commands = commands st,
          pr_hot_replay = hot_replay st events, pr_attempts = attempts\<rparr>))"

end
