(* ===== verification/Index_Codec.thy ===== *)
theory Index_Codec
  imports Projection
begin

section \<open>Text codecs of the generation files\<close>

text \<open>
  The tab-separated index lines and their readers (\<open>_index_line\<close>, \<open>_runtime_index_line\<close>,
  \<open>_send_attempt_line\<close>, \<open>_index_key\<close>, \<open>_runtime_index_key\<close> of
  \<open>hepta_oms_checkpoint.py\<close>; \<open>_runtime_row\<close>, \<open>_send_key\<close> of
  \<open>hepta_oms_lifecycle.py\<close>), and the active-tail sentinel (\<open>_tail_header\<close>,
  \<open>_parse_tail_header\<close>). The lemmas are the round trips, that the hexadecimal keys are
  ordered like the keys they encode, and that the legacy index line is the prefix of the
  runtime one.
\<close>

definition MAX_INDEX_LINE :: nat where "MAX_INDEX_LINE = 64 * 1024"

definition gen_error :: "string \<Rightarrow> 'a res" where
  "gen_error m = Inl (GenerationError m)"

definition encode_ascii :: "string \<Rightarrow> string res" where
  "encode_ascii s = (if ascii s then Inr s else Inl UnicodeError)"

text \<open>\<open>_unhex\<close>: a malformed byte string and malformed UTF-8 give the same error.\<close>

definition py_unhex :: "string \<Rightarrow> string res" where
  "py_unhex v =
     (case fromhex v of
        Some b \<Rightarrow> if utf8_ok b then Inr b else gen_error ''OMS_GENERATION_INDEX_ENCODING_INVALID''
      | None \<Rightarrow> gen_error ''OMS_GENERATION_INDEX_ENCODING_INVALID'')"

subsection \<open>Writing index lines\<close>

definition tsv_line :: "string list \<Rightarrow> string res" where
  "tsv_line fs = encode_ascii (join_with TAB fs @ [LF])"

definition index_fields :: "command \<Rightarrow> string list res" where
  "index_fields r =
     bind_res (map_res py_hex [agent_id r, session_id r, command_id r, request_hash r]) (\<lambda>k.
     bind_res (map_res py_hex [reason r, venue_correlation_id r]) (\<lambda>m.
     Inr (k @ [operation r, status r, str_of_int (order_id r)] @ m @ [str_of_int (last_sequence r)])))"

definition index_line :: "command \<Rightarrow> string res" where
  "index_line r = bind_res (index_fields r) tsv_line"

definition runtime_index_line :: "command \<Rightarrow> string res" where
  "runtime_index_line r =
     bind_res (index_fields r) (\<lambda>f.
     bind_res (map_res py_hex [account r, execution_domain r]) (\<lambda>g.
     tsv_line (f @ g @ [if durable_mutation_intent r then ''1'' else ''0''])))"

definition send_attempt_line :: "attempt \<Rightarrow> string res" where
  "send_attempt_line a =
     bind_res (map_res py_hex [sa_account a, sa_execution_domain a]) (\<lambda>f.
     bind_res (map_res py_hex [sa_agent_id a, sa_session_id a, sa_command_id a]) (\<lambda>g.
     tsv_line (f @ [str_of_int (sa_ts_ms a)] @ g @ [str_of_int (sa_sequence a)])))"

subsection \<open>Reading index lines\<close>

text \<open>\<open>line.rstrip(b"\n").decode("ascii").split("\t")\<close>\<close>

definition tsv_fields :: "string \<Rightarrow> string list res" where
  "tsv_fields line = bind_res (encode_ascii (rstrip_char LF line)) (\<lambda>s. Inr (split_on TAB s))"

definition index_key :: "string \<Rightarrow> ckey res" where
  "index_key line =
     (if MAX_INDEX_LINE < length line then gen_error ''OMS_GENERATION_INDEX_LINE_LIMIT''
      else bind_res (tsv_fields line) (\<lambda>parts.
        if length parts \<noteq> 10 then gen_error ''OMS_GENERATION_INDEX_RECORD_INVALID''
        else bind_res (py_unhex (parts ! 0)) (\<lambda>a. bind_res (py_unhex (parts ! 1)) (\<lambda>s.
          bind_res (py_unhex (parts ! 2)) (\<lambda>c. Inr (a, s, c))))))"

definition runtime_index_key :: "string \<Rightarrow> ckey res" where
  "runtime_index_key line =
     (if MAX_INDEX_LINE < length line then gen_error ''OMS_GENERATION_RUNTIME_INDEX_LINE_LIMIT''
      else bind_res (tsv_fields line) (\<lambda>parts.
        if length parts \<noteq> 13 \<or> parts ! 12 \<notin> {''0'', ''1''}
        then gen_error ''OMS_GENERATION_RUNTIME_INDEX_RECORD_INVALID''
        else Inr (parts ! 0, parts ! 1, parts ! 2)))"

definition parse_command :: "string list \<Rightarrow> command res" where
  "parse_command f =
     bind_res (map_res py_unhex [f ! 0, f ! 1, f ! 2, f ! 3, f ! 7, f ! 8, f ! 10, f ! 11]) (\<lambda>h.
     bind_res (int_of_str (f ! 6)) (\<lambda>oid. bind_res (int_of_str (f ! 9)) (\<lambda>ls.
     Inr \<lparr>agent_id = h ! 0, session_id = h ! 1, command_id = h ! 2, request_hash = h ! 3,
          operation = f ! 4, status = f ! 5, order_id = oid, reason = h ! 4,
          venue_correlation_id = h ! 5, last_sequence = ls, account = h ! 6,
          execution_domain = h ! 7, durable_mutation_intent = (f ! 12 = ''1'')\<rparr>)))"

text \<open>A row is a mutation with an outcome or inert metadata.\<close>

definition mutation_row :: "command \<Rightarrow> bool" where
  "mutation_row r \<longleftrightarrow>
     operation r \<in> {''place'', ''cancel'', ''flatten''} \<and> status r \<in> {''accepted'', ''rejected'', ''uncertain''}"

definition metadata_row :: "command \<Rightarrow> bool" where
  "metadata_row r \<longleftrightarrow> operation r = [] \<and> status r = ''unknown'' \<and> \<not> durable_mutation_intent r"

definition runtime_row :: "string \<Rightarrow> (ckey \<times> command \<times> string list) res" where
  "runtime_row line =
     (if MAX_INDEX_LINE < length line then gen_error ''OMS_GENERATION_RUNTIME_INDEX_LINE_LIMIT''
      else
        bind_res (reraise (tsv_fields line) (GenerationError ''OMS_GENERATION_RUNTIME_INDEX_RECORD_INVALID'')) (\<lambda>fs.
        if length fs \<noteq> 13 \<or> fs ! 12 \<notin> {''0'', ''1''}
        then gen_error ''OMS_GENERATION_RUNTIME_INDEX_RECORD_INVALID''
        else bind_res (reraise (parse_command fs)
                (GenerationError ''OMS_GENERATION_RUNTIME_INDEX_RECORD_INVALID'')) (\<lambda>r.
          if \<not> mutation_row r \<and> \<not> metadata_row r
          then gen_error ''OMS_GENERATION_RUNTIME_INDEX_RECORD_INVALID''
          else Inr ((fs ! 0, fs ! 1, fs ! 2), r, fs))))"

definition send_key :: "string \<Rightarrow> attempt_key res" where
  "send_key line =
     (if MAX_INDEX_LINE < length line then gen_error ''OMS_GENERATION_SEND_INDEX_INVALID''
      else reraise
        (bind_res (tsv_fields line) (\<lambda>f.
         if length f \<noteq> 7 then gen_error ''OMS_GENERATION_SEND_INDEX_INVALID''
         else bind_res (int_of_str (f ! 2)) (\<lambda>ts. bind_res (int_of_str (f ! 6)) (\<lambda>sq.
           bind_res (map_res py_unhex [f ! 0, f ! 1, f ! 3, f ! 4, f ! 5]) (\<lambda>_.
           Inr (f ! 0, f ! 1, ts, sq, f ! 3, f ! 4, f ! 5))))))
        (GenerationError ''OMS_GENERATION_SEND_INDEX_INVALID''))"

text \<open>The legacy line kept beside a runtime line: its first ten fields.\<close>

definition legacy_line :: "string \<Rightarrow> string" where
  "legacy_line encoded = join_with TAB (take 10 (split_on TAB (rstrip_char LF encoded))) @ [LF]"

subsection \<open>The active-tail sentinel\<close>

definition TAIL_HEADER :: string where "TAIL_HEADER = ''HEPTA_OMS_ACTIVE_TAIL_V1''"

definition generation_char :: "char \<Rightarrow> bool" where
  "generation_char c \<longleftrightarrow>
     c \<in> set ''abcdefghijklmnopqrstuvwxyzABCDEFGHIJKLMNOPQRSTUVWXYZ0123456789-_.''"

definition generation_name_ok :: "string \<Rightarrow> bool" where
  "generation_name_ok g \<longleftrightarrow> g \<noteq> [] \<and> list_all generation_char g"

definition tail_header :: "string \<Rightarrow> string res" where
  "tail_header g =
     (if generation_name_ok g then Inr (TAIL_HEADER @ TAB # g @ [LF])
      else gen_error ''OMS_GENERATION_NAME_INVALID'')"

text \<open>\<open>_parse_tail_header\<close> reads at most 512 bytes; \<open>None\<close> is a journal without sentinel.\<close>

definition parse_tail_header :: "string \<Rightarrow> nat \<Rightarrow> (string \<times> nat) option res" where
  "parse_tail_header data sz =
     (let raw = take (min sz 512) data in
      case partition_at LF raw of
        None \<Rightarrow> if 512 \<le> sz then gen_error ''OMS_ACTIVE_TAIL_HEADER_LIMIT'' else Inr None
      | Some (line, rest) \<Rightarrow>
          let prefix = TAIL_HEADER @ [TAB] in
          if \<not> starts_with prefix line then Inr None
          else
            let g = drop (length prefix) line in
            if \<not> ascii g then gen_error ''OMS_ACTIVE_TAIL_HEADER_INVALID''
            else bind_res (tail_header g) (\<lambda>expected.
              if take (length expected) raw \<noteq> expected then gen_error ''OMS_ACTIVE_TAIL_HEADER_INVALID''
              else Inr (Some (g, length expected))))"

subsection \<open>Round trips\<close>

lemma py_hex_ok [simp]: "utf8_ok s \<Longrightarrow> py_hex s = Inr (hex_of s)"
  by (simp add: py_hex_def)

lemma py_hex_Inr_iff: "py_hex s = Inr h \<longleftrightarrow> utf8_ok s \<and> h = hex_of s"
  by (auto simp: py_hex_def)

lemma py_unhex_hex [simp]: "utf8_ok s \<Longrightarrow> py_unhex (hex_of s) = Inr s"
  by (simp add: py_unhex_def)

text \<open>A field that survives joining and splitting.\<close>

definition tsv_field :: "string \<Rightarrow> bool" where
  "tsv_field f \<longleftrightarrow> ascii f \<and> TAB \<notin> set f \<and> LF \<notin> set f"

lemma tsv_field_hex [simp]: "tsv_field (hex_of s)"
  by (simp add: tsv_field_def hex_of_chars)

lemma tsv_field_int [simp]: "tsv_field (str_of_int i)"
  by (simp add: tsv_field_def str_of_int_chars)

lemma tsv_line_ok:
  assumes "\<forall>f \<in> set fs. tsv_field f"
  shows "tsv_line fs = Inr (join_with TAB fs @ [LF])"
proof -
  have "ascii (join_with TAB fs)"
    by (rule ascii_join_with) (use assms in \<open>auto simp: tsv_field_def TAB_def\<close>)
  then show ?thesis by (simp add: tsv_line_def encode_ascii_def LF_def)
qed

lemma tsv_fields_line:
  assumes "fs \<noteq> []" and "\<forall>f \<in> set fs. tsv_field f"
  shows "tsv_fields (join_with TAB fs @ [LF]) = Inr fs"
proof -
  have "LF \<notin> set (join_with TAB fs)"
    by (rule not_in_join_with) (use assms in \<open>auto simp: tsv_field_def TAB_def LF_def\<close>)
  moreover have "ascii (join_with TAB fs)"
    by (rule ascii_join_with) (use assms in \<open>auto simp: tsv_field_def TAB_def\<close>)
  moreover have "split_on TAB (join_with TAB fs) = fs"
    by (rule split_on_join) (use assms in \<open>auto simp: tsv_field_def\<close>)
  ultimately show ?thesis
    by (simp add: tsv_fields_def rstrip_char_no_sep encode_ascii_def)
qed

text \<open>The records the writers can encode and the readers accept.\<close>

definition text_ok :: "command \<Rightarrow> bool" where
  "text_ok r \<longleftrightarrow>
     utf8_ok (agent_id r) \<and> utf8_ok (session_id r) \<and> utf8_ok (command_id r) \<and> utf8_ok (request_hash r) \<and>
     utf8_ok (reason r) \<and> utf8_ok (venue_correlation_id r) \<and> utf8_ok (account r) \<and> utf8_ok (execution_domain r)"

definition encodable :: "command \<Rightarrow> bool" where
  "encodable r \<longleftrightarrow> text_ok r \<and> printable_int (order_id r) \<and> printable_int (last_sequence r) \<and>
     (mutation_row r \<or> metadata_row r)"

definition index_field_list :: "command \<Rightarrow> string list" where
  "index_field_list r =
     [hex_of (agent_id r), hex_of (session_id r), hex_of (command_id r), hex_of (request_hash r),
      operation r, status r, str_of_int (order_id r), hex_of (reason r), hex_of (venue_correlation_id r),
      str_of_int (last_sequence r)]"

definition runtime_field_list :: "command \<Rightarrow> string list" where
  "runtime_field_list r =
     index_field_list r @ [hex_of (account r), hex_of (execution_domain r),
       if durable_mutation_intent r then ''1'' else ''0'']"

lemma row_words: "mutation_row r \<or> metadata_row r \<Longrightarrow> tsv_field (operation r) \<and> tsv_field (status r)"
  by (auto simp: mutation_row_def metadata_row_def tsv_field_def TAB_def LF_def)

lemma runtime_fields_tsv: "encodable r \<Longrightarrow> \<forall>f \<in> set (runtime_field_list r). tsv_field f"
  using row_words [of r]
  by (auto simp: runtime_field_list_def index_field_list_def encodable_def)
    (simp_all add: tsv_field_def TAB_def LF_def)

lemma index_fields_ok: "text_ok r \<Longrightarrow> index_fields r = Inr (index_field_list r)"
  by (simp add: index_fields_def index_field_list_def text_ok_def)

lemma index_line_ok:
  assumes "encodable r"
  shows "index_line r = Inr (join_with TAB (index_field_list r) @ [LF])"
proof -
  have "\<forall>f \<in> set (index_field_list r). tsv_field f"
    using runtime_fields_tsv [OF assms] by (simp add: runtime_field_list_def)
  then show ?thesis using assms
    by (simp add: index_line_def index_fields_ok encodable_def tsv_line_ok)
qed

lemma runtime_index_line_ok:
  assumes "encodable r"
  shows "runtime_index_line r = Inr (join_with TAB (runtime_field_list r) @ [LF])"
proof -
  have "runtime_index_line r = tsv_line (runtime_field_list r)"
    using assms by (simp add: runtime_index_line_def index_fields_ok encodable_def text_ok_def
        runtime_field_list_def)
  then show ?thesis using tsv_line_ok [OF runtime_fields_tsv [OF assms]] by simp
qed

lemma parse_command_fields:
  assumes "encodable r"
  shows "parse_command (runtime_field_list r) = Inr r"
  using assms
  by (simp add: parse_command_def runtime_field_list_def index_field_list_def encodable_def text_ok_def
      int_of_str_of_int numeral_eq_Suc)

definition hex_key :: "ckey \<Rightarrow> ckey" where
  "hex_key k = (case k of (a, s, c) \<Rightarrow> (hex_of a, hex_of s, hex_of c))"

lemma hex_key_less [order_simps]: "hex_key j < hex_key k \<longleftrightarrow> j < k"
  by (cases j; cases k) (auto simp: hex_key_def less_prod_def' hex_of_inj order_simps)

lemma hex_key_inj: "hex_key j = hex_key k \<longleftrightarrow> j = k"
  by (cases j; cases k) (auto simp: hex_key_def hex_of_inj)

lemma runtime_row_line:
  assumes "encodable r" and "runtime_index_line r = Inr line" and "length line \<le> MAX_INDEX_LINE"
  shows "runtime_row line = Inr (hex_key (record_key r), r, runtime_field_list r)"
proof -
  have line: "line = join_with TAB (runtime_field_list r) @ [LF]"
    using assms(1,2) by (simp add: runtime_index_line_ok)
  have "tsv_fields line = Inr (runtime_field_list r)"
    unfolding line by (rule tsv_fields_line [OF _ runtime_fields_tsv [OF assms(1)]])
      (simp add: runtime_field_list_def index_field_list_def)
  moreover have "length (runtime_field_list r) = 13" "runtime_field_list r ! 12 \<in> {''0'', ''1''}"
    "(runtime_field_list r ! 0, runtime_field_list r ! 1, runtime_field_list r ! 2) = hex_key (record_key r)"
    by (simp_all add: runtime_field_list_def index_field_list_def hex_key_def record_key_def numeral_eq_Suc)
  ultimately show ?thesis using assms(1,3) parse_command_fields [OF assms(1)]
    by (auto simp: runtime_row_def encodable_def)
qed

lemma legacy_line_runtime:
  assumes "encodable r" and "runtime_index_line r = Inr line"
  shows "index_line r = Inr (legacy_line line)"
proof -
  have line: "line = join_with TAB (runtime_field_list r) @ [LF]"
    using assms by (simp add: runtime_index_line_ok)
  have fs: "\<forall>f \<in> set (runtime_field_list r). tsv_field f" by (rule runtime_fields_tsv [OF assms(1)])
  have "LF \<notin> set (join_with TAB (runtime_field_list r))"
    by (rule not_in_join_with) (use fs in \<open>auto simp: tsv_field_def TAB_def LF_def\<close>)
  moreover have "split_on TAB (join_with TAB (runtime_field_list r)) = runtime_field_list r"
    by (rule split_on_join) (use fs in \<open>auto simp: tsv_field_def runtime_field_list_def\<close>)
  moreover have "take 10 (runtime_field_list r) = index_field_list r"
    by (simp add: runtime_field_list_def index_field_list_def)
  ultimately show ?thesis
    by (simp add: legacy_line_def line rstrip_char_no_sep index_line_ok [OF assms(1)])
qed

lemma index_key_line:
  assumes "encodable r" and "index_line r = Inr line" and "length line \<le> MAX_INDEX_LINE"
  shows "index_key line = Inr (record_key r)"
proof -
  have line: "line = join_with TAB (index_field_list r) @ [LF]"
    using assms(1,2) by (simp add: index_line_ok)
  have "tsv_fields line = Inr (index_field_list r)"
    unfolding line by (rule tsv_fields_line)
      (use runtime_fields_tsv [OF assms(1)] in \<open>simp_all add: runtime_field_list_def index_field_list_def\<close>)
  then show ?thesis using assms(1,3)
    by (simp add: index_key_def index_field_list_def encodable_def text_ok_def record_key_def)
qed

definition attempt_ok :: "attempt \<Rightarrow> bool" where
  "attempt_ok a \<longleftrightarrow>
     utf8_ok (sa_account a) \<and> utf8_ok (sa_execution_domain a) \<and> utf8_ok (sa_agent_id a) \<and>
     utf8_ok (sa_session_id a) \<and> utf8_ok (sa_command_id a) \<and>
     printable_int (sa_ts_ms a) \<and> printable_int (sa_sequence a)"

definition attempt_fields :: "attempt \<Rightarrow> string list" where
  "attempt_fields a =
     [hex_of (sa_account a), hex_of (sa_execution_domain a), str_of_int (sa_ts_ms a), hex_of (sa_agent_id a),
      hex_of (sa_session_id a), hex_of (sa_command_id a), str_of_int (sa_sequence a)]"

lemma send_attempt_line_ok:
  "attempt_ok a \<Longrightarrow> send_attempt_line a = Inr (join_with TAB (attempt_fields a) @ [LF])"
  using tsv_line_ok [of "attempt_fields a"]
  by (simp add: send_attempt_line_def attempt_fields_def attempt_ok_def)

lemma send_key_line:
  assumes "attempt_ok a" and "send_attempt_line a = Inr line" and "length line \<le> MAX_INDEX_LINE"
  shows "send_key line = attempt_sort_key a"
proof -
  have "line = join_with TAB (attempt_fields a) @ [LF]"
    using assms(1,2) by (simp add: send_attempt_line_ok)
  then have "tsv_fields line = Inr (attempt_fields a)"
    using tsv_fields_line [of "attempt_fields a"] by (simp add: attempt_fields_def)
  then show ?thesis using assms(1,3)
    by (simp add: send_key_def attempt_fields_def attempt_ok_def int_of_str_of_int attempt_sort_key_def
        numeral_eq_Suc)
qed

lemma generation_name_chars:
  assumes "generation_name_ok g"
  shows "LF \<notin> set g" "ascii g"
proof -
  have "generation_char c \<Longrightarrow> c \<noteq> LF \<and> of_char c < (128::nat)" for c
    by (auto simp: generation_char_def LF_def)
  then show "LF \<notin> set g" "ascii g"
    using assms by (auto simp: generation_name_ok_def list_all_iff ascii_def)
qed

lemma TAIL_HEADER_chars: "LF \<notin> set TAIL_HEADER" "length TAIL_HEADER = 24"
  by (simp_all add: TAIL_HEADER_def LF_def)

lemma parse_tail_header_written:
  assumes "tail_header g = Inr marker" and "length marker \<le> 512"
  shows "parse_tail_header (marker @ tail) (length (marker @ tail)) = Inr (Some (g, length marker))"
proof -
  have g: "generation_name_ok g" and marker: "marker = (TAIL_HEADER @ TAB # g) @ LF # []"
    using assms(1) by (auto simp: tail_header_def gen_error_def split: if_splits)
  define line where "line = TAIL_HEADER @ TAB # g"
  have nl: "LF \<notin> set line"
    using generation_name_chars(1) [OF g] TAIL_HEADER_chars(1) by (simp add: line_def TAB_def LF_def)
  define n where "n = min (length (marker @ tail)) 512"
  have n: "length marker \<le> n" using assms(2) by (simp add: n_def)
  have raw: "take n (marker @ tail) = line @ LF # take (n - length marker) tail"
  proof -
    have "take n (marker @ tail) = marker @ take (n - length marker) tail" using n by simp
    then show ?thesis by (simp add: marker line_def)
  qed
  have "partition_at LF (take n (marker @ tail)) = Some (line, take (n - length marker) tail)"
    unfolding raw by (rule partition_at_append [OF nl])
  moreover have "starts_with (TAIL_HEADER @ [TAB]) line" "drop (length (TAIL_HEADER @ [TAB])) line = g"
    by (simp_all add: starts_with_def line_def)
  moreover have "take (length marker) (take n (marker @ tail)) = marker"
    using n by simp
  ultimately show ?thesis
    using assms(1) generation_name_chars(2) [OF g]
    unfolding parse_tail_header_def Let_def n_def [symmetric] by simp
qed

subsection \<open>Properties\<close>

text \<open>C8. Every record of the runtime command index that fits the line limit reads back as
  written: key, all thirteen fields and the record. The legacy line derived from it is the
  line the legacy writer gives, and its reader finds the key of the record.\<close>

theorem runtime_index_roundtrip:
  assumes "encodable r" and "runtime_index_line r = Inr line" and "length line \<le> MAX_INDEX_LINE"
  shows "runtime_row line = Inr (hex_key (record_key r), r, runtime_field_list r) \<and>
    index_line r = Inr (legacy_line line) \<and> index_key (legacy_line line) = Inr (record_key r)"
proof -
  have legacy: "index_line r = Inr (legacy_line line)" by (rule legacy_line_runtime [OF assms(1,2)])
  have "legacy_line line = join_with TAB (index_field_list r) @ [LF]"
    using legacy index_line_ok [OF assms(1)] by simp
  moreover have "line = join_with TAB (index_field_list r @
      [hex_of (account r), hex_of (execution_domain r), if durable_mutation_intent r then ''1'' else ''0'']) @ [LF]"
    using assms(1,2) by (simp add: runtime_index_line_ok runtime_field_list_def)
  ultimately have "length (legacy_line line) \<le> length line"
    by (simp add: index_field_list_def)
  then show ?thesis
    using runtime_row_line [OF assms] legacy index_key_line [OF assms(1) legacy] assms(3) by simp
qed

definition sample_command :: command where
  "sample_command =
     (new_command (''a'', ''s'', ''c''))\<lparr>operation := ''place'', status := ''uncertain'', order_id := 7,
        last_sequence := 3, durable_mutation_intent := True\<rparr>"

theorem runtime_index_roundtrip_witness:
  "encodable sample_command \<and>
   (\<exists>line. runtime_index_line sample_command = Inr line \<and> length line \<le> MAX_INDEX_LINE \<and>
     runtime_row line = Inr ((''61'', ''73'', ''63''), sample_command, runtime_field_list sample_command))"
proof -
  have enc: "encodable sample_command" by code_simp
  obtain line where line: "runtime_index_line sample_command = Inr line"
    using runtime_index_line_ok [OF enc] by blast
  have "case runtime_index_line sample_command of Inr l \<Rightarrow> length l = 36 | Inl _ \<Rightarrow> False" by code_simp
  then have len: "length line \<le> MAX_INDEX_LINE" using line by (simp add: MAX_INDEX_LINE_def)
  have "hex_key (record_key sample_command) = (''61'', ''73'', ''63'')" by code_simp
  then show ?thesis using runtime_index_roundtrip [OF enc line len] enc line len by auto
qed

text \<open>C14. The sentinel a seal writes at the start of the active journal is recognised when the
  journal is opened again, with any records after it: the reader returns the generation and
  the offset of the first record.\<close>

theorem tail_header_roundtrip:
  assumes "tail_header g = Inr marker" and "length marker \<le> 512"
  shows "parse_tail_header (marker @ tail) (length (marker @ tail)) = Inr (Some (g, length marker))"
  by (rule parse_tail_header_written [OF assms])

theorem tail_header_roundtrip_witness:
  "parse_tail_header ((TAIL_HEADER @ TAB # ''g-1'' @ [LF]) @ ''x'') 30 = Inr (Some (''g-1'', 29))"
proof -
  have m: "tail_header ''g-1'' = Inr (TAIL_HEADER @ TAB # ''g-1'' @ [LF])"
    by (simp add: tail_header_def generation_name_ok_def generation_char_def)
  have l: "length (TAIL_HEADER @ TAB # ''g-1'' @ [LF]) = 29" by (simp add: TAIL_HEADER_chars)
  show ?thesis using tail_header_roundtrip [OF m, of "''x''"] l by simp
qed

end
