(* ===== verification/Send_Index.thy ===== *)
theory Send_Index
  imports Index_Codec Framing Posix
begin

section \<open>The cumulative send-attempt index\<close>

text \<open>
  Model of the send index of \<open>hepta_oms_lifecycle.py\<close>: the line iterator
  (\<open>_iter_private_lines\<close>), the checked writer and the two-way merge
  (\<open>_write_private_lines\<close>, \<open>_merge_sorted_send_files\<close>), the external merge sort
  (\<open>_external_sort_send_index\<close>) and the merge of a sorted parent index with the new
  attempts (\<open>_write_merged_send_index\<close>).

  A file is its content; the temporary files of the sort are created private by the writer
  itself, so they are contents too, and their names are not modelled. An iterator is the list
  of the lines it yields and the error that ends it, so that a consumer meets the error after
  the lines, as \<open>next\<close> does.
\<close>

type_synonym line_gen = "string list \<times> exn option"

subsection \<open>The line iterator\<close>

definition BLOCK :: nat where "BLOCK = 1024 * 1024"

text \<open>The inner loop: yield the complete lines of the pending bytes.\<close>

function drain_lines :: "exn \<Rightarrow> string \<Rightarrow> string list \<Rightarrow> string list \<times> string \<times> exn option" where
  "drain_lines e_lim pending acc =
     (case partition_at LF pending of
        None \<Rightarrow> (acc, pending, None)
      | Some (l, rest) \<Rightarrow>
          if MAX_INDEX_LINE \<le> length l then (acc, pending, Some e_lim)
          else drain_lines e_lim rest (acc @ [l @ [LF]]))"
  by pat_completeness auto
termination
  by (relation "measure (\<lambda>(e, pending, acc). length pending)") (auto dest: partition_at_SomeD)

declare drain_lines.simps [simp del]

fun iter_blocks :: "exn \<Rightarrow> string \<Rightarrow> string list \<Rightarrow> string list \<Rightarrow> line_gen" where
  "iter_blocks e_lim pending acc [] =
     (acc, if pending = [] then None else Some (GenerationError ''OMS_GENERATION_INDEX_TORN_RECORD''))"
| "iter_blocks e_lim pending acc (b # bs) =
     (case drain_lines e_lim (pending @ b) acc of
        (acc', pending', Some e) \<Rightarrow> (acc', Some e)
      | (acc', pending', None) \<Rightarrow>
          if MAX_INDEX_LINE < length pending' then (acc', Some e_lim)
          else iter_blocks e_lim pending' acc' bs)"

definition iter_lines :: "exn \<Rightarrow> string \<Rightarrow> line_gen" where
  "iter_lines e_lim content = iter_blocks e_lim [] [] (blocks BLOCK content)"

definition iter_private_lines :: "nat \<Rightarrow> string \<Rightarrow> observation res \<Rightarrow> line_gen" where
  "iter_private_lines euid limit_error opened =
     (case opened of
        Inl e \<Rightarrow> ([], Some e)
      | Inr ob \<Rightarrow>
          if \<not> private_regular euid (ob_before ob)
          then ([], Some (GenerationError ''OMS_GENERATION_UNSAFE_INDEX''))
          else case iter_lines (GenerationError limit_error) (ob_data ob) of
            (ls, Some e) \<Rightarrow> (ls, Some e)
          | (ls, None) \<Rightarrow>
              (ls, if unchanged ob then None else Some (GenerationError ''OMS_GENERATION_INDEX_CHANGED'')))"

text \<open>\<open>next(it)\<close>; \<open>None\<close> is \<open>StopIteration\<close>.\<close>

definition next_row :: "line_gen \<Rightarrow> (string option \<times> line_gen) res" where
  "next_row g =
     (case g of
        (r # rs, e) \<Rightarrow> Inr (Some r, (rs, e))
      | ([], Some e) \<Rightarrow> Inl e
      | ([], None) \<Rightarrow> Inr (None, ([], None)))"

subsection \<open>Checked writing and merging\<close>

definition SEND_INVALID :: string where "SEND_INVALID = ''OMS_GENERATION_SEND_INDEX_INVALID''"

fun write_private_lines :: "attempt_key option \<Rightarrow> string list \<Rightarrow> string res" where
  "write_private_lines previous [] = Inr []"
| "write_private_lines previous (row # rows) =
     bind_res (send_key row) (\<lambda>key.
     bind_res (guard_res (case previous of None \<Rightarrow> True | Some p \<Rightarrow> p < key)
       (GenerationError ''OMS_GENERATION_SEND_INDEX_ORDER_INVALID'')) (\<lambda>_.
     bind_res (write_private_lines (Some key) rows) (\<lambda>out. Inr (row @ out))))"

definition opt_key :: "string option \<Rightarrow> attempt_key option res" where
  "opt_key row = (case row of None \<Rightarrow> Inr None | Some r \<Rightarrow> bind_res (send_key r) (\<lambda>k. Inr (Some k)))"

definition takes_left :: "'k::linorder option \<Rightarrow> 'k option \<Rightarrow> bool" where
  "takes_left lk rk =
     (case lk of None \<Rightarrow> False | Some l \<Rightarrow> (case rk of None \<Rightarrow> True | Some r \<Rightarrow> l < r))"

definition gen_size :: "string option \<Rightarrow> line_gen \<Rightarrow> nat" where
  "gen_size row g = (case row of None \<Rightarrow> 0 | Some _ \<Rightarrow> Suc (length (fst g)))"

lemma next_row_size: "next_row g = Inr (row', g') \<Longrightarrow> gen_size row' g' \<le> length (fst g)"
  by (auto simp: next_row_def gen_size_def split: prod.splits list.splits option.splits)

lemma opt_key_None: "opt_key row = Inr k \<Longrightarrow> k = None \<longleftrightarrow> row = None"
  by (auto simp: opt_key_def bind_res_Inr_iff split: option.splits)

lemma takes_left_rows:
  assumes "opt_key lrow = Inr lk" and "opt_key rrow = Inr rk" and "\<not> (lrow = None \<and> rrow = None)"
  shows "if takes_left lk rk then lrow \<noteq> None else rrow \<noteq> None"
  using opt_key_None [OF assms(1)] opt_key_None [OF assms(2)] assms(3)
  by (auto simp: takes_left_def split: option.splits)

function merge_loop ::
  "string option \<Rightarrow> line_gen \<Rightarrow> string option \<Rightarrow> line_gen \<Rightarrow> attempt_key option \<Rightarrow> string \<Rightarrow> string res"
where
  "merge_loop lrow lg rrow rg previous out =
     (if lrow = None \<and> rrow = None then Inr out
      else
        bind_res (opt_key lrow) (\<lambda>lk.
        bind_res (opt_key rrow) (\<lambda>rk.
        if lk \<noteq> None \<and> lk = rk then gen_error ''OMS_GENERATION_SEND_INDEX_DUPLICATE''
        else
          let left = takes_left lk rk;
              row = (if left then the lrow else the rrow);
              key = (if left then the lk else the rk)
          in
          bind_res (guard_res (case previous of None \<Rightarrow> True | Some p \<Rightarrow> p < key)
            (GenerationError ''OMS_GENERATION_SEND_INDEX_ORDER_INVALID'')) (\<lambda>_.
          if left then bind_res (next_row lg) (\<lambda>(l', lg'). merge_loop l' lg' rrow rg (Some key) (out @ row))
          else bind_res (next_row rg) (\<lambda>(r', rg'). merge_loop lrow lg r' rg' (Some key) (out @ row))))))"
  by pat_completeness auto
termination
proof (relation "measure (\<lambda>(lrow, lg, rrow, rg, previous, out). gen_size lrow lg + gen_size rrow rg)",
    goal_cases)
  case 1
  show ?case by simp
next
  case (2 lrow lg rrow rg previous out lk rk left row key u p l' lg')
  then have "lrow \<noteq> None" using takes_left_rows [OF 2(2,3,1)] by simp
  moreover have "gen_size l' lg' \<le> length (fst lg)" using 2 by (auto intro: next_row_size)
  ultimately show ?case by (auto simp: gen_size_def)
next
  case (3 lrow lg rrow rg previous out lk rk left row key u p r' rg')
  then have "rrow \<noteq> None" using takes_left_rows [OF 3(2,3,1)] by simp
  moreover have "gen_size r' rg' \<le> length (fst rg)" using 3 by (auto intro: next_row_size)
  ultimately show ?case by (auto simp: gen_size_def)
qed

declare merge_loop.simps [simp del]

definition merge_sorted_send_files :: "string \<Rightarrow> string \<Rightarrow> string res" where
  "merge_sorted_send_files left right =
     (let e = GenerationError SEND_INVALID in
      bind_res (next_row (iter_lines e left)) (\<lambda>(l, lg).
      bind_res (next_row (iter_lines e right)) (\<lambda>(r, rg).
      merge_loop l lg r rg None [])))"

subsection \<open>The external sort\<close>

definition SEND_SORT_CHUNK_ROWS :: nat where "SEND_SORT_CHUNK_ROWS = 8192"

fun has_adjacent_duplicate :: "('k \<times> 'r) list \<Rightarrow> bool" where
  "has_adjacent_duplicate (a # b # xs) = (fst a = fst b \<or> has_adjacent_duplicate (b # xs))"
| "has_adjacent_duplicate _ = False"

text \<open>\<open>flush_chunk\<close> of non-empty rows: the content of the new temporary file.\<close>

definition flush_chunk :: "string list \<Rightarrow> string res" where
  "flush_chunk rows =
     bind_res (map_res (\<lambda>row. bind_res (send_key row) (\<lambda>k. Inr (k, row))) rows) (\<lambda>keyed0.
     let keyed = sort keyed0 in
     bind_res (guard_res (\<not> has_adjacent_duplicate keyed)
       (GenerationError ''OMS_GENERATION_SEND_INDEX_DUPLICATE'')) (\<lambda>_.
     write_private_lines None (map snd keyed)))"

text \<open>The rows collected for the next chunk, the temporary files and the count.\<close>

type_synonym sort_state = "string list \<times> string list \<times> nat"

definition flush :: "sort_state \<Rightarrow> sort_state res" where
  "flush s =
     (case s of (rows, temps, n) \<Rightarrow>
        if rows = [] then Inr s
        else bind_res (flush_chunk rows) (\<lambda>f. Inr ([], temps @ [f], n)))"

definition add_row :: "nat \<Rightarrow> sort_state \<Rightarrow> string \<Rightarrow> sort_state res" where
  "add_row limit s row =
     bind_res (send_key row) (\<lambda>_.
     case s of (rows, temps, n) \<Rightarrow>
       let s' = (rows @ [row], temps, Suc n) in
       if limit \<le> length (rows @ [row]) then flush s' else Inr s')"

definition raise_end :: "exn option \<Rightarrow> 'a \<Rightarrow> 'a res" where
  "raise_end e s = (case e of None \<Rightarrow> Inr s | Some x \<Rightarrow> Inl x)"

text \<open>One round of pairwise merges; an odd file out is carried over.\<close>

fun merge_round :: "string list \<Rightarrow> string list res" where
  "merge_round (a # b # fs) =
     bind_res (merge_sorted_send_files a b) (\<lambda>m. bind_res (merge_round fs) (\<lambda>ms. Inr (m # ms)))"
| "merge_round fs = Inr fs"

lemma merge_round_length: "merge_round fs = Inr ms \<Longrightarrow> length ms = (length fs + 1) div 2"
  by (induction fs arbitrary: ms rule: merge_round.induct) (auto simp: bind_res_Inr_iff)

function merge_rounds :: "string list \<Rightarrow> string res" where
  "merge_rounds fs =
     (case fs of
        [] \<Rightarrow> Inr []
      | [f] \<Rightarrow> Inr f
      | a # b # r \<Rightarrow> bind_res (merge_round (a # b # r)) merge_rounds)"
  by pat_completeness auto
termination
proof (relation "measure length", goal_cases)
  case (2 fs a t b r ms)
  then show ?case using merge_round_length [of "a # b # r" ms] by simp
qed simp

declare merge_rounds.simps [simp del]

definition external_sort_send_index ::
  "nat \<Rightarrow> line_gen option \<Rightarrow> string list \<Rightarrow> (string \<times> nat) res"
where
  "external_sort_send_index limit parent tail_lines =
     (let g = (case parent of None \<Rightarrow> ([], None) | Some g \<Rightarrow> g) in
      bind_res (fold_res (add_row limit) ([], [], 0) (fst g)) (\<lambda>s1.
      bind_res (raise_end (snd g) s1) (\<lambda>s2.
      bind_res (fold_res (add_row limit) s2 tail_lines) (\<lambda>s3.
      bind_res (flush s3) (\<lambda>(rows, temps, n).
      if temps = [] then Inr ([], 0)
      else bind_res (merge_rounds temps) (\<lambda>out. Inr (out, n)))))))"

subsection \<open>Merging new attempts into a sorted parent index\<close>

definition rebased_line :: "int \<Rightarrow> attempt \<Rightarrow> string res" where
  "rebased_line history_base a = send_attempt_line (a\<lparr>sa_sequence := history_base + sa_sequence a\<rparr>)"

text \<open>\<open>tail_lines.sort(key=_send_key)\<close>\<close>

definition sort_lines :: "string list \<Rightarrow> string list res" where
  "sort_lines lines =
     bind_res (map_res (\<lambda>l. bind_res (send_key l) (\<lambda>k. Inr (k, l))) lines) (\<lambda>keyed.
     Inr (map snd (sort_key fst keyed)))"

function parent_merge_loop ::
  "string option \<Rightarrow> line_gen \<Rightarrow> string list \<Rightarrow> attempt_key option \<Rightarrow> string \<Rightarrow> nat \<Rightarrow> (string \<times> nat) res"
where
  "parent_merge_loop prow pg tails previous_parent out n =
     (if prow = None \<and> tails = [] then Inr (out, n)
      else
        bind_res (opt_key prow) (\<lambda>pk.
        bind_res (guard_res (case (pk, previous_parent) of (Some k, Some p) \<Rightarrow> p < k | _ \<Rightarrow> True)
          (GenerationError ''OMS_GENERATION_PARENT_SEND_INDEX_ORDER_INVALID'')) (\<lambda>_.
        bind_res (opt_key (case tails of [] \<Rightarrow> None | t # _ \<Rightarrow> Some t)) (\<lambda>tk.
        if pk \<noteq> None \<and> pk = tk then gen_error ''OMS_GENERATION_SEND_INDEX_DUPLICATE''
        else if takes_left pk tk then
          bind_res (next_row pg) (\<lambda>(p', pg'). parent_merge_loop p' pg' tails pk (out @ the prow) (Suc n))
        else parent_merge_loop prow pg (tl tails) previous_parent (out @ hd tails) (Suc n)))))"
  by pat_completeness auto
termination
proof (relation "measure (\<lambda>(prow, pg, tails, previous, out, n). gen_size prow pg + length tails)", goal_cases)
  case 1
  show ?case by simp
next
  case (2 prow pg tails previous out n pk u tk p p' pg')
  then have "prow \<noteq> None"
    using opt_key_None [OF 2(2)] by (auto simp: takes_left_def split: option.splits)
  moreover have "gen_size p' pg' \<le> length (fst pg)" using 2 by (auto intro: next_row_size)
  ultimately show ?case by (auto simp: gen_size_def)
next
  case (3 prow pg tails previous out n pk u tk)
  then have "tails \<noteq> []"
    using takes_left_rows [OF 3(2,4)] 3(1) by (auto split: list.splits)
  then show ?case by (cases tails) auto
qed

declare parent_merge_loop.simps [simp del]

text \<open>
  \<open>parent\<close> is the iterator over the parent's index and whether its manifest marks it as sorted
  (\<open>_parent_send_index_sorted\<close>).
\<close>

definition write_merged_send_index ::
  "nat \<Rightarrow> (line_gen \<times> bool) option \<Rightarrow> attempt list \<Rightarrow> int \<Rightarrow> (string \<times> nat) res"
where
  "write_merged_send_index limit parent tail_attempts history_base =
     bind_res (map_res (rebased_line history_base) tail_attempts) (\<lambda>lines.
     bind_res (sort_lines lines) (\<lambda>tails.
     case parent of
       None \<Rightarrow> external_sort_send_index limit None tails
     | Some (g, False) \<Rightarrow> external_sort_send_index limit (Some g) tails
     | Some (g, True) \<Rightarrow> bind_res (next_row g) (\<lambda>(p, pg). parent_merge_loop p pg tails None [] 0)))"

end
