(* ===== verification/Gen_Files.thy ===== *)
theory Gen_Files
  imports Io_Logic Py_Object Sha256 Send_Index Journal
begin

section \<open>Private files and metadata of a generation store\<close>

text \<open>
  Model of the file helpers of \<open>hepta_oms_checkpoint.py\<close>: \<open>_fsync\<close>, \<open>_write_all\<close>,
  \<open>_sha256_file\<close>, \<open>_atomic_bytes\<close>, \<open>_atomic_json\<close>, \<open>_durable_directory\<close>,
  \<open>_load_json_private\<close>, \<open>_read_private_bytes\<close>, \<open>_read_current\<close>, the line manifests
  (\<open>_runtime_manifest_bytes\<close>, \<open>_runtime_current_bytes\<close>, \<open>_parse_line_manifest\<close>) and the
  index verifiers.
\<close>

subsection \<open>Constants\<close>

definition SCHEMA_V1 :: string where "SCHEMA_V1 = ''heptatrader.oms-generation.v1''"
definition INDEX_SCHEMA :: string where "INDEX_SCHEMA = ''heptatrader.oms-command-index.v1''"
definition GENERATION_CURRENT_SCHEMA :: string where
  "GENERATION_CURRENT_SCHEMA = ''heptatrader.oms-current.v1''"
definition RUNTIME_MANIFEST_HEADER_V1 :: string where
  "RUNTIME_MANIFEST_HEADER_V1 = ''HEPTA_OMS_RUNTIME_GENERATION_V1''"
definition RUNTIME_CURRENT_HEADER :: string where
  "RUNTIME_CURRENT_HEADER = ''HEPTA_OMS_RUNTIME_CURRENT_V1''"
definition MAX_GENERATION_FILES :: nat where "MAX_GENERATION_FILES = 24"
definition MAX_METADATA :: nat where "MAX_METADATA = 16 * 1024 * 1024"

subsection \<open>Writing\<close>

text \<open>\<open>os.fsync\<close> already retries an interrupted call, so the loop of \<open>_fsync\<close> runs once.\<close>

definition fsync :: "nat \<Rightarrow> unit io" where
  "fsync fd = os_fsync fd"

function write_all :: "nat \<Rightarrow> string \<Rightarrow> unit io" where
  "write_all fd view os w =
     (if view = [] then (Inr (), w)
      else
        case os_write fd view os w of
          (Inl e, w') \<Rightarrow> (Inl e, w')
        | (Inr k, w') \<Rightarrow>
            if k = 0 then (Inl (OSError ''OSError''), w') else write_all fd (drop k view) os w')"
  by pat_completeness auto
termination
  by (relation "measure (\<lambda>(fd, view, os, w). length view)") auto

declare write_all.simps [simp del]

text \<open>A private file created for writing, filled by \<open>body\<close> and synced before it is closed.\<close>

definition create_synced :: "string \<Rightarrow> (nat \<Rightarrow> unit io) \<Rightarrow> unit io" where
  "create_synced p body = bind_io (create_excl p) (\<lambda>fd. then_io (body fd) (fsync fd))"

definition atomic_bytes :: "string \<Rightarrow> string \<Rightarrow> unit io" where
  "atomic_bytes p encoded =
     bind_io uuid4 (\<lambda>u.
     let temp = with_name p (CHR ''.'' # path_name p @ CHR ''.'' # u @ ''.tmp'') in
     then_io (create_synced temp (\<lambda>fd. write_all fd encoded)) (os_replace temp p))"

definition json_line :: "json \<Rightarrow> string" where
  "json_line v = dumps v @ [LF]"

definition atomic_json :: "string \<Rightarrow> json \<Rightarrow> unit io" where
  "atomic_json p v = atomic_bytes p (json_line v)"

definition durable_directory :: "string \<Rightarrow> unit io" where
  "durable_directory p = bind_io (open_dir p) fsync"

subsection \<open>Reading\<close>

definition require_private :: "stat \<Rightarrow> exn \<Rightarrow> unit io" where
  "require_private st e = bind_io (ask euid) (\<lambda>u. guard_io (private_regular u st) e)"

definition require_private_directory :: "stat \<Rightarrow> exn \<Rightarrow> unit io" where
  "require_private_directory st e = bind_io (ask euid) (\<lambda>u. guard_io (private_directory u st) e)"

definition check_identity :: "stat \<Rightarrow> nat \<Rightarrow> string \<Rightarrow> exn \<Rightarrow> unit io" where
  "check_identity prior fd p e =
     bind_io (fstat fd) (\<lambda>after. bind_io (lstat p) (\<lambda>named.
     guard_io (identity prior = identity after \<and> identity after = identity named) e))"

definition sha256_file :: "string \<Rightarrow> (nat \<times> string) io" where
  "sha256_file p =
     bind_io (open_read p) (\<lambda>fd. bind_io (fstat fd) (\<lambda>prior.
     then_io (require_private prior (GenerationError ''OMS_GENERATION_UNSAFE_FILE''))
     (bind_io (read_fd fd) (\<lambda>data.
     then_io (check_identity prior fd p (GenerationError ''OMS_GENERATION_FILE_CHANGED''))
     (return_io (length data, sha256 data))))))"

definition METADATA_CHANGED :: exn where "METADATA_CHANGED = GenerationError ''OMS_GENERATION_METADATA_CHANGED''"
definition UNSAFE_METADATA :: exn where "UNSAFE_METADATA = GenerationError ''OMS_GENERATION_UNSAFE_METADATA''"

definition load_json_private :: "string \<Rightarrow> json io" where
  "load_json_private p =
     bind_io (open_read p) (\<lambda>fd. bind_io (fstat fd) (\<lambda>prior.
     then_io (require_private prior UNSAFE_METADATA)
     (then_io (guard_io (st_size prior \<le> MAX_METADATA) UNSAFE_METADATA)
     (bind_io (read_fd fd) (\<lambda>data.
     let raw = take (Suc (st_size prior)) data in
     then_io (guard_io (length raw = st_size prior) METADATA_CHANGED)
     (bind_io (lift_io (catch_res decode_failure (loads default_hooks raw)
         (GenerationError ''OMS_GENERATION_METADATA_INVALID''))) (\<lambda>v.
     bind_io (fstat fd) (\<lambda>after.
     then_io (guard_io (identity prior = identity after) METADATA_CHANGED)
     (return_io v)))))))))"

text \<open>\<open>maximum\<close> is \<open>None\<close> for a file of any size, which is read in blocks up to its size.\<close>

definition read_private_bytes :: "nat option \<Rightarrow> string \<Rightarrow> string io" where
  "read_private_bytes maximum p =
     bind_io (open_read p) (\<lambda>fd. bind_io (fstat fd) (\<lambda>prior.
     then_io (require_private prior UNSAFE_METADATA)
     (then_io (guard_io (case maximum of None \<Rightarrow> True | Some m \<Rightarrow> st_size prior \<le> m) UNSAFE_METADATA)
     (bind_io (read_fd fd) (\<lambda>data.
     let raw = take (Suc (st_size prior)) data in
     then_io (guard_io (length raw = st_size prior) METADATA_CHANGED)
     (bind_io (fstat fd) (\<lambda>after.
     then_io (guard_io (identity prior = identity after) METADATA_CHANGED)
     (return_io raw))))))))"

definition CURRENT_INVALID :: exn where "CURRENT_INVALID = GenerationError ''OMS_GENERATION_CURRENT_INVALID''"

definition current_generation :: "dict \<Rightarrow> string" where
  "current_generation d = str_field d ''generation''"

definition read_current :: "string \<Rightarrow> dict option io" where
  "read_current store =
     (let current = path_join store ''CURRENT'' in
      bind_io (path_exists current) (\<lambda>ex.
      if \<not> ex then return_io None
      else bind_io (load_json_private current) (\<lambda>v.
        case v of
          JDict d \<Rightarrow>
            then_io (guard_io (py_eq (get_default d ''schema'' JNull) (JStr GENERATION_CURRENT_SCHEMA)) CURRENT_INVALID)
            (then_io (guard_io (is_str (get_default d ''generation'' JNull) \<and> current_generation d \<noteq> []) CURRENT_INVALID)
            (return_io (Some d)))
        | _ \<Rightarrow> raise_io CURRENT_INVALID)))"

subsection \<open>Line manifests\<close>

type_synonym digests = "(string \<times> string) list"

definition key_value :: "string \<Rightarrow> string \<Rightarrow> string" where
  "key_value k v = k @ CHR ''='' # v"

definition digest_item :: "digests \<Rightarrow> string \<times> string \<Rightarrow> string res" where
  "digest_item ds kn =
     (case map_of ds (snd kn) of None \<Rightarrow> Inl (KeyError (snd kn)) | Some h \<Rightarrow> Inr (key_value (fst kn) h))"

definition manifest_text :: "string list \<Rightarrow> string res" where
  "manifest_text lines = encode_ascii (join_with LF lines @ [LF])"

definition str_nat :: "nat \<Rightarrow> string" where
  "str_nat n = str_of_int (int n)"

text \<open>The digest lines of both manifest versions up to the send index, in the order written.\<close>

definition INDEX_DIGESTS :: "(string \<times> string) list" where
  "INDEX_DIGESTS =
     [(''segment_sha256'', ''segment-000001.jsonl''), (''checkpoint_sha256'', ''checkpoint.json''),
      (''command_index_sha256'', ''command-index.tsv''),
      (''runtime_command_index_sha256'', ''runtime-command-index.tsv''),
      (''send_attempt_index_sha256'', ''send-attempt-index.tsv'')]"

definition HOT_DIGEST :: "string \<times> string" where
  "HOT_DIGEST = (''hot_replay_sha256'', ''hot-replay.jsonl'')"

definition NO_AUTHORITY :: "string list" where
  "NO_AUTHORITY = [''authorization_effect=NONE'', ''paper_authorized=0'', ''live_authorized=0'']"

record counts_v1 =
  c_prefix_bytes :: nat
  c_prefix_sha256 :: string
  c_journal :: nat
  c_commands :: nat
  c_attempts :: nat
  c_hot :: nat

definition runtime_manifest_bytes_v1 :: "string \<Rightarrow> string \<Rightarrow> counts_v1 \<Rightarrow> digests \<Rightarrow> string res" where
  "runtime_manifest_bytes_v1 generation parent c ds =
     bind_res (map_res (digest_item ds) (INDEX_DIGESTS @ [HOT_DIGEST])) (\<lambda>hs.
     manifest_text
       ([RUNTIME_MANIFEST_HEADER_V1,
         key_value ''generation'' generation,
         key_value ''parent_generation'' (or_str parent ''-''),
         key_value ''journal_prefix_bytes'' (str_nat (c_prefix_bytes c)),
         key_value ''journal_prefix_sha256'' (c_prefix_sha256 c),
         key_value ''journal_records'' (str_nat (c_journal c)),
         key_value ''command_records'' (str_nat (c_commands c)),
         key_value ''send_attempt_records'' (str_nat (c_attempts c)),
         key_value ''hot_replay_records'' (str_nat (c_hot c))] @ hs @ NO_AUTHORITY))"

definition runtime_current_bytes :: "string \<Rightarrow> string \<Rightarrow> string \<Rightarrow> string \<Rightarrow> string res" where
  "runtime_current_bytes generation current_sha manifest_sha runtime_sha =
     manifest_text
       [RUNTIME_CURRENT_HEADER, key_value ''generation'' generation, key_value ''current_sha256'' current_sha,
        key_value ''manifest_sha256'' manifest_sha, key_value ''runtime_manifest_sha256'' runtime_sha]"

definition line_manifest_error :: "'a res" where
  "line_manifest_error = Inl (GenerationError ''OMS_GENERATION_RUNTIME_METADATA_INVALID'')"

type_synonym line_fields = "(string \<times> string) list"

definition manifest_line :: "line_fields \<Rightarrow> string \<Rightarrow> line_fields res" where
  "manifest_line fs line =
     (case partition_at (CHR ''='') line of
        None \<Rightarrow> line_manifest_error
      | Some (name, value) \<Rightarrow>
          if name = [] \<or> value = [] \<or> map_of fs name \<noteq> None then line_manifest_error
          else Inr (fs @ [(name, value)]))"

definition parse_line_manifest :: "string \<Rightarrow> string \<Rightarrow> line_fields res" where
  "parse_line_manifest raw header =
     (if \<not> ascii raw then line_manifest_error
      else case ascii_splitlines raw of
        [] \<Rightarrow> line_manifest_error
      | h # lines \<Rightarrow> if h \<noteq> header then line_manifest_error else fold_res manifest_line [] lines)"

text \<open>The parsed lines as a Python \<open>dict\<close>, for \<open>==\<close>.\<close>

definition fields_json :: "line_fields \<Rightarrow> json" where
  "fields_json fs = JDict (map (\<lambda>(k, v). (k, JStr v)) fs)"

subsection \<open>Index verification\<close>

definition ordered_keys :: "exn \<Rightarrow> (string \<Rightarrow> 'k::linorder res) \<Rightarrow> 'k list \<Rightarrow> string \<Rightarrow> 'k list res" where
  "ordered_keys e key seen line =
     bind_res (key line) (\<lambda>k.
     bind_res (guard_res (seen = [] \<or> last seen < k) e) (\<lambda>_. Inr (seen @ [k])))"

definition verify_index :: "string \<Rightarrow> json \<Rightarrow> string list io" where
  "verify_index p expected =
     bind_io (read_private_bytes None p) (\<lambda>data.
     let lines = bytes_splitlines_keepends data in
     then_io (guard_io (py_eq (JInt (int (length lines))) expected)
       (GenerationError ''OMS_GENERATION_INDEX_COUNT_MISMATCH''))
     (then_io (lift_io (fold_res (ordered_keys (GenerationError ''OMS_GENERATION_INDEX_ORDER_INVALID'') index_key) [] lines))
     (return_io lines)))"

definition verify_runtime_index :: "string \<Rightarrow> json \<Rightarrow> unit io" where
  "verify_runtime_index p expected =
     bind_io (read_private_bytes None p) (\<lambda>data.
     let lines = bytes_splitlines_keepends data in
     then_io (guard_io (py_eq (JInt (int (length lines))) expected)
       (GenerationError ''OMS_GENERATION_RUNTIME_INDEX_COUNT_MISMATCH''))
     (then_io (lift_io (fold_res (ordered_keys
         (GenerationError ''OMS_GENERATION_RUNTIME_INDEX_ORDER_INVALID'') runtime_index_key) [] lines))
     (return_io ())))"

subsection \<open>Names and digests of a generation\<close>

text \<open>\<open>f"<tag>-{time.time_ns():020d}-{uuid.uuid4().hex[:12]}"\<close>\<close>

definition pad20 :: "string \<Rightarrow> string" where
  "pad20 s = zeros (20 - length s) @ s"

definition new_generation :: "string \<Rightarrow> string io" where
  "new_generation tag =
     bind_io time_ns (\<lambda>t. bind_io uuid4 (\<lambda>u.
     return_io (tag @ CHR ''-'' # pad20 (str_nat t) @ CHR ''-'' # take 12 u)))"

definition SEGMENT :: string where "SEGMENT = ''segment-000001.jsonl''"

definition PRELIMINARY :: "string list" where
  "PRELIMINARY =
     [''segment-000001.jsonl'', ''checkpoint.json'', ''command-index.tsv'', ''command-index.json'',
      ''runtime-command-index.tsv'', ''send-attempt-index.tsv'', ''hot-replay.jsonl'']"

type_synonym inventory = "(string \<times> nat \<times> string) list"

definition file_digests :: "string \<Rightarrow> string list \<Rightarrow> inventory io" where
  "file_digests gdir ns =
     map_io (\<lambda>n. bind_io (sha256_file (path_join gdir n)) (\<lambda>d. return_io (n, d))) ns"

definition digests_of :: "inventory \<Rightarrow> digests" where
  "digests_of items = map (\<lambda>(n, sz, h). (n, h)) items"

definition files_json :: "inventory \<Rightarrow> json" where
  "files_json items =
     JDict (map (\<lambda>(n, sz, h). (n, JDict [(''bytes'', JInt (int sz)), (''sha256'', JStr h)])) items)"

text \<open>The replay rows of a generation, one JSON line each.\<close>

definition write_hot_replay :: "nat \<Rightarrow> string \<Rightarrow> event list \<Rightarrow> unit io" where
  "write_hot_replay max_record p rows =
     create_synced p (\<lambda>fd. fold_io (\<lambda>_ row.
       let encoded = json_line (JDict row) in
       then_io (guard_io (length encoded \<le> max_record) (GenerationError ''OMS_GENERATION_HOT_RECORD_LIMIT''))
         (write_all fd encoded)) () rows)"

definition write_rows :: "('r \<Rightarrow> string res) \<Rightarrow> string \<Rightarrow> 'r list \<Rightarrow> unit io" where
  "write_rows encode p rows =
     create_synced p (\<lambda>fd. fold_io (\<lambda>_ r. bind_io (lift_io (encode r)) (write_all fd)) () rows)"

text \<open>\<open>CURRENT\<close>, then \<open>CURRENT.runtime\<close> bound to its exact bytes.\<close>

definition pointer_json :: "string \<Rightarrow> string \<Rightarrow> string \<Rightarrow> json" where
  "pointer_json generation manifest_digest runtime_digest =
     JDict [(''schema'', JStr GENERATION_CURRENT_SCHEMA), (''generation'', JStr generation),
       (''manifest_sha256'', JStr manifest_digest), (''runtime_manifest_sha256'', JStr runtime_digest)]"

definition publish_current :: "string \<Rightarrow> string \<Rightarrow> string \<Rightarrow> string \<Rightarrow> unit io" where
  "publish_current store generation manifest_digest runtime_digest =
     then_io (atomic_json (path_join store ''CURRENT'') (pointer_json generation manifest_digest runtime_digest))
     (then_io (durable_directory store)
     (bind_io (read_private_bytes (Some MAX_METADATA) (path_join store ''CURRENT'')) (\<lambda>raw.
     bind_io (lift_io (runtime_current_bytes generation (sha256 raw) manifest_digest runtime_digest)) (\<lambda>text.
     then_io (atomic_bytes (path_join store ''CURRENT.runtime'') text)
     (durable_directory store)))))"

definition index_meta_json :: "nat \<Rightarrow> json" where
  "index_meta_json n = JDict
     [(''schema'', JStr INDEX_SCHEMA), (''records'', JInt (int n)),
      (''key'', JList [JStr ''agent_id'', JStr ''session_id'', JStr ''command_id'']),
      (''full_request_hash_compared'', JBool True)]"

end
