(* ===== verification/Replay.thy ===== *)
theory Replay
  imports Journal
begin

section \<open>Offline replay of the journal\<close>

text \<open>
  Model of \<open>dedup_key\<close> and \<open>replay\<close> of \<open>scripts/verify_oms_journal_replay.py\<close>:
  the replay skips a record whose deduplication key it has seen, counts the others by type
  and folds them into the state of their order. The lemmas relate it to a specification
  without mutable state: \<open>uniques\<close>, the first record of every key, folded per order.
\<close>

subsection \<open>Deduplication and replay of the order states\<close>

datatype dedup = EventId string | Compat string int int string string string string

definition request_id_of :: "event \<Rightarrow> string" where
  "request_id_of ev = or_str (str_field ev ''req_id'') (str_field ev ''client_req_id'')"

definition dedup_key :: "event \<Rightarrow> dedup" where
  "dedup_key ev =
     (if str_field ev ''event_id'' \<noteq> [] then EventId (str_field ev ''event_id'')
      else Compat (str_field ev ''event'') (int_field ev ''ts_ms'' 0) (int_field ev ''order_id'' (-1))
             (request_id_of ev) (str_field ev ''status'') (str_field ev ''reason'') (str_field ev ''source''))"

text \<open>\<open>float(event.get(key, 0.0)) > 0.0\<close>; a validated record has a finite number there.\<close>

definition positive_field :: "event \<Rightarrow> string \<Rightarrow> bool" where
  "positive_field ev k =
     (case to_float (get_default ev k (JFloat fl_zero)) of Inr x \<Rightarrow> fl_less fl_zero x | Inl _ \<Rightarrow> False)"

definition set_if :: "bool \<Rightarrow> string \<Rightarrow> json \<Rightarrow> dict \<Rightarrow> dict" where
  "set_if c k v d = (if c then dict_set k v d else d)"

text \<open>The updates one event makes to the state of its order, in the order of the source.\<close>

definition order_update :: "event \<Rightarrow> dict \<Rightarrow> dict" where
  "order_update ev state =
     (let kind = str_field ev ''event'';
          s1 = dict_set ''last_event'' (JStr kind) state;
          s2 = dict_set ''last_ts_ms'' (JInt (int_field ev ''ts_ms'' 0)) s1;
          s3 = set_if (request_id_of ev \<noteq> []) ''req_id'' (JStr (request_id_of ev)) s2;
          s4 = set_if (str_field ev ''venue_correlation_id'' \<noteq> []) ''venue_correlation_id''
                 (JStr (str_field ev ''venue_correlation_id'')) s3;
          s5 = set_if (str_field ev ''broker_execution_id'' \<noteq> []) ''broker_execution_id''
                 (JStr (str_field ev ''broker_execution_id'')) s4;
          s6 = set_if (kind \<in> {''place_sent'', ''broker_order_accepted''}) ''sent_or_accepted'' (JBool True) s5;
          is_status = (kind \<in> {''status'', ''broker_order_status'', ''broker_completed_order''});
          s7 = set_if is_status ''last_status'' (JStr (str_field ev ''status'')) s6;
          s8 = set_if is_status ''remaining_quantity''
                 (get_default ev ''broker_remaining_quantity'' (JFloat fl_zero)) s7;
          s9 = set_if (kind = ''broker_execution'') ''economic_execution_observed''
                 (JBool (str_field ev ''broker_execution_id'' \<noteq> [] \<and>
                    positive_field ev ''qty'' \<and> positive_field ev ''price'')) s8;
          s10 = set_if (kind \<in> {''cancel'', ''cancel_command_resolved''}) ''cancel_observed'' (JBool True) s9
      in set_if (kind \<in> {''reject'', ''risk_blocked'', ''broker_error''}) ''last_reject_reason''
           (JStr (or_str (str_field ev ''risk_code'')
             (or_str (str_field ev ''reason'') (str_field ev ''broker_message'')))) s10)"

record replay_state =
  rp_counts :: "(string \<times> nat) list"
  rp_orders :: "(int \<times> dict) list"
  rp_seen :: "dedup set"
  rp_duplicates :: nat

definition init_replay :: replay_state where
  "init_replay = \<lparr>rp_counts = [], rp_orders = [], rp_seen = {}, rp_duplicates = 0\<rparr>"

definition lookup_or :: "('k \<times> 'v) list \<Rightarrow> 'k \<Rightarrow> 'v \<Rightarrow> 'v" where
  "lookup_or m k v = (case map_of m k of None \<Rightarrow> v | Some x \<Rightarrow> x)"

definition replay_step :: "event \<Rightarrow> replay_state \<Rightarrow> replay_state" where
  "replay_step ev st =
     (let key = dedup_key ev; kind = str_field ev ''event''; oid = int_field ev ''order_id'' (-1) in
      if key \<in> rp_seen st then st\<lparr>rp_duplicates := Suc (rp_duplicates st)\<rparr>
      else
        let st1 = st\<lparr>rp_seen := insert key (rp_seen st),
              rp_counts := AList.update kind (Suc (lookup_or (rp_counts st) kind 0)) (rp_counts st)\<rparr>
        in if oid \<le> 0 then st1
           else st1\<lparr>rp_orders := AList.update oid (order_update ev (lookup_or (rp_orders st) oid []))
                  (rp_orders st)\<rparr>)"

definition replay :: "event list \<Rightarrow> (string \<times> nat) list \<times> (int \<times> dict) list \<times> nat" where
  "replay events =
     (let st = fold replay_step events init_replay in (rp_counts st, rp_orders st, rp_duplicates st))"

subsection \<open>The replay as a fold over the unique records\<close>

fun uniques :: "dedup set \<Rightarrow> event list \<Rightarrow> event list" where
  "uniques seen [] = []"
| "uniques seen (e # es) =
     (if dedup_key e \<in> seen then uniques seen es
      else e # uniques (insert (dedup_key e) seen) es)"

definition order_events :: "int \<Rightarrow> event list \<Rightarrow> event list" where
  "order_events oid es = filter (\<lambda>e. int_field e ''order_id'' (-1) = oid) es"

definition kind_events :: "string \<Rightarrow> event list \<Rightarrow> event list" where
  "kind_events k es = filter (\<lambda>e. str_field e ''event'' = k) es"

lemma uniques_append: "uniques seen (es @ ds) = uniques seen es @ uniques (seen \<union> dedup_key ` set es) ds"
  by (induction es arbitrary: seen) (auto simp: insert_absorb)

lemma uniques_Nil_iff: "uniques seen ds = [] \<longleftrightarrow> dedup_key ` set ds \<subseteq> seen"
  by (induction ds) auto

lemma uniques_length: "length (uniques seen es) \<le> length es"
  by (induction es arbitrary: seen) (auto simp: le_SucI)

lemma replay_step_sel:
  "rp_seen (replay_step e st) = insert (dedup_key e) (rp_seen st)"
  "rp_duplicates (replay_step e st) =
     (if dedup_key e \<in> rp_seen st then Suc (rp_duplicates st) else rp_duplicates st)"
  by (auto simp: replay_step_def Let_def)

lemma replay_seen: "rp_seen (fold replay_step es st) = rp_seen st \<union> dedup_key ` set es"
  by (induction es arbitrary: st) (auto simp: replay_step_sel)

lemma replay_duplicates:
  "rp_duplicates (fold replay_step es st) + length (uniques (rp_seen st) es) = rp_duplicates st + length es"
proof (induction es arbitrary: st)
  case (Cons e es)
  show ?case using Cons.IH [of "replay_step e st"] by (auto simp: replay_step_sel insert_absorb)
qed simp

lemma lookup_or_update [simp]:
  "lookup_or (AList.update k v m) k' d = (if k' = k then v else lookup_or m k' d)"
  by (simp add: lookup_or_def update_conv')

lemma replay_orders:
  assumes "0 < oid"
  shows "map_of (rp_orders (fold replay_step es st)) oid =
    (let us = order_events oid (uniques (rp_seen st) es) in
     if us = [] then map_of (rp_orders st) oid
     else Some (fold order_update us (lookup_or (rp_orders st) oid [])))"
  using assms
proof (induction es arbitrary: st)
  case (Cons e es)
  show ?case
    unfolding fold_simps(2) Cons.IH [OF Cons.prems]
    using Cons.prems
    by (auto simp: replay_step_def order_events_def update_conv' lookup_or_def Let_def)
qed (simp add: order_events_def)

lemma replay_orders_positive:
  "oid \<in> fst ` set (rp_orders (fold replay_step es st)) \<Longrightarrow>
     0 < oid \<or> oid \<in> fst ` set (rp_orders st)"
proof (induction es arbitrary: st)
  case (Cons e es)
  from Cons.IH [of "replay_step e st"] Cons.prems
  have "0 < oid \<or> oid \<in> fst ` set (rp_orders (replay_step e st))" by simp
  then show ?case by (auto simp: replay_step_def Let_def dom_update split: if_splits)
qed simp

lemma replay_counts:
  "lookup_or (rp_counts (fold replay_step es st)) k 0 =
     lookup_or (rp_counts st) k 0 + length (kind_events k (uniques (rp_seen st) es))"
  by (induction es arbitrary: st) (auto simp: replay_step_def kind_events_def Let_def)

lemma replay_all_seen:
  assumes "dedup_key ` set ds \<subseteq> rp_seen st"
  shows "fold replay_step ds st = st\<lparr>rp_duplicates := rp_duplicates st + length ds\<rparr>"
  using assms by (induction ds arbitrary: st) (auto simp: replay_step_def Let_def)

lemmas replay_facts = replay_seen replay_duplicates replay_counts

subsection \<open>Properties\<close>

text \<open>C7. The replay refines its specification: the state of an order is the fold, in journal
  order, of the unique records with its (positive) order id and there is no state for any
  other id; the count of a type is the number of unique records of that type; and the
  unique records and the skipped duplicates together are all records.\<close>

theorem replay_refines_unique_fold:
  "map_of (fst (snd (replay es))) oid =
     (let us = order_events oid (uniques {} es) in
      if 0 < oid \<and> us \<noteq> [] then Some (fold order_update us []) else None) \<and>
   lookup_or (fst (replay es)) kind 0 = length (kind_events kind (uniques {} es)) \<and>
   snd (snd (replay es)) + length (uniques {} es) = length es"
proof -
  let ?st = "fold replay_step es init_replay"
  have init: "rp_seen init_replay = {}" "rp_orders init_replay = []" "rp_counts init_replay = []"
    "rp_duplicates init_replay = 0" by (simp_all add: init_replay_def)
  have "map_of (rp_orders ?st) oid =
     (let us = order_events oid (uniques {} es) in
      if 0 < oid \<and> us \<noteq> [] then Some (fold order_update us []) else None)"
  proof (cases "0 < oid")
    case True
    then show ?thesis using replay_orders [of oid es init_replay] init
      by (simp add: Let_def lookup_or_def)
  next
    case False
    then show ?thesis using replay_orders_positive [of oid es init_replay] init
      by (auto simp: Let_def map_of_eq_None_iff)
  qed
  then show ?thesis
    using replay_counts [of es init_replay kind] replay_duplicates [of es init_replay] init
    by (simp add: replay_def Let_def lookup_or_def)
qed

text \<open>C17. Replaying records that repeat already journalled ones (same event id, or same
  compatibility key) changes neither an order state nor a count; it only counts the
  duplicates.\<close>

theorem replay_duplicates_inert:
  assumes "dedup_key ` set ds \<subseteq> dedup_key ` set es"
  shows "replay (es @ ds) =
    (fst (replay es), fst (snd (replay es)), snd (snd (replay es)) + length ds)"
proof -
  have "dedup_key ` set ds \<subseteq> rp_seen (fold replay_step es init_replay)"
    using assms by (simp add: replay_seen init_replay_def)
  then show ?thesis by (simp add: replay_def replay_all_seen Let_def)
qed

definition sample_event :: event where
  "sample_event =
     [(''event'', JStr ''place_sent''), (''event_id'', JStr ''e1''), (''ts_ms'', JInt 5), (''order_id'', JInt 7)]"

theorem replay_duplicates_inert_witness:
  "dedup_key ` set [dict_set ''ts_ms'' (JInt 9) sample_event] \<subseteq> dedup_key ` set [sample_event] \<and>
   snd (snd (replay ([sample_event] @ [dict_set ''ts_ms'' (JInt 9) sample_event]))) = 1"
proof -
  have h: "dedup_key ` set [dict_set ''ts_ms'' (JInt 9) sample_event] \<subseteq> dedup_key ` set [sample_event]"
    by code_simp
  moreover have "snd (snd (replay [sample_event])) = 0" by code_simp
  ultimately show ?thesis using replay_duplicates_inert [OF h] by simp
qed

end
