(* ===== verification/Maintenance.thy ===== *)
theory Maintenance
  imports Gen_Files Replay
begin

section \<open>Repacking the journal, and the verifier's command line\<close>

text \<open>
  Model of \<open>hepta_oms_archive.py\<close> (\<open>trusted_parent\<close>, \<open>transform\<close>) and of \<open>main\<close> of
  \<open>verify_oms_journal_replay.py\<close>. The stopped journal is rewritten as one gzip member or as
  plain text and the result is read back before it takes the place of the journal. The gzip
  encoder is a parameter: its state, \<open>compress\<close> and \<open>flush(Z_FINISH)\<close>.
\<close>

record 'e encoder =
  e_new :: 'e
  e_compress :: "'e \<Rightarrow> string \<Rightarrow> string \<times> 'e"
  e_flush :: "'e \<Rightarrow> string"

datatype mode = Inspect | Compact | Expand

definition maintenance_identity :: "stat \<Rightarrow> nat \<times> nat \<times> nat \<times> nat \<times> nat \<times> nat \<times> nat \<times> int \<times> int" where
  "maintenance_identity st =
     (st_dev st, st_ino st, st_size st, st_mode st, st_nlink st, st_uid st, st_gid st, st_mtime_ns st, st_ctime_ns st)"

definition private_file :: "stat \<Rightarrow> unit io" where
  "private_file st =
     bind_io (ask euid) (\<lambda>u.
     guard_io (S_ISREG (st_mode st) \<and> st_uid st = u \<and> S_IMODE (st_mode st) = MODE_0600 \<and> st_nlink st = 1)
       (MaintenanceError ''OMS_MAINTENANCE_UNSAFE_FILE''))"

subsection \<open>The directory\<close>

definition canonical_path :: "string \<Rightarrow> bool" where
  "canonical_path p \<longleftrightarrow>
     take 1 p = [SLASH] \<and> list_all (\<lambda>c. c \<noteq> [] \<and> c \<noteq> ''.'' \<and> c \<noteq> ''..'') (drop 1 (split_on SLASH p))"

text \<open>The directories from the root's children down to the parent of the file.\<close>

fun prefixes_of :: "string \<Rightarrow> string list \<Rightarrow> string list" where
  "prefixes_of p [] = []"
| "prefixes_of p (c # cs) = (p @ SLASH # c) # prefixes_of (p @ SLASH # c) cs"

definition ancestors :: "string \<Rightarrow> string list" where
  "ancestors p = prefixes_of [] (butlast (drop 1 (split_on SLASH p)))"

definition writable_by_others :: "nat \<Rightarrow> bool" where
  "writable_by_others m \<longleftrightarrow> m div 16 mod 2 = 1 \<or> m div 2 mod 2 = 1"

definition sticky :: "nat \<Rightarrow> bool" where
  "sticky m \<longleftrightarrow> m div 512 mod 2 = 1"

definition check_ancestor :: "nat \<Rightarrow> string \<Rightarrow> nat io" where
  "check_ancestor fd p =
     bind_io (open_dir p) (\<lambda>next_fd. bind_io (fstat next_fd) (\<lambda>meta.
     bind_io (ask euid) (\<lambda>u.
     then_io (guard_io ((st_uid meta = 0 \<or> st_uid meta = u) \<and>
         (writable_by_others (st_mode meta) \<longrightarrow> st_uid meta = 0 \<and> sticky (st_mode meta)))
       (MaintenanceError ''OMS_MAINTENANCE_UNTRUSTED_PARENT''))
     (return_io next_fd))))"

definition PRIVATE_STATE :: exn where
  "PRIVATE_STATE = MaintenanceError ''OMS_MAINTENANCE_PRIVATE_STATE_DIRECTORY_REQUIRED''"

definition trusted_parent :: "string \<Rightarrow> nat io" where
  "trusted_parent p =
     then_io (guard_io (canonical_path p) (MaintenanceError ''OMS_MAINTENANCE_ABSOLUTE_CANONICAL_PATH_REQUIRED''))
     (bind_io (open_dir []) (\<lambda>slash_fd.
      bind_io (fold_io check_ancestor slash_fd (ancestors p)) (\<lambda>fd.
      bind_io (fstat fd) (\<lambda>parent. bind_io (ask euid) (\<lambda>u.
      then_io (guard_io (st_uid parent = u \<and> S_IMODE (st_mode parent) = MODE_0700) PRIVATE_STATE)
      (return_io fd))))))"

subsection \<open>The transformation\<close>

definition revalidate_source :: "string \<Rightarrow> nat \<Rightarrow> nat \<Rightarrow> stat \<Rightarrow> unit io" where
  "revalidate_source p parent_fd fd prior =
     bind_io (fstat fd) (\<lambda>now. bind_io (lstat p) (\<lambda>named.
     then_io (guard_io (maintenance_identity now = maintenance_identity prior \<and>
         maintenance_identity named = maintenance_identity prior)
       (MaintenanceError ''OMS_MAINTENANCE_SNAPSHOT_CHANGED''))
     (bind_io (lstat (path_parent p)) (\<lambda>named_parent. bind_io (fstat parent_fd) (\<lambda>held_parent.
      bind_io (ask euid) (\<lambda>u.
      guard_io (st_dev named_parent = st_dev held_parent \<and> st_ino named_parent = st_ino held_parent \<and>
          st_uid held_parent = u \<and> S_IMODE (st_mode held_parent) = MODE_0700)
        (MaintenanceError ''OMS_MAINTENANCE_PARENT_CHANGED'')))))))"

text \<open>What is written for one record, and for the end of the stream.\<close>

definition encode_step :: "'e encoder \<Rightarrow> mode \<Rightarrow> 'e \<times> string list \<Rightarrow> string \<Rightarrow> 'e \<times> string list" where
  "encode_step enc md s raw =
     (case s of (st, out) \<Rightarrow>
        if md = Compact then let (c, st') = e_compress enc st raw in (st', out @ [c]) else (st, out @ [raw]))"

definition encoded_chunks :: "'e encoder \<Rightarrow> mode \<Rightarrow> string list \<Rightarrow> 'e \<times> string list" where
  "encoded_chunks enc md raws = foldl (encode_step enc md) (e_new enc, []) raws"

definition records_bytes :: "reader \<Rightarrow> string" where
  "records_bytes rd = concat (map fst (rd_yielded rd))"

text \<open>The records are read to the end or to the first error; what was read before it has been
  written.\<close>

definition write_records :: "'d zlib \<Rightarrow> 'e encoder \<Rightarrow> mode \<Rightarrow> nat option \<Rightarrow> string \<Rightarrow> nat \<Rightarrow> budgets \<Rightarrow> reader io" where
  "write_records z enc md target data sz b =
     (let (rd, err) = validated_raw_records z data sz b;
          (st, chunks) = encoded_chunks enc md (map fst (rd_yielded rd)) in
      then_io (case target of None \<Rightarrow> return_io () | Some t \<Rightarrow> fold_io (\<lambda>_ c. write_all t c) () chunks)
      (bind_io (lift_io (raise_end err rd)) (\<lambda>rd.
       then_io (case target of
           None \<Rightarrow> return_io ()
         | Some t \<Rightarrow> if md = Compact then write_all t (e_flush enc st) else return_io ())
       (return_io rd))))"

definition read_back :: "'d zlib \<Rightarrow> nat \<Rightarrow> stat \<Rightarrow> budgets \<Rightarrow> reader io" where
  "read_back z target encoded b =
     bind_io (read_fd target) (\<lambda>data.
     let (rd, err) = validated_raw_records z data (st_size encoded) b in lift_io (raise_end err rd))"

definition same_records :: "reader \<Rightarrow> reader \<Rightarrow> bool" where
  "same_records rd rd' \<longleftrightarrow>
     sha256 (records_bytes rd') = sha256 (records_bytes rd) \<and> rd_records rd' = rd_records rd"

definition DURABILITY_UNCERTAIN :: exn where
  "DURABILITY_UNCERTAIN = MaintenanceError ''OMS_MAINTENANCE_DURABILITY_UNCERTAIN_INSPECT_CURRENT_FILE''"

definition maintenance_result :: "mode \<Rightarrow> reader \<Rightarrow> nat \<Rightarrow> nat \<Rightarrow> dict" where
  "maintenance_result md rd input_size output_size =
     [(''schema'', JStr ''heptatrader.oms-maintenance.v1''), (''result'', JStr ''PASS''),
      (''operation'', JStr (case md of Inspect \<Rightarrow> ''inspect'' | Compact \<Rightarrow> ''compact'' | Expand \<Rightarrow> ''expand'')),
      (''records'', JInt (int (rd_records rd))), (''logical_bytes'', JInt (int (length (records_bytes rd)))),
      (''logical_sha256'', JStr (sha256 (records_bytes rd))), (''input_storage_bytes'', JInt (int input_size)),
      (''output_storage_bytes'', JInt (int output_size)), (''authorization_effect'', JStr ''NONE'')]"

text \<open>After the rename every error is reported as uncertain durability.\<close>

definition published :: "string \<Rightarrow> nat \<Rightarrow> nat \<Rightarrow> stat \<Rightarrow> nat io" where
  "published p parent_fd target encoded os w =
     (case bind_io (fsync parent_fd) (\<lambda>_. bind_io (lstat p) (\<lambda>now. bind_io (fstat target) (\<lambda>held.
         then_io (private_file now)
         (then_io (guard_io (maintenance_identity now = maintenance_identity held \<and>
             st_dev now = st_dev encoded \<and> st_ino now = st_ino encoded)
           (MaintenanceError ''OMS_MAINTENANCE_PUBLISHED_IDENTITY_CHANGED''))
         (return_io (st_size now)))))) os w of
        (Inl e, w') \<Rightarrow> (Inl DURABILITY_UNCERTAIN, w')
      | (Inr n, w') \<Rightarrow> (Inr n, w'))"

definition fill_and_check ::
  "'d zlib \<Rightarrow> 'e encoder \<Rightarrow> mode \<Rightarrow> string \<Rightarrow> string \<Rightarrow> nat \<Rightarrow> nat \<Rightarrow> nat \<Rightarrow> stat \<Rightarrow> budgets \<Rightarrow> (reader \<times> stat) io"
where
  "fill_and_check z enc md p temp parent_fd fd target prior b =
     bind_io (read_fd fd) (\<lambda>data.
     bind_io (write_records z enc md (Some target) data (st_size prior) b) (\<lambda>rd.
     then_io (revalidate_source p parent_fd fd prior)
     (then_io (fsync target)
     (bind_io (fstat target) (\<lambda>encoded.
     then_io (private_file encoded)
     (bind_io (read_back z target encoded b) (\<lambda>rd'.
     then_io (guard_io (same_records rd rd') (MaintenanceError ''OMS_MAINTENANCE_BYTE_IDENTITY_MISMATCH''))
     (then_io (revalidate_source p parent_fd fd prior)
     (bind_io (fstat target) (\<lambda>held. bind_io (lstat temp) (\<lambda>named.
     then_io (guard_io (maintenance_identity held = maintenance_identity encoded \<and>
         maintenance_identity named = maintenance_identity encoded)
       (MaintenanceError ''OMS_MAINTENANCE_OUTPUT_CHANGED''))
     (return_io (rd, encoded)))))))))))))"

text \<open>The temporary file is removed, unless another file has taken its name.\<close>

definition discard_temp :: "string \<Rightarrow> nat \<times> nat \<Rightarrow> unit io" where
  "discard_temp temp ident =
     catch_io (\<lambda>e. e = not_found)
       (bind_io (lstat temp) (\<lambda>remaining.
        if (st_dev remaining, st_ino remaining) = ident then os_unlink temp else return_io ())) (return_io ())"

text \<open>The new file already has mode \<open>0o600\<close>.\<close>

definition os_fchmod :: "nat \<Rightarrow> unit io" where
  "os_fchmod fd = sysc (\<lambda>os n s. (Inr (), s))"

definition rewrite :: "'d zlib \<Rightarrow> 'e encoder \<Rightarrow> mode \<Rightarrow> string \<Rightarrow> nat \<Rightarrow> nat \<Rightarrow> stat \<Rightarrow> budgets \<Rightarrow> dict io" where
  "rewrite z enc md p parent_fd fd prior b =
     bind_io uuid4 (\<lambda>u.
     let temp = with_name p (CHR ''.'' # path_name p @ ''.oms-rewrite-'' @ u) in
     bind_io (create_excl temp) (\<lambda>target.
     then_io (os_fchmod target) (then_io (flock target)
     (bind_io (fstat target) (\<lambda>meta.
     bind_io (on_error_io
       (bind_io (fill_and_check z enc md p temp parent_fd fd target prior b) (\<lambda>(rd, encoded).
        then_io (os_replace temp p) (return_io (rd, encoded))))
       (discard_temp temp (st_dev meta, st_ino meta))) (\<lambda>(rd, encoded).
     bind_io (published p parent_fd target encoded) (\<lambda>output_size.
     return_io (maintenance_result md rd (st_size prior) output_size))))))))"

definition inspect :: "'d zlib \<Rightarrow> 'e encoder \<Rightarrow> string \<Rightarrow> nat \<Rightarrow> nat \<Rightarrow> stat \<Rightarrow> budgets \<Rightarrow> dict io" where
  "inspect z enc p parent_fd fd prior b =
     bind_io (read_fd fd) (\<lambda>data.
     bind_io (write_records z enc Inspect None data (st_size prior) b) (\<lambda>rd.
     then_io (revalidate_source p parent_fd fd prior)
     (return_io (maintenance_result Inspect rd (st_size prior) (st_size prior)))))"

definition transform :: "'d zlib \<Rightarrow> 'e encoder \<Rightarrow> string \<Rightarrow> mode \<Rightarrow> bool \<Rightarrow> budgets \<Rightarrow> dict io" where
  "transform z enc p md stopped b =
     then_io (guard_io (md = Inspect \<or> stopped) (MaintenanceError ''OMS_MAINTENANCE_STOP_ALL_WRITERS_REQUIRED''))
     (bind_io (trusted_parent p) (\<lambda>parent_fd.
      bind_io (open_read p) (\<lambda>fd.
      bind_io (fstat fd) (\<lambda>st0. then_io (private_file st0)
      (then_io (flock fd)
      (bind_io (fstat fd) (\<lambda>prior. then_io (private_file prior)
      (then_io (revalidate_source p parent_fd fd prior)
      (if md = Inspect then inspect z enc p parent_fd fd prior b
       else rewrite z enc md p parent_fd fd prior b)))))))))"

subsection \<open>Command line of the replay verifier\<close>

definition SCHEMA_FIELD :: string where "SCHEMA_FIELD = ''schema_version''"

definition below_minimum :: "int \<Rightarrow> event \<Rightarrow> bool" where
  "below_minimum minimum ev \<longleftrightarrow> int_field ev SCHEMA_FIELD 1 < minimum"

definition capacity_check :: "int \<Rightarrow> string list \<Rightarrow> event list \<Rightarrow> unit res" where
  "capacity_check minimum required evs =
     bind_res (guard_res (list_all (\<lambda>ev. \<not> below_minimum minimum ev) evs)
       (JournalError ''record below required minimum schema'')) (\<lambda>_.
     guard_res (list_all (\<lambda>r. r \<in> set (map (\<lambda>ev. str_field ev ''event'') evs)) required)
       (JournalError ''required event types missing''))"

type_synonym replay_result = "(string \<times> nat) list \<times> (int \<times> dict) list \<times> nat"

definition missing_events :: "string list \<Rightarrow> replay_result \<Rightarrow> string list" where
  "missing_events required rs = sort (remdups (filter (\<lambda>r. r \<notin> set (map fst (fst rs))) required))"

definition replay_check :: "int \<Rightarrow> string list \<Rightarrow> event list \<Rightarrow> replay_result res" where
  "replay_check minimum required evs =
     (let below = filter (below_minimum minimum) evs in
      bind_res (guard_res (below = [])
        (JournalError (''events below minimum schema at lines '' @
           join_with (CHR '','') (map (\<lambda>ev. str_of_int (int_field ev ''_line'' 0)) (take 20 below))))) (\<lambda>_.
      let rs = replay evs; missing = missing_events required rs in
      bind_res (guard_res (missing = [])
        (JournalError (''required event types missing: '' @ comma_sep missing))) (\<lambda>_.
      Inr rs)))"

text \<open>The exit status and the lines printed.\<close>

definition tally :: "int list \<Rightarrow> (int \<times> nat) list" where
  "tally xs = map (\<lambda>x. (x, count_list xs x)) (sort (remdups xs))"

definition count_json :: "(string \<times> nat) list \<Rightarrow> string" where
  "count_json cs =
     ''{'' @ join_with (CHR '','') (map (\<lambda>(k, n). dump_str k @ CHR '':'' # str_nat n) cs) @ ''}''"

definition summary_lines :: "event list \<Rightarrow> replay_result \<Rightarrow> string list" where
  "summary_lines evs rs =
     [''events_total='' @ str_nat (length evs),
      ''events_unique='' @ str_nat (sum_list (map snd (fst rs))),
      ''duplicates_skipped='' @ str_nat (snd (snd rs)),
      ''schema_counts='' @ count_json (map (\<lambda>(v, n). (str_of_int v, n)) (tally (map (\<lambda>ev. int_field ev SCHEMA_FIELD 1) evs))),
      ''event_counts='' @ count_json (sort_key fst (fst rs)),
      ''replayed_orders='' @ str_nat (length (fst (snd rs))),
      ''[OMS] PASS'']"

text \<open>The metrics \<open>read_records\<close> collects, with the budgets.\<close>

definition metrics_json :: "'d zlib \<Rightarrow> observation \<Rightarrow> budgets \<Rightarrow> metrics \<Rightarrow> json" where
  "metrics_json z ob b m =
     JDict [(''bytes'', JInt (int (decoded_bytes z (ob_data ob) (st_size (ob_before ob)) b))),
       (''records'', JInt (int (m_records m))), (''largest_record_bytes'', JInt (int (m_largest_record_bytes m))),
       (''storage_bytes'', JInt (int (st_size (ob_before ob)))), (''gzip_storage'', JBool (gzip_magic (ob_data ob))),
       (''limits'', JDict [(''bytes'', JInt (int (bytes_budget b))), (''records'', JInt (int (records_budget b))),
          (''record_bytes'', JInt (int (record_bytes_budget b)))]),
       (''warning_at_80_percent'', JBool (m_warning_at_80_percent m)),
       (''paper_authorized'', JBool False), (''live_authorized'', JBool False)]"

record verify_args =
  va_minimum :: int
  va_required :: "string list"
  va_budgets :: budgets
  va_capacity :: bool

definition verify_run :: "'d zlib \<Rightarrow> verify_args \<Rightarrow> observation res \<Rightarrow> string list res" where
  "verify_run z a opened =
     (if va_capacity a then
        bind_res (read_records z opened (va_budgets a)) (\<lambda>(evs, m).
        bind_res (capacity_check (va_minimum a) (va_required a) evs) (\<lambda>_.
        bind_res opened (\<lambda>ob. Inr [dumps (metrics_json z ob (va_budgets a) m)])))
      else
        bind_res (load_events z opened (va_budgets a)) (\<lambda>evs.
        bind_res (replay_check (va_minimum a) (va_required a) evs) (\<lambda>rs.
        Inr (summary_lines evs rs))))"

text \<open>Only a \<open>JournalError\<close> is reported; the exit status 2 is also that of a bad argument.\<close>

definition verify_main :: "'d zlib \<Rightarrow> verify_args \<Rightarrow> observation res \<Rightarrow> (nat \<times> string list) res" where
  "verify_main z a opened =
     (if va_minimum a < 1 \<or> CURRENT_SCHEMA < va_minimum a then Inr (2, [])
      else case verify_run z a opened of
        Inr ls \<Rightarrow> Inr (0, ls)
      | Inl (JournalError m) \<Rightarrow> Inr (2, [''[OMS] FAIL: '' @ m])
      | Inl e \<Rightarrow> Inl e)"

end
