(* ===== verification/File_Safety.thy ===== *)
theory File_Safety
  imports Gen_Files
begin

section \<open>What the file helpers guarantee\<close>

text \<open>
  The helpers that read leave the file system alone; the helpers that write create new files and
  replace one name at most. A file is \<open>stored\<close> when its name leads to a synced file with the
  given content. \<open>write_all\<close> appends its whole argument or fails after some bytes of it, and
  \<open>atomic_bytes\<close> leaves the old file or the new one, wherever it is interrupted.
\<close>

subsection \<open>Readers\<close>

lemma runs_json:
  assumes "v = JNull \<Longrightarrow> runs R a" "\<And>b. v = JBool b \<Longrightarrow> runs R (f1 b)" "\<And>i. v = JInt i \<Longrightarrow> runs R (f2 i)"
    "\<And>x. v = JFloat x \<Longrightarrow> runs R (f3 x)" "\<And>s. v = JStr s \<Longrightarrow> runs R (f4 s)"
    "\<And>xs. v = JList xs \<Longrightarrow> runs R (f5 xs)" "\<And>d. v = JDict d \<Longrightarrow> runs R (f6 d)"
  shows "runs R (case_json a f1 f2 f3 f4 f5 f6 v)"
  using assms by (cases v) simp_all

lemmas reads_rules = rd.runs_rules runs_cases runs_json

lemma reads_readers [reads_calls]:
  "reads (require_private st e)" "reads (require_private_directory st e)" "reads (check_identity st fd p e)"
  "reads (sha256_file p)" "reads (load_json_private p)" "reads (read_private_bytes maximum p)"
  "reads (read_current p)" "reads (verify_index p v)" "reads (verify_runtime_index p v)"
  "reads (file_digests gdir ns)" "reads (new_generation tag)"
  by (unfold require_private_def require_private_directory_def check_identity_def sha256_file_def
      load_json_private_def read_private_bytes_def read_current_def verify_index_def verify_runtime_index_def
      file_digests_def new_generation_def Let_def, (intro reads_rules reads_calls)+)

subsection \<open>Writers\<close>

lemma keeps_write_all: "fd \<in> F \<Longrightarrow> leaves A F (write_all fd view)"
proof (rule runsI)
  fix os w assume "fd \<in> F" "quiet os"
  then show "kept A F (w_fs w) (w_fs (snd (write_all fd view os w)))"
  proof (induction fd view os w rule: write_all.induct)
    case (1 fd view os w)
    show ?case
    proof (cases "view = []")
      case True
      then show ?thesis by (simp add: write_all.simps kept_refl)
    next
      case False
      obtain r w1 where o: "os_write fd view os w = (r, w1)" by force
      have k: "kept A F (w_fs w) (w_fs w1)" using keeps_os_write 1(2,3) o by (metis runsD)
      show ?thesis
      proof (cases r)
        case (Inl e)
        then show ?thesis using False o k by (subst write_all.simps) simp
      next
        case (Inr n)
        show ?thesis
        proof (cases "n = 0")
          case True
          then show ?thesis using False o k Inr by (subst write_all.simps) simp
        next
          case nz: False
          have "kept A F (w_fs w1) (w_fs (snd (write_all fd (drop n view) os w1)))"
            using 1(1) [OF False o [symmetric] Inr nz] 1(2,3) by simp
          then show ?thesis using False o k Inr nz by (subst write_all.simps) (simp add: kept_trans)
        qed
      qed
    qed
  qed
qed

subsection \<open>Content\<close>

lemma os_write_content:
  assumes w: "os_write fd view os w = (Inr k, w')" and q: "quiet os" and nd: "map_of (nodes (w_fs w)) fd = Some nd"
  shows "k \<le> length view \<and>
    (\<exists>nd'. map_of (nodes (w_fs w')) fd = Some nd' \<and> n_data nd' = n_data nd @ take k view)"
  using w q unfolding os_write_def
proof (cases rule: sysc_cases)
  case (call n)
  then have "k = min (accepted os n) (length view)"
    and "w_fs w' = update_node fd (\<lambda>nd. nd\<lparr>n_data := n_data nd @ take k view, n_synced := False,
        n_stat := touched os n (n_stat nd)\<rparr>) (w_fs w)"
    by (auto simp: Let_def)
  then show ?thesis using nd by (simp add: update_node_nodes)
qed simp

lemma os_write_failed: "os_write fd view os w = (Inl e, w') \<Longrightarrow> quiet os \<Longrightarrow> w_fs w' = w_fs w"
  unfolding os_write_def by (erule sysc_cases) (auto simp: Let_def)

text \<open>The bytes that have reached the file are a prefix of the argument, all of it on success.\<close>

lemma write_all_content:
  assumes "write_all fd view os w = (r, w')" and "quiet os" and "map_of (nodes (w_fs w)) fd = Some nd"
  shows "\<exists>nd' k. map_of (nodes (w_fs w')) fd = Some nd' \<and> n_data nd' = n_data nd @ take k view \<and>
    (r = Inr () \<longrightarrow> length view \<le> k)"
  using assms
proof (induction fd view os w arbitrary: nd rule: write_all.induct)
  case (1 fd view os w)
  show ?case
  proof (cases "view = []")
    case True
    then show ?thesis using 1 by (auto simp: write_all.simps)
  next
    case False
    obtain r1 w1 where o: "os_write fd view os w = (r1, w1)" by force
    show ?thesis
    proof (cases r1)
      case (Inl e)
      then have "r = Inl e" "w_fs w' = w_fs w"
        using 1(2) False o os_write_failed [of fd view os w e w1] 1(3) by (subst (asm) write_all.simps; simp)+
      then show ?thesis using 1(4) by (metis append_Nil2 sum.distinct(1) take0)
    next
      case (Inr n)
      obtain nd1 where n: "n \<le> length view"
        and nd1: "map_of (nodes (w_fs w1)) fd = Some nd1" "n_data nd1 = n_data nd @ take n view"
        using os_write_content [OF o [unfolded Inr] 1(3,4)] by blast
      show ?thesis
      proof (cases "n = 0")
        case True
        then have "r = Inl (OSError ''OSError'')" "w' = w1"
          using 1(2) False o Inr by (subst (asm) write_all.simps; simp)+
        then show ?thesis using nd1 by blast
      next
        case nz: False
        have "write_all fd (drop n view) os w1 = (r, w')"
          using 1(2) False o Inr nz by (subst (asm) write_all.simps) simp
        then obtain nd' k where nd': "map_of (nodes (w_fs w')) fd = Some nd'"
          "n_data nd' = n_data nd1 @ take k (drop n view)" "r = Inr () \<longrightarrow> length (drop n view) \<le> k"
          using 1(1) [OF False o [symmetric] Inr nz _ 1(3) nd1(1)] by blast
        have "n_data nd' = n_data nd @ take (n + k) view"
          using nd' nd1 by (simp add: take_add)
        moreover have "r = Inr () \<longrightarrow> length view \<le> n + k" using nd'(3) by auto
        ultimately show ?thesis using nd'(1) by blast
      qed
    qed
  qed
qed

text \<open>A body that appends \<open>d\<close> to the open file when it succeeds.\<close>

definition appends :: "(nat \<Rightarrow> 'a io) \<Rightarrow> string \<Rightarrow> bool" where
  "appends body d \<longleftrightarrow> (\<forall>fd os w x w' nd. quiet os \<longrightarrow> body fd os w = (Inr x, w') \<longrightarrow>
     map_of (nodes (w_fs w)) fd = Some nd \<longrightarrow>
     (\<exists>nd'. map_of (nodes (w_fs w')) fd = Some nd' \<and> n_data nd' = n_data nd @ d))"

lemma appends_write_all: "appends (\<lambda>fd. write_all fd d) d"
  unfolding appends_def
proof (intro allI impI)
  fix fd os w and x :: unit and w' nd
  assume "quiet os" "write_all fd d os w = (Inr x, w')" "map_of (nodes (w_fs w)) fd = Some nd"
  then show "\<exists>nd'. map_of (nodes (w_fs w')) fd = Some nd' \<and> n_data nd' = n_data nd @ d"
    using write_all_content [of fd d os w "Inr x" w' nd] by (metis (full_types) old.unit.exhaust take_all)
qed

lemma appends_return: "appends (\<lambda>fd. return_io x) []"
  by (simp add: appends_def return_io_def)

lemma appends_bind_pure:
  assumes "\<And>x. r = Inr x \<Longrightarrow> appends (\<lambda>fd. f x fd) d"
  shows "appends (\<lambda>fd. bind_io (lift_io r) (\<lambda>x. f x fd)) d"
  using assms by (cases r) (auto simp: appends_def bind_io_def lift_io_def)

lemma appends_then:
  assumes a: "appends a d" and b: "appends b e"
  shows "appends (\<lambda>fd. then_io (a fd) (b fd)) (d @ e)"
  unfolding appends_def
proof (intro allI impI)
  fix fd os w x w' nd
  assume q: "quiet os" and r: "then_io (a fd) (b fd) os w = (Inr x, w')"
    and nd: "map_of (nodes (w_fs w)) fd = Some nd"
  from r obtain y w1 where 1: "a fd os w = (Inr y, w1)" and 2: "b fd os w1 = (Inr x, w')" by (rule then_io_InrE)
  obtain nd1 where n1: "map_of (nodes (w_fs w1)) fd = Some nd1" "n_data nd1 = n_data nd @ d"
    using a q 1 nd unfolding appends_def by blast
  obtain nd2 where n2: "map_of (nodes (w_fs w')) fd = Some nd2" "n_data nd2 = n_data nd1 @ e"
    using b q 2 n1(1) unfolding appends_def by blast
  then show "\<exists>nd'. map_of (nodes (w_fs w')) fd = Some nd' \<and> n_data nd' = n_data nd @ d @ e" using n1 by simp
qed

lemma appends_fold:
  assumes "\<And>x. x \<in> set xs \<Longrightarrow> appends (\<lambda>fd. f fd x) (g x)"
  shows "appends (\<lambda>fd. fold_io (\<lambda>_ x. f fd x) () xs) (concat (map g xs))"
  using assms
proof (induction xs)
  case (Cons x xs)
  have "appends (\<lambda>fd. then_io (f fd x) (fold_io (\<lambda>_ x. f fd x) () xs)) (g x @ concat (map g xs))"
    using Cons by (intro appends_then) simp_all
  then show ?case by (simp add: then_io_def)
qed (simp add: appends_return)

subsection \<open>Stored files\<close>

definition stored :: "fs \<Rightarrow> string \<Rightarrow> string \<Rightarrow> bool" where
  "stored s p d = (case lookup_node s p of None \<Rightarrow> False | Some (i, nd) \<Rightarrow> n_data nd = d \<and> n_synced nd)"

lemma storedE:
  assumes "stored s p d"
  obtains i nd where "lookup_node s p = Some (i, nd)" "n_data nd = d" "n_synced nd"
  using assms by (auto simp: stored_def split: option.splits)

lemma storedI: "lookup_node s p = Some (i, nd) \<Longrightarrow> n_data nd = d \<Longrightarrow> n_synced nd \<Longrightarrow> stored s p d"
  by (simp add: stored_def)

lemma stored_kept:
  assumes s: "stored s p d" and k: "kept A {} s t" and p: "p \<notin> A"
  shows "stored t p d"
proof -
  obtain i nd where nd: "lookup_node s p = Some (i, nd)" "n_data nd = d" "n_synced nd" using s by (rule storedE)
  obtain nd' where "lookup_node t p = Some (i, nd')" "same_content nd nd'" using kept_lookup [OF k p nd(1)] by blast
  then show ?thesis using nd by (auto simp: same_content_def intro!: storedI)
qed

lemma os_fsync_InrE:
  assumes "os_fsync fd os w = (Inr x, w')" and "quiet os"
  shows "w_fs w' = update_node fd (\<lambda>nd. nd\<lparr>n_synced := True\<rparr>) ((w_fs w)\<lparr>durable := entries_of (w_fs w) fd @ durable (w_fs w)\<rparr>)"
  using assms unfolding os_fsync_def by (cases rule: sysc_cases) auto

lemma create_excl_cases:
  assumes "create_excl p os w = (r, w')" and "quiet os"
  obtains (failed) e where "r = Inl e" "w_fs w' = w_fs w"
    | (created) st where "r = Inr (fresh_node (w_fs w))" "map_of (names (w_fs w)) p = None"
        "is_dir_at (w_fs w) (path_parent p)"
        "w_fs w' = add_node p \<lparr>n_stat = st, n_data = [], n_synced = False\<rparr> (w_fs w)"
  using assms unfolding create_excl_def by (rule create_node_cases)

text \<open>After \<open>create_synced\<close> the file has the content its body wrote.\<close>

lemma create_synced_stored:
  assumes r: "create_synced p body os w = (Inr x, w')" and q: "quiet os"
    and f: "appends body d" and k: "\<And>fd. leaves {} {fd} (body fd)"
  shows "stored (w_fs w') p d"
proof -
  from r obtain fd w1 y w2 where c: "create_excl p os w = (Inr fd, w1)"
    and b: "body fd os w1 = (Inr y, w2)" and s: "os_fsync fd os w2 = (Inr x, w')"
    unfolding create_synced_def fsync_def by (elim bind_io_InrE then_io_InrE)
  from c q obtain nd1 where n1: "map_of (names (w_fs w1)) p = Some fd" "map_of (nodes (w_fs w1)) fd = Some nd1" "n_data nd1 = []"
    by (cases rule: create_excl_cases) (auto simp: add_node_def)
  obtain nd2 where n2: "map_of (nodes (w_fs w2)) fd = Some nd2" "n_data nd2 = d"
    using f q b n1 unfolding appends_def by fastforce
  have "map_of (names (w_fs w2)) p = Some fd" using runsD [OF k q b] kept_name n1(1) by blast
  then have "lookup_node (w_fs w') p = Some (fd, nd2\<lparr>n_synced := True\<rparr>)"
    using os_fsync_InrE [OF s q] n2 by (simp add: lookup_node_def update_node_nodes)
  then show ?thesis using n2 by (auto intro!: storedI)
qed

lemmas keeps_rules =
  kp.runs_rules runs_cases runs_json keeps_write_all keeps_os_write keeps_os_fsync keeps_os_replace keeps_os_unlink
  keeps_os_rmdir

lemma keeps_fsync: "leaves A F (fsync fd)"
  by (simp add: fsync_def keeps_os_fsync)

lemma keeps_create_excl:
  "(\<And>fd. leaves (insert p A) (insert fd F) (body fd)) \<Longrightarrow> leaves A F (bind_io (create_excl p) body)"
  unfolding create_excl_def by (rule runs_create)

lemma keeps_create_synced:
  "(\<And>fd. leaves (insert p A) (insert fd F) (body fd)) \<Longrightarrow> leaves A F (create_synced p body)"
  unfolding create_synced_def by (intro keeps_create_excl keeps_rules keeps_fsync)

lemma keeps_mkdir: "leaves A F (mkdir p)"
  unfolding mkdir_def by (intro keeps_rules keeps_create)

lemma keeps_mkdir_exist_ok: "leaves A F (mkdir_exist_ok p)"
proof (rule runsI)
  fix os w assume q: "quiet os"
  obtain r w1 where m: "mkdir p os w = (r, w1)" by force
  obtain r2 w2 where d: "path_is_dir p os w1 = (r2, w2)" by force
  have "kept A F (w_fs w) (w_fs w1)" using keeps_mkdir q m by (rule runsD)
  moreover have "w_fs w2 = w_fs w1" using reads_syscalls(7) q d by (rule readsD)
  ultimately show "kept A F (w_fs w) (w_fs (snd (mkdir_exist_ok p os w)))"
    using m d by (auto simp: mkdir_exist_ok_def split: sum.splits)
qed

lemma keeps_write_rows: "leaves A F (write_rows encode p rows)"
  unfolding write_rows_def by (intro keeps_create_synced keeps_rules) simp

lemma keeps_write_hot_replay: "leaves A F (write_hot_replay max_record p rows)"
  unfolding write_hot_replay_def Let_def by (intro keeps_create_synced keeps_rules) simp

lemma keeps_durable_directory: "leaves A F (durable_directory p)"
  unfolding durable_directory_def by (intro keeps_rules keeps_fsync reads_calls [THEN reads_keeps])

lemma path_split_length: "length p \<le> Suc (length (path_parent p) + length (path_name p))"
proof -
  have "length (takeWhile (\<lambda>c. c \<noteq> SLASH) (rev p)) + length (dropWhile (\<lambda>c. c \<noteq> SLASH) (rev p)) = length p"
    by (metis length_append length_rev takeWhile_dropWhile_id)
  then show ?thesis by (simp add: path_parent_def path_name_def)
qed

lemma with_name_longer: "length (path_name p) < length n \<Longrightarrow> with_name p n \<noteq> p"
  using path_split_length [of p] by (auto simp: with_name_def dest!: arg_cong [where f = length])

lemma keeps_atomic_bytes: "p \<in> A \<Longrightarrow> leaves A F (atomic_bytes p d)"
  unfolding atomic_bytes_def create_synced_def Let_def then_io_def bind_assoc
  by (intro keeps_create_excl keeps_rules keeps_fsync reads_calls [THEN reads_keeps]) simp_all

lemma keeps_atomic_json: "p \<in> A \<Longrightarrow> leaves A F (atomic_json p v)"
  by (simp add: atomic_json_def keeps_atomic_bytes)

lemma os_replace_cases:
  assumes "os_replace src dst os w = (r, w')" and "quiet os"
  obtains (failed) e where "r = Inl e" "w_fs w' = w_fs w"
    | (renamed) i where "r = Inr ()" "map_of (names (w_fs w)) src = Some i"
        "w_fs w' = (w_fs w)\<lparr>names := (dst, i) # AList.delete dst (AList.delete src (names (w_fs w))),
           durable := removeAll src (removeAll dst (durable (w_fs w)))\<rparr>"
  using assms unfolding os_replace_def
proof (cases rule: sysc_cases)
  case (fault e)
  then show ?thesis by (rule failed)
next
  case (call n)
  show ?thesis
  proof (cases "map_of (names (w_fs w)) src")
    case None
    then show ?thesis using call failed by auto
  next
    case (Some i)
    then show ?thesis using call failed renamed by (auto split: if_splits)
  qed
qed

text \<open>No call of \<open>create_synced\<close> changes another name.\<close>

definition same_name :: "string \<Rightarrow> fs \<Rightarrow> fs \<Rightarrow> bool" where
  "same_name p s t \<longleftrightarrow> map_of (names t) p = map_of (names s) p"

interpretation nm: io_relation "same_name p" for p
  by unfold_locales (simp_all add: same_name_def)

lemma same_name_os_write: "runs (same_name p) (os_write fd d)"
  unfolding os_write_def by (rule nm.runs_sysc) (simp add: same_name_def Let_def)

lemma same_name_fsync: "runs (same_name p) (fsync fd)"
  unfolding fsync_def os_fsync_def by (rule nm.runs_sysc) (simp add: same_name_def)

lemma same_name_create: "p \<noteq> q \<Longrightarrow> runs (same_name p) (create_node mode links q)"
  unfolding create_node_def by (rule nm.runs_sysc) (simp add: same_name_def add_node_def)

lemma same_name_write_all: "runs (same_name p) (write_all fd view)"
proof (rule runsI)
  fix os w assume "quiet os"
  then show "same_name p (w_fs w) (w_fs (snd (write_all fd view os w)))"
  proof (induction fd view os w rule: write_all.induct)
    case (1 fd view os w)
    obtain r w1 where o: "os_write fd view os w = (r, w1)" by force
    have "same_name p (w_fs w) (w_fs w1)" using same_name_os_write 1(2) o by (rule runsD)
    then show ?case
      using 1(1) [OF _ o [symmetric] _ _ 1(2)] o
      by (subst write_all.simps) (auto simp: same_name_def split: sum.splits)
  qed
qed

lemma same_name_create_synced: "p \<noteq> q \<Longrightarrow> runs (same_name p) (create_synced q (\<lambda>fd. write_all fd d))"
  unfolding create_synced_def create_excl_def
  by (intro nm.runs_rules same_name_create same_name_write_all same_name_fsync)

text \<open>Replacing a name by a stored temporary file.\<close>

lemma replace_stored:
  assumes r: "os_replace src dst os w = (r, w')" and q: "quiet os" and s: "stored (w_fs w) src d" and ne: "src \<noteq> dst"
  shows "(\<exists>e. r = Inl e \<and> w_fs w' = w_fs w) \<or> (r = Inr () \<and> stored (w_fs w') dst d)"
  using r q
proof (cases rule: os_replace_cases)
  case (failed e)
  then show ?thesis by blast
next
  case (renamed i)
  obtain nd where "lookup_node (w_fs w) src = Some (i, nd)" "n_data nd = d" "n_synced nd"
    using s renamed(2) by (metis storedE lookup_nodeD option.inject)
  then have "stored (w_fs w') dst d"
    using renamed(3) by (intro storedI [where i = i and nd = nd] lookup_nodeI) (auto dest: lookup_nodeD)
  then show ?thesis using renamed(1) by blast
qed

definition temp_of :: "string \<Rightarrow> string \<Rightarrow> string" where
  "temp_of p u = with_name p (CHR ''.'' # path_name p @ CHR ''.'' # u @ ''.tmp'')"

lemma atomic_bytes_outcome:
  assumes r: "atomic_bytes p d os w = (r, w')" and q: "quiet os"
  shows "(\<exists>e. r = Inl e \<and> map_of (names (w_fs w')) p = map_of (names (w_fs w)) p) \<or> (r = Inr () \<and> stored (w_fs w') p d)"
proof -
  obtain ru w1 where u: "uuid4 os w = (ru, w1)" by force
  have w1: "w_fs w1 = w_fs w" using reads_syscalls(11) q u by (rule readsD)
  show ?thesis
  proof (cases ru)
    case (Inl e)
    then show ?thesis using r u w1 by (auto simp: atomic_bytes_def bind_io_def)
  next
    case (Inr v)
    have ne: "temp_of p v \<noteq> p" unfolding temp_of_def by (rule with_name_longer) simp
    obtain rc w2 where c: "create_synced (temp_of p v) (\<lambda>fd. write_all fd d) os w1 = (rc, w2)" by force
    have sn: "map_of (names (w_fs w2)) p = map_of (names (w_fs w)) p"
      using runsD [OF same_name_create_synced q c, of p] ne w1 by (simp add: same_name_def)
    show ?thesis
    proof (cases rc)
      case (Inl e)
      then show ?thesis using r u Inr c sn by (auto simp: atomic_bytes_def Let_def temp_of_def then_io_def bind_io_def)
    next
      case rc: (Inr x)
      have "stored (w_fs w2) (temp_of p v) d"
        by (rule create_synced_stored [OF c [unfolded rc] q appends_write_all]) (intro keeps_rules, simp)
      moreover have "os_replace (temp_of p v) p os w2 = (r, w')"
        using r u Inr c rc by (simp add: atomic_bytes_def Let_def temp_of_def then_io_def bind_io_def)
      ultimately show ?thesis using replace_stored q ne sn by metis
    qed
  qed
qed

lemma atomic_bytes_stored: "atomic_bytes p d os w = (Inr x, w') \<Longrightarrow> quiet os \<Longrightarrow> stored (w_fs w') p d"
  using atomic_bytes_outcome by blast

text \<open>Syncing a directory makes its entries durable.\<close>

lemma open_dir_InrE:
  assumes "open_dir p os w = (Inr fd, w')" and "quiet os"
  shows "map_of (names (w_fs w)) p = Some fd \<and> w_fs w' = w_fs w"
  using assms unfolding open_dir_def open_node_def
  by (cases rule: sysc_cases) (auto simp: lookup_node_def split: option.splits if_splits)

lemma durable_directory_entries:
  assumes "durable_directory d os w = (Inr x, w')" and q: "quiet os"
    and p: "map_of (names (w_fs w)) p = Some i" "path_parent p = d"
  shows "p \<in> set (durable (w_fs w'))"
proof -
  from assms(1) obtain fd w1 where o: "open_dir d os w = (Inr fd, w1)" and f: "os_fsync fd os w1 = (Inr x, w')"
    unfolding durable_directory_def fsync_def by (rule bind_io_InrE)
  have "p \<in> set (entries_of (w_fs w1) fd)"
    using open_dir_InrE [OF o q] p map_of_SomeD [OF p(1)] by (force simp: entries_of_def image_iff)
  then show ?thesis using os_fsync_InrE [OF f q] by simp
qed

lemma keeps_publish_current:
  "path_join store ''CURRENT'' \<in> A \<Longrightarrow> path_join store ''CURRENT.runtime'' \<in> A \<Longrightarrow>
   leaves A F (publish_current store g md rdg)"
  unfolding publish_current_def
  by (intro keeps_rules keeps_atomic_json keeps_atomic_bytes keeps_durable_directory reads_calls [THEN reads_keeps])

subsection \<open>Several open files\<close>

definition placed :: "fs \<Rightarrow> string \<Rightarrow> nat \<Rightarrow> string \<Rightarrow> bool" where
  "placed s p i d \<longleftrightarrow> (\<exists>nd. lookup_node s p = Some (i, nd) \<and> n_data nd = d)"

lemma placed_kept:
  assumes "placed s p i d" and k: "kept A F s t" and p: "p \<notin> A" and i: "i \<notin> F"
  shows "placed t p i d"
proof -
  obtain nd where nd: "lookup_node s p = Some (i, nd)" "n_data nd = d" using assms(1) by (auto simp: placed_def)
  obtain nd' where "lookup_node t p = Some (i, nd')" "same_content nd nd'" using kept_lookup [OF k p nd(1) i] by blast
  then show ?thesis using nd(2) by (auto simp: placed_def same_content_def)
qed

lemma stored_placed: "stored s p d \<Longrightarrow> \<exists>i. placed s p i d"
  by (auto simp: placed_def elim!: storedE)

lemma placed_create:
  assumes c: "create_excl p os w = (Inr fd, w')" and q: "quiet os"
  shows "placed (w_fs w') p fd []" and "placed (w_fs w) r i d \<Longrightarrow> placed (w_fs w') r i d \<and> i \<noteq> fd"
proof -
  have *: "fd = fresh_node (w_fs w) \<and> map_of (names (w_fs w)) p = None \<and>
    (\<exists>st. w_fs w' = add_node p \<lparr>n_stat = st, n_data = [], n_synced = False\<rparr> (w_fs w))"
    using c q by (cases rule: create_excl_cases) auto
  then show "placed (w_fs w') p fd []" by (auto simp: placed_def lookup_node_def add_node_def)
  assume pl: "placed (w_fs w) r i d"
  have "kept {} {} (w_fs w) (w_fs w')" using * by (auto intro: add_node_kept)
  then have "placed (w_fs w') r i d" using pl placed_kept by blast
  moreover have "i \<noteq> fd" using pl * fresh_node_none [of "w_fs w"] by (auto simp: placed_def dest!: lookup_nodeD)
  ultimately show "placed (w_fs w') r i d \<and> i \<noteq> fd" by blast
qed

lemma placed_fills:
  assumes b: "body fd os w = (Inr x, w')" and q: "quiet os" and f: "appends body e" and k: "leaves {} {fd} (body fd)"
  shows "placed (w_fs w) p fd d \<Longrightarrow> placed (w_fs w') p fd (d @ e)"
    and "placed (w_fs w) r i d \<Longrightarrow> i \<noteq> fd \<Longrightarrow> placed (w_fs w') r i d"
proof -
  have kk: "kept {} {fd} (w_fs w) (w_fs w')" using k q b by (rule runsD)
  show "placed (w_fs w') r i d" if "placed (w_fs w) r i d" "i \<noteq> fd" using that kk placed_kept by blast
  assume "placed (w_fs w) p fd d"
  then obtain nd where nd: "map_of (names (w_fs w)) p = Some fd" "map_of (nodes (w_fs w)) fd = Some nd" "n_data nd = d"
    by (auto simp: placed_def dest!: lookup_nodeD)
  obtain nd' where "map_of (nodes (w_fs w')) fd = Some nd'" "n_data nd' = d @ e"
    using f q b nd unfolding appends_def by blast
  moreover have "map_of (names (w_fs w')) p = Some fd" using kk nd(1) by (auto intro: kept_name)
  ultimately show "placed (w_fs w') p fd (d @ e)" by (auto simp: placed_def intro!: lookup_nodeI)
qed

lemmas placed_write = placed_fills [OF _ _ appends_write_all keeps_write_all [OF singletonI]]

lemma placed_fsync:
  assumes "fsync fd os w = (Inr x, w')" and "quiet os"
  shows "placed (w_fs w) p fd d \<Longrightarrow> stored (w_fs w') p d" and "placed (w_fs w) r i d \<Longrightarrow> placed (w_fs w') r i d"
proof -
  have f: "os_fsync fd os w = (Inr x, w')" using assms(1) by (simp add: fsync_def)
  have k: "kept {} {} (w_fs w) (w_fs w')" using keeps_os_fsync assms(2) f by (rule runsD)
  show "placed (w_fs w') r i d" if "placed (w_fs w) r i d" using that k placed_kept by blast
  assume "placed (w_fs w) p fd d"
  then show "stored (w_fs w') p d"
    using os_fsync_InrE [OF f assms(2)]
    by (auto simp: placed_def stored_def lookup_node_def update_node_nodes split: option.splits)
qed

subsection \<open>The files of one directory\<close>

definition filled :: "fs \<Rightarrow> string \<Rightarrow> (string \<rightharpoonup> string) \<Rightarrow> bool" where
  "filled s gdir C \<longleftrightarrow> (\<forall>n d. C n = Some d \<longrightarrow> SLASH \<notin> set n \<and> stored s (path_join gdir n) d)"

lemma filledI_update: "filled s gdir C \<Longrightarrow> SLASH \<notin> set n \<Longrightarrow> stored s (path_join gdir n) d \<Longrightarrow> filled s gdir (C(n \<mapsto> d))"
  by (simp add: filled_def)

lemma filled_kept:
  assumes "filled s gdir C" and "kept A {} s t" and "\<And>n d. C n = Some d \<Longrightarrow> path_join gdir n \<notin> A"
  shows "filled t gdir C"
  unfolding filled_def
proof (intro allI impI)
  fix n d assume "C n = Some d"
  then show "SLASH \<notin> set n \<and> stored t (path_join gdir n) d"
    using assms stored_kept [OF _ assms(2)] unfolding filled_def by blast
qed

lemma filled_atomic:
  assumes f: "filled (w_fs w) gdir C" and a: "atomic_bytes (path_join gdir n) d os w = (Inr x, w')"
    and q: "quiet os" and n: "SLASH \<notin> set n"
  shows "filled (w_fs w') gdir (C(n \<mapsto> d))"
proof -
  have k: "kept {path_join gdir n} {} (w_fs w) (w_fs w')" using keeps_atomic_bytes q a by (rule runsD) simp
  have "filled (w_fs w') gdir (C(n := None))"
  proof (rule filled_kept [OF _ k])
    show "filled (w_fs w) gdir (C(n := None))" using f by (auto simp: filled_def)
    fix k d assume "(C(n := None)) k = Some d"
    then have "k \<noteq> n" "SLASH \<notin> set k" using f by (auto simp: filled_def split: if_splits)
    then show "path_join gdir k \<notin> {path_join gdir n}" using n path_join_eq by blast
  qed
  then have "filled (w_fs w') gdir ((C(n := None))(n \<mapsto> d))"
    using n atomic_bytes_stored [OF a q] by (rule filledI_update)
  then show ?thesis by simp
qed

lemmas filled_atomic_json = filled_atomic [where d = "json_line v" for v, folded atomic_json_def]

lemma filled_create:
  assumes f: "filled (w_fs w) gdir C" and a: "create_synced (path_join gdir n) body os w = (Inr x, w')"
    and q: "quiet os" and n: "SLASH \<notin> set n" and b: "appends body d" and k: "\<And>fd. leaves {} {fd} (body fd)"
  shows "filled (w_fs w') gdir (C(n \<mapsto> d))"
proof -
  have "leaves {} {} (create_synced (path_join gdir n) body)"
    by (rule keeps_create_synced) (rule keeps_mono [OF k], auto)
  then have "kept {} {} (w_fs w) (w_fs w')" using q a by (rule runsD)
  then have "filled (w_fs w') gdir C" using f filled_kept by blast
  then show ?thesis using n create_synced_stored [OF a q b k] by (rule filledI_update)
qed

lemma appends_rows:
  assumes "\<And>r x. encode r = Inr x \<Longrightarrow> g r = x"
  shows "appends (\<lambda>fd. fold_io (\<lambda>_ r. bind_io (lift_io (encode r)) (write_all fd)) () rows) (concat (map g rows))"
proof (rule appends_fold)
  fix r
  show "appends (\<lambda>fd. bind_io (lift_io (encode r)) (write_all fd)) (g r)"
    by (rule appends_bind_pure) (use assms appends_write_all in simp)
qed

subsection \<open>Properties\<close>

lemma write_all_returns:
  assumes "\<And>n. fault os n = None" and "\<And>n. 0 < accepted os n"
  shows "\<exists>w'. write_all fd view os w = (Inr (), w')"
  using assms
proof (induction "length view" arbitrary: view w rule: less_induct)
  case less
  show ?case
  proof (cases "view = []")
    case False
    let ?k = "min (accepted os (w_calls w)) (length view)"
    obtain w1 where o: "os_write fd view os w = (Inr ?k, w1)"
      using less.prems(1) by (auto simp: os_write_def sysc_def Let_def)
    have k: "0 < ?k" using less.prems(2) False by simp
    then have "length (drop ?k view) < length view" using False by simp
    then obtain w' where "write_all fd (drop ?k view) os w1 = (Inr (), w')"
      using less.hyps [of "drop ?k view" w1] less.prems by blast
    then show ?thesis using o k False by (subst write_all.simps) simp
  qed (simp add: write_all.simps)
qed

text \<open>C23. \<open>_write_all\<close> finishes: when no call fails and every \<open>os.write\<close> accepts at least one
byte, however few, the loop ends and the file has its old content followed by all the bytes.\<close>

theorem write_all_completes:
  assumes "\<And>n. fault os n = None" and "\<And>n. 0 < accepted os n" and "quiet os"
    and "map_of (nodes (w_fs w)) fd = Some nd"
  shows "\<exists>w' nd'. write_all fd view os w = (Inr (), w') \<and> map_of (nodes (w_fs w')) fd = Some nd' \<and>
    n_data nd' = n_data nd @ view"
proof -
  obtain w' where w': "write_all fd view os w = (Inr (), w')"
    using write_all_returns assms(1,2) by blast
  then show ?thesis using write_all_content [OF w' assms(3,4)] by (metis take_all)
qed

text \<open>C22. \<open>_atomic_bytes\<close> is all or nothing: wherever it is interrupted, the file either has the
new content, synced before the rename, and every other file is as it was, or all files are as
they were and no file has appeared under the name. Success means the former.\<close>

theorem atomic_bytes_all_or_nothing:
  assumes "quiet os" and "atomic_bytes p d os w = (r, w')"
  shows "(r = Inr () \<and> stored (w_fs w') p d \<or>
     (\<exists>e. r = Inl e) \<and> intact (w_fs w) (w_fs w') p \<and>
       (map_of (names (w_fs w)) p = None \<longrightarrow> map_of (names (w_fs w')) p = None)) \<and>
    (\<forall>q. q \<noteq> p \<longrightarrow> intact (w_fs w) (w_fs w') q)"
proof -
  have k: "kept {p} {} (w_fs w) (w_fs w')" using keeps_atomic_bytes assms by (rule runsD) simp
  have "intact (w_fs w) (w_fs w') p" if n: "map_of (names (w_fs w')) p = map_of (names (w_fs w)) p"
  proof (cases "lookup_node (w_fs w) p")
    case (Some ind)
    obtain i nd where ind: "ind = (i, nd)" by force
    obtain nd' where "map_of (nodes (w_fs w')) i = Some nd'" "same_content nd nd'"
      using kept_node [OF k] lookup_nodeD Some ind by blast
    then show ?thesis using n Some ind by (auto simp: intact_def lookup_node_def split: option.splits)
  qed (simp add: intact_def)
  then show ?thesis using atomic_bytes_outcome [OF assms(2,1)] kept_intact [OF k] by auto
qed

text \<open>A small file system for examples: the journal \<open>/d/j\<close> in a private directory. Every write
  accepts at most four bytes.\<close>

definition sample_stat :: "nat \<Rightarrow> nat \<Rightarrow> stat" where
  "sample_stat i mode =
     \<lparr>st_dev = 0, st_ino = i, st_mode = mode, st_nlink = 1, st_size = 0, st_uid = 7, st_gid = 7, st_mtime_ns = 0, st_ctime_ns = 0\<rparr>"

definition sample_world :: world where
  "sample_world =
     \<lparr>w_fs = \<lparr>names = [([], 0), (''/d'', 1), (''/d/j'', 2)],
        nodes = [(0, \<lparr>n_stat = sample_stat 0 (S_IFDIR + MODE_0700), n_data = [], n_synced = True\<rparr>),
          (1, \<lparr>n_stat = sample_stat 1 (S_IFDIR + MODE_0700), n_data = [], n_synced = True\<rparr>),
          (2, \<lparr>n_stat = sample_stat 2 (S_IFREG + MODE_0600), n_data = ''{}'' @ [LF], n_synced = True\<rparr>)],
        durable = [[], ''/d'', ''/d/j'']\<rparr>, w_calls = 0\<rparr>"

definition sample_os :: "(nat \<Rightarrow> exn option) \<Rightarrow> os" where
  "sample_os f =
     \<lparr>euid = 7, cwd = ''/d'', fault = f, interfere = (\<lambda>n s. s), accepted = (\<lambda>n. 4), clock = (\<lambda>n. n),
      uuid4_hex = (\<lambda>n. ''0123456789abcdef0123456789abcdef'')\<rparr>"

lemma sample_os_quiet: "quiet (sample_os f)"
  by (simp add: quiet_def sample_os_def)

theorem write_all_completes_witness:
  "map_of (nodes (w_fs sample_world)) 2 =
     Some \<lparr>n_stat = sample_stat 2 (S_IFREG + MODE_0600), n_data = ''{}'' @ [LF], n_synced = True\<rparr> \<and>
   (\<exists>w' nd'. write_all 2 ''a longer line'' (sample_os (\<lambda>n. None)) sample_world = (Inr (), w') \<and>
     map_of (nodes (w_fs w')) 2 = Some nd' \<and> n_data nd' = (''{}'' @ [LF]) @ ''a longer line'')"
proof -
  have n: "map_of (nodes (w_fs sample_world)) 2 =
     Some \<lparr>n_stat = sample_stat 2 (S_IFREG + MODE_0600), n_data = ''{}'' @ [LF], n_synced = True\<rparr>"
    by (simp add: sample_world_def)
  show ?thesis
    using write_all_completes [OF _ _ sample_os_quiet n, of "\<lambda>n. None" "''a longer line''"] n
    by (simp add: sample_os_def)
qed

theorem atomic_bytes_all_or_nothing_witness:
  "quiet (sample_os (\<lambda>n. if n = 4 then Some not_found else None)) \<and>
   (case atomic_bytes ''/d/j'' ''new'' (sample_os (\<lambda>n. if n = 4 then Some not_found else None)) sample_world of (r, w') \<Rightarrow>
     (r = Inr () \<and> stored (w_fs w') ''/d/j'' ''new'' \<or>
       (\<exists>e. r = Inl e) \<and> intact (w_fs sample_world) (w_fs w') ''/d/j'' \<and>
       (map_of (names (w_fs sample_world)) ''/d/j'' = None \<longrightarrow> map_of (names (w_fs w')) ''/d/j'' = None)) \<and>
     (\<forall>q. q \<noteq> ''/d/j'' \<longrightarrow> intact (w_fs sample_world) (w_fs w') q))"
  using atomic_bytes_all_or_nothing [OF sample_os_quiet] sample_os_quiet by (auto split: prod.split)

end
