(* ===== verification/Generation_V1.thy ===== *)
theory Generation_V1
  imports Gen_Files Index_Codec
begin

section \<open>Building and verifying a v1 generation\<close>

text \<open>
  Model of \<open>build_generation\<close>, \<open>verify_generation\<close>, \<open>lookup_command\<close> and \<open>main\<close> of
  \<open>hepta_oms_checkpoint.py\<close>. The hook that tests install between phases is the default one,
  which does nothing; \<open>z\<close> is the zlib decoder of theory \<open>Archive_Codec\<close>.
\<close>

subsection \<open>Building\<close>

definition generation_error :: "string \<Rightarrow> exn" where
  "generation_error m = GenerationError m"

text \<open>The segment: every validated record is written as it is read.\<close>

definition copy_records :: "'d zlib \<Rightarrow> nat \<Rightarrow> string \<Rightarrow> nat \<Rightarrow> budgets \<Rightarrow> reader io" where
  "copy_records z fd data sz b =
     (let (rd, err) = validated_raw_records z data sz b in
      then_io (fold_io (\<lambda>_ re. write_all fd (fst re)) () (rd_yielded rd))
      (lift_io (raise_end err rd)))"

definition copy_segment :: "'d zlib \<Rightarrow> string \<Rightarrow> string \<Rightarrow> nat \<Rightarrow> budgets \<Rightarrow> reader io" where
  "copy_segment z p data sz b =
     bind_io (create_excl p) (\<lambda>fd.
     bind_io (copy_records z fd data sz b) (\<lambda>rd. then_io (fsync fd) (return_io rd)))"

definition sorted_commands :: "commands \<Rightarrow> command list" where
  "sorted_commands cs = map snd (sort_key fst cs)"

definition runtime_records :: "commands \<Rightarrow> command list res" where
  "runtime_records cs =
     bind_res (map_res (\<lambda>r. bind_res (py_hex (agent_id r)) (\<lambda>a. bind_res (py_hex (session_id r)) (\<lambda>s.
       bind_res (py_hex (command_id r)) (\<lambda>c. Inr ((a, s, c), r))))) (map snd cs)) (\<lambda>keyed.
     Inr (map snd (sort_key fst keyed)))"

text \<open>The five files projected from the records.\<close>

definition write_projection :: "nat \<Rightarrow> string \<Rightarrow> dict \<Rightarrow> projection \<Rightarrow> unit io" where
  "write_projection max_record gdir checkpoint pr =
     then_io (atomic_json (path_join gdir ''checkpoint.json'') (JDict checkpoint))
     (then_io (write_rows index_line (path_join gdir ''command-index.tsv'') (sorted_commands (pr_commands pr)))
     (then_io (atomic_json (path_join gdir ''command-index.json'') (index_meta_json (length (pr_commands pr))))
     (bind_io (create_excl (path_join gdir ''runtime-command-index.tsv'')) (\<lambda>fd.
      bind_io (lift_io (runtime_records (pr_commands pr))) (\<lambda>rs.
      then_io (fold_io (\<lambda>_ r. bind_io (lift_io (runtime_index_line r)) (write_all fd)) () rs)
      (then_io (fsync fd)
      (then_io (write_rows send_attempt_line (path_join gdir ''send-attempt-index.tsv'') (pr_attempts pr))
      (write_hot_replay max_record (path_join gdir ''hot-replay.jsonl'') (pr_hot_replay pr)))))))))"

definition manifest_v1 :: "string \<Rightarrow> string \<Rightarrow> counts_v1 \<Rightarrow> string \<Rightarrow> inventory \<Rightarrow> dict" where
  "manifest_v1 generation parent c runtime_digest items =
     [(''schema'', JStr SCHEMA_V1), (''generation'', JStr generation), (''parent_generation'', JStr parent),
      (''journal_logical_sha256'', JStr (c_prefix_sha256 c)),
      (''journal_prefix_bytes'', JInt (int (c_prefix_bytes c))),
      (''journal_records'', JInt (int (c_journal c))), (''command_records'', JInt (int (c_commands c))),
      (''send_attempt_records'', JInt (int (c_attempts c))), (''hot_replay_records'', JInt (int (c_hot c))),
      (''runtime_manifest_sha256'', JStr runtime_digest), (''files'', files_json items),
      (''authorization_effect'', JStr ''NONE''), (''paper_authorized'', JBool False),
      (''live_authorized'', JBool False)]"

definition write_manifests_v1 :: "string \<Rightarrow> string \<Rightarrow> string \<Rightarrow> counts_v1 \<Rightarrow> (dict \<times> string) io" where
  "write_manifests_v1 gdir generation parent c =
     bind_io (file_digests gdir PRELIMINARY) (\<lambda>items.
     bind_io (lift_io (runtime_manifest_bytes_v1 generation parent c (digests_of items))) (\<lambda>text.
     then_io (atomic_bytes (path_join gdir ''runtime-manifest.txt'') text)
     (bind_io (sha256_file (path_join gdir ''runtime-manifest.txt'')) (\<lambda>(sz, h).
     let m = manifest_v1 generation parent c h (items @ [(''runtime-manifest.txt'', sz, h)]) in
     then_io (atomic_json (path_join gdir ''manifest.json'') (JDict m))
     (then_io (durable_directory gdir) (return_io (m, h)))))))"

definition build_from :: "'d zlib \<Rightarrow> string \<Rightarrow> string \<Rightarrow> string \<Rightarrow> string \<Rightarrow> budgets \<Rightarrow> nat \<Rightarrow> dict io" where
  "build_from z journal store generation parent b journal_fd =
     (let gdir = path_join store generation; seg = path_join gdir SEGMENT in
      bind_io (fstat journal_fd) (\<lambda>prior.
      then_io (require_private prior (GenerationError ''OMS_GENERATION_UNSAFE_JOURNAL''))
      (bind_io (read_fd journal_fd) (\<lambda>head.
      then_io (guard_io (\<not> gzip_magic head) (GenerationError ''OMS_GENERATION_RUNTIME_REQUIRES_EXPANDED_JOURNAL''))
      (then_io (flock journal_fd)
      (bind_io (read_fd journal_fd) (\<lambda>data.
      bind_io (copy_segment z seg data (st_size prior) b) (\<lambda>rd.
      then_io (check_identity prior journal_fd journal (GenerationError ''OMS_GENERATION_JOURNAL_CHANGED''))
      (bind_io (sha256_file seg) (\<lambda>(segment_size, segment_digest).
      let logical = sha256 (concat (map fst (rd_yielded rd))) in
      then_io (guard_io (segment_size = st_size prior \<and> segment_digest = logical)
        (GenerationError ''OMS_GENERATION_RUNTIME_PREFIX_MISMATCH''))
      (bind_io (lift_io (project_hot (map snd (rd_yielded rd)))) (\<lambda>pr.
      let checkpoint = dict_update (pr_checkpoint pr)
            [(''journal_logical_sha256'', JStr logical), (''journal_records'', JInt (int (rd_records rd))),
             (''journal_prefix_bytes'', JInt (int (st_size prior)))];
          c = \<lparr>c_prefix_bytes = st_size prior, c_prefix_sha256 = logical, c_journal = rd_records rd,
               c_commands = length (pr_commands pr), c_attempts = length (pr_attempts pr),
               c_hot = length (pr_hot_replay pr)\<rparr>
      in
      then_io (write_projection (record_bytes_budget b) gdir checkpoint pr)
      (bind_io (write_manifests_v1 gdir generation parent c) (\<lambda>(m, runtime_digest).
      bind_io (sha256_file (path_join gdir ''manifest.json'')) (\<lambda>(_, manifest_digest).
      then_io (publish_current store generation manifest_digest runtime_digest)
      (return_io m))))))))))))))))"

definition build_generation :: "'d zlib \<Rightarrow> string \<Rightarrow> string \<Rightarrow> bool \<Rightarrow> budgets \<Rightarrow> dict io" where
  "build_generation z journal store stopped b =
     then_io (guard_io stopped (GenerationError ''OMS_GENERATION_STOP_ALL_WRITERS_REQUIRED''))
     (then_io (mkdir_exist_ok store)
     (bind_io (lstat store) (\<lambda>st.
     then_io (require_private_directory st (GenerationError ''OMS_GENERATION_PRIVATE_STORE_REQUIRED''))
     (bind_io (read_current store) (\<lambda>current.
     let parent = (case current of None \<Rightarrow> [] | Some d \<Rightarrow> current_generation d) in
     bind_io (new_generation ''g'') (\<lambda>generation.
     then_io (mkdir (path_join store generation))
     (bind_io (open_read journal)
       (build_from z journal store generation parent b))))))))"

subsection \<open>Verifying\<close>

definition safe_file_name :: "string \<Rightarrow> bool" where
  "safe_file_name n \<longleftrightarrow> SLASH \<notin> set n \<and> n \<notin> {[], ''.'', ''..''}"

definition INVENTORY_INVALID :: exn where
  "INVENTORY_INVALID = GenerationError ''OMS_GENERATION_FILE_INVENTORY_INVALID''"

definition verify_file :: "(string \<Rightarrow> bool) \<Rightarrow> string \<Rightarrow> string \<times> json \<Rightarrow> unit io" where
  "verify_file ok gdir entry =
     (case entry of (n, expected) \<Rightarrow>
        case expected of
          JDict d \<Rightarrow>
            then_io (guard_io (ok n) INVENTORY_INVALID)
            (bind_io (sha256_file (path_join gdir n)) (\<lambda>(sz, h).
             guard_io (py_eq (JInt (int sz)) (get_default d ''bytes'' JNull) \<and>
                 py_eq (JStr h) (get_default d ''sha256'' JNull))
               (GenerationError ''OMS_GENERATION_DIGEST_MISMATCH'')))
        | _ \<Rightarrow> raise_io INVENTORY_INVALID)"

definition py_iter :: "json \<Rightarrow> json list res" where
  "py_iter v =
     (case v of
        JList xs \<Rightarrow> Inr xs
      | JStr s \<Rightarrow> Inr (map JStr (code_points s))
      | JDict d \<Rightarrow> Inr (map (\<lambda>(k, _). JStr k) d)
      | _ \<Rightarrow> Inl (TypeError ''object is not iterable''))"

definition hashable :: "json \<Rightarrow> bool" where
  "hashable v = (case v of JList _ \<Rightarrow> False | JDict _ \<Rightarrow> False | _ \<Rightarrow> True)"

definition get_or_empty :: "json \<Rightarrow> string \<Rightarrow> json res" where
  "get_or_empty obj k =
     (case obj of JDict d \<Rightarrow> Inr (get_default d k (JStr [])) | _ \<Rightarrow> Inl (AttributeError ''get''))"

definition check_hot_command :: "ckey list \<Rightarrow> json \<Rightarrow> unit res" where
  "check_hot_command indexed hot =
     bind_res (get_or_empty hot ''agent_id'') (\<lambda>a. bind_res (get_or_empty hot ''session_id'') (\<lambda>s.
     bind_res (get_or_empty hot ''command_id'') (\<lambda>c.
     bind_res (guard_res (hashable a \<and> hashable s \<and> hashable c) (TypeError ''unhashable type'')) (\<lambda>_.
     guard_res (list_ex (\<lambda>(a', s', c'). a = JStr a' \<and> s = JStr s' \<and> c = JStr c') indexed)
       (GenerationError ''OMS_GENERATION_HOT_COMMAND_MISSING_FROM_INDEX'')))))"

text \<open>Both objects have the same value under a name; a member that is missing counts as \<open>None\<close>.\<close>

definition same_member :: "dict \<Rightarrow> json \<Rightarrow> string \<Rightarrow> bool res" where
  "same_member m obj k = bind_res (py_get obj k) (\<lambda>v. Inr (py_eq v (get_default m k JNull)))"

fun all_members :: "dict \<Rightarrow> json \<Rightarrow> string list \<Rightarrow> bool res" where
  "all_members m obj [] = Inr True"
| "all_members m obj (k # ks) = bind_res (same_member m obj k) (\<lambda>b. if b then all_members m obj ks else Inr False)"

definition CHECKPOINT_MEMBERS :: "string list" where
  "CHECKPOINT_MEMBERS =
     [''journal_logical_sha256'', ''journal_prefix_bytes'', ''journal_records'', ''hot_replay_records'',
      ''send_attempt_records'']"

definition value_error :: "exn \<Rightarrow> bool" where
  "value_error e =
     (case e of
        ValueError _ \<Rightarrow> True | JSONDecodeError \<Rightarrow> True | UnicodeError \<Rightarrow> True | GenerationError _ \<Rightarrow> True
      | JournalError _ \<Rightarrow> True | ArchiveError _ \<Rightarrow> True | MaintenanceError _ \<Rightarrow> True | _ \<Rightarrow> False)"

definition check_hot_line :: "string \<Rightarrow> unit res" where
  "check_hot_line line =
     catch_res value_error
       (bind_res (loads default_hooks line) (\<lambda>v.
        case v of JDict _ \<Rightarrow> Inr () | _ \<Rightarrow> Inl (ValueError ''event is not object'')))
       (GenerationError ''OMS_GENERATION_HOT_REPLAY_INVALID'')"

definition expected_runtime_v1 :: "string \<Rightarrow> dict \<Rightarrow> dict \<Rightarrow> json res" where
  "expected_runtime_v1 generation m fs =
     (let text = (\<lambda>k. JStr (py_str (get_default m k JNull)));
          digest = (\<lambda>(k, n). bind_res (py_item (JDict fs) n) (\<lambda>f. bind_res (py_item f ''sha256'') (\<lambda>h. Inr (k, h))))
      in
      bind_res (map_res digest (INDEX_DIGESTS @ [HOT_DIGEST])) (\<lambda>hs.
      Inr (JDict
        ([(''generation'', JStr generation),
          (''parent_generation'', py_or (get_default m ''parent_generation'' JNull) (JStr ''-'')),
          (''journal_prefix_bytes'', text ''journal_prefix_bytes''),
          (''journal_prefix_sha256'', get_default m ''journal_logical_sha256'' JNull),
          (''journal_records'', text ''journal_records''), (''command_records'', text ''command_records''),
          (''send_attempt_records'', text ''send_attempt_records''),
          (''hot_replay_records'', text ''hot_replay_records'')] @ hs @
         [(''authorization_effect'', JStr ''NONE''), (''paper_authorized'', JStr ''0''),
          (''live_authorized'', JStr ''0'')]))))"

definition verify_index_files :: "string \<Rightarrow> dict \<Rightarrow> string list io" where
  "verify_index_files gdir m =
     bind_io (load_json_private (path_join gdir ''command-index.json'')) (\<lambda>meta.
     bind_io (lift_io (py_get meta ''schema'')) (\<lambda>schema. bind_io (lift_io (py_get meta ''records'')) (\<lambda>records.
     then_io (guard_io (py_eq schema (JStr INDEX_SCHEMA) \<and> py_eq records (get_default m ''command_records'' JNull))
       (GenerationError ''OMS_GENERATION_INDEX_METADATA_INVALID''))
     (bind_io (lift_io (py_item meta ''records'')) (\<lambda>n.
     bind_io (verify_index (path_join gdir ''command-index.tsv'') n) (\<lambda>lines.
     then_io (verify_runtime_index (path_join gdir ''runtime-command-index.tsv'') n)
     (return_io lines)))))))"

definition verify_checkpoint :: "string \<Rightarrow> dict \<Rightarrow> string list \<Rightarrow> unit io" where
  "verify_checkpoint gdir m lines =
     bind_io (load_json_private (path_join gdir ''checkpoint.json'')) (\<lambda>checkpoint.
     bind_io (lift_io (py_get checkpoint ''schema'')) (\<lambda>schema.
     bind_io (lift_io (if py_eq schema (JStr CHECKPOINT_SCHEMA) then all_members m checkpoint CHECKPOINT_MEMBERS
       else Inr False)) (\<lambda>ok.
     then_io (guard_io ok (GenerationError ''OMS_GENERATION_CHECKPOINT_MISMATCH''))
     (bind_io (lift_io (map_res index_key lines)) (\<lambda>indexed.
     let hot = (case checkpoint of JDict d \<Rightarrow> get_default d ''hot_commands'' (JList []) | _ \<Rightarrow> JNull) in
     bind_io (lift_io (py_iter hot)) (\<lambda>hots.
     lift_io (bind_res (map_res (check_hot_command indexed) hots) (\<lambda>_. Inr ()))))))))"

definition verify_replays :: "string \<Rightarrow> dict \<Rightarrow> unit io" where
  "verify_replays gdir m =
     bind_io (read_private_bytes (Some MAX_METADATA) (path_join gdir ''hot-replay.jsonl'')) (\<lambda>hot.
     let hot_lines = bytes_splitlines hot in
     then_io (guard_io (py_eq (JInt (int (length hot_lines))) (get_default m ''hot_replay_records'' JNull))
       (GenerationError ''OMS_GENERATION_HOT_REPLAY_COUNT_MISMATCH''))
     (then_io (lift_io (map_res check_hot_line hot_lines))
     (bind_io (read_private_bytes (Some MAX_METADATA) (path_join gdir ''send-attempt-index.tsv'')) (\<lambda>send.
      guard_io (py_eq (JInt (int (length (bytes_splitlines send)))) (get_default m ''send_attempt_records'' JNull))
       (GenerationError ''OMS_GENERATION_SEND_INDEX_COUNT_MISMATCH'')))))"

definition verify_current_v1 :: "string \<Rightarrow> string \<Rightarrow> dict \<Rightarrow> dict \<Rightarrow> string \<Rightarrow> unit io" where
  "verify_current_v1 store generation current m manifest_digest =
     (let runtime_sha = get_default m ''runtime_manifest_sha256'' JNull in
      then_io (guard_io (py_eq (get_default current ''manifest_sha256'' JNull) (JStr manifest_digest) \<and>
          py_eq (get_default current ''runtime_manifest_sha256'' JNull) runtime_sha)
        (GenerationError ''OMS_GENERATION_CURRENT_DIGEST_MISMATCH''))
      (bind_io (read_private_bytes (Some MAX_METADATA) (path_join store ''CURRENT'')) (\<lambda>current_raw.
      bind_io (read_private_bytes (Some MAX_METADATA) (path_join store ''CURRENT.runtime'')) (\<lambda>runtime_raw.
      bind_io (lift_io (parse_line_manifest runtime_raw RUNTIME_CURRENT_HEADER)) (\<lambda>fs.
      guard_io (py_eq (fields_json fs) (JDict
          [(''generation'', JStr generation), (''current_sha256'', JStr (sha256 current_raw)),
           (''manifest_sha256'', JStr manifest_digest), (''runtime_manifest_sha256'', runtime_sha)]))
        (GenerationError ''OMS_GENERATION_RUNTIME_CURRENT_MISMATCH''))))))"

definition verify_parent_v1 :: "string \<Rightarrow> json \<Rightarrow> unit io" where
  "verify_parent_v1 store parent =
     (if \<not> truthy parent then return_io ()
      else case parent of
        JStr p \<Rightarrow>
          bind_io (path_is_dir (path_join store p)) (\<lambda>d.
          then_io (guard_io d (GenerationError ''OMS_GENERATION_PARENT_MISSING''))
          (bind_io (load_json_private (path_join (path_join store p) ''manifest.json'')) (\<lambda>pm.
           bind_io (lift_io (py_get pm ''generation'')) (\<lambda>g.
           guard_io (py_eq g parent) (GenerationError ''OMS_GENERATION_PARENT_INVALID'')))))
      | _ \<Rightarrow> raise_io (TypeError ''unsupported operand type(s) for /''))"

definition verification_result :: "string list \<Rightarrow> dict \<Rightarrow> dict res" where
  "verification_result ks m = map_res (\<lambda>k. bind_res (py_item (JDict m) k) (\<lambda>v. Inr (k, v))) ks"

definition verify_manifest_v1 :: "string \<Rightarrow> string \<Rightarrow> dict option \<Rightarrow> dict \<Rightarrow> dict \<Rightarrow> dict io" where
  "verify_manifest_v1 store generation current m fs =
     (let gdir = path_join store generation in
      bind_io (verify_index_files gdir m) (\<lambda>lines.
      then_io (verify_checkpoint gdir m lines)
      (then_io (verify_replays gdir m)
      (bind_io (read_private_bytes (Some MAX_METADATA) (path_join gdir ''runtime-manifest.txt'')) (\<lambda>runtime_raw.
      bind_io (lift_io (parse_line_manifest runtime_raw RUNTIME_MANIFEST_HEADER_V1)) (\<lambda>runtime.
      bind_io (lift_io (expected_runtime_v1 generation m fs)) (\<lambda>expected.
      then_io (guard_io (py_eq (fields_json runtime) expected \<and>
          py_eq (JStr (sha256 runtime_raw)) (get_default m ''runtime_manifest_sha256'' JNull))
        (GenerationError ''OMS_GENERATION_RUNTIME_MANIFEST_MISMATCH''))
      (bind_io (sha256_file (path_join gdir ''manifest.json'')) (\<lambda>(_, manifest_digest).
      then_io (case current of
          None \<Rightarrow> return_io ()
        | Some d \<Rightarrow> if current_generation d = generation
            then verify_current_v1 store generation d m manifest_digest else return_io ())
      (then_io (verify_parent_v1 store (get_default m ''parent_generation'' (JStr [])))
      (bind_io (lift_io (verification_result
          [''journal_records'', ''command_records'', ''send_attempt_records'', ''hot_replay_records''] m)) (\<lambda>r.
      return_io ([(''schema'', JStr ''heptatrader.oms-generation-verification.v1''), (''result'', JStr ''PASS''),
         (''generation'', JStr generation)] @ r @ [(''authorization_effect'', JStr ''NONE'')])))))))))))))"

definition selected_generation :: "dict option \<Rightarrow> string option \<Rightarrow> string res" where
  "selected_generation current generation =
     (case generation of
        Some g \<Rightarrow> Inr g
      | None \<Rightarrow> (case current of
            None \<Rightarrow> Inl (GenerationError ''OMS_GENERATION_CURRENT_MISSING'')
          | Some d \<Rightarrow> Inr (current_generation d)))"

definition verify_generation_v1 :: "string \<Rightarrow> string option \<Rightarrow> dict io" where
  "verify_generation_v1 store requested =
     bind_io (lstat store) (\<lambda>st.
     then_io (require_private_directory st (GenerationError ''OMS_GENERATION_PRIVATE_STORE_REQUIRED''))
     (bind_io (read_current store) (\<lambda>current.
     bind_io (lift_io (selected_generation current requested)) (\<lambda>generation.
     let gdir = path_join store generation in
     bind_io (lstat gdir) (\<lambda>gst.
     then_io (require_private_directory gst (GenerationError ''OMS_GENERATION_DIRECTORY_INVALID''))
     (bind_io (load_json_private (path_join gdir ''manifest.json'')) (\<lambda>v.
     case v of
       JDict m \<Rightarrow>
         then_io (guard_io (py_eq (get_default m ''schema'' JNull) (JStr SCHEMA_V1) \<and>
             py_eq (get_default m ''generation'' JNull) (JStr generation))
           (GenerationError ''OMS_GENERATION_MANIFEST_INVALID''))
         (case get_default m ''files'' JNull of
            JDict fs \<Rightarrow>
              then_io (guard_io (1 \<le> length fs \<and> length fs \<le> MAX_GENERATION_FILES) INVENTORY_INVALID)
              (then_io (map_io (verify_file safe_file_name gdir) fs)
              (verify_manifest_v1 store generation current m fs))
          | _ \<Rightarrow> raise_io INVENTORY_INVALID)
     | _ \<Rightarrow> raise_io (GenerationError ''OMS_GENERATION_MANIFEST_INVALID''))))))))"

subsection \<open>Command lookup\<close>

text \<open>\<open>bisect.bisect_left\<close>\<close>

function bisect_left :: "'a::linorder list \<Rightarrow> 'a \<Rightarrow> nat \<Rightarrow> nat \<Rightarrow> nat" where
  "bisect_left a x lo hi =
     (if lo < hi then
        let mid = (lo + hi) div 2 in
        if a ! mid < x then bisect_left a x (mid + 1) hi else bisect_left a x lo mid
      else lo)"
  by pat_completeness auto
termination
  by (relation "measure (\<lambda>(a, x, lo, hi). hi - lo)") auto

declare bisect_left.simps [simp del]

definition lookup_row :: "string \<Rightarrow> string \<Rightarrow> dict res" where
  "lookup_row line wanted_hash =
     bind_res (tsv_fields line) (\<lambda>parts.
     bind_res (py_unhex (parts ! 3)) (\<lambda>stored_hash.
     bind_res (int_of_str (parts ! 6)) (\<lambda>oid.
     bind_res (py_unhex (parts ! 7)) (\<lambda>rsn.
     bind_res (py_unhex (parts ! 8)) (\<lambda>venue.
     bind_res (int_of_str (parts ! 9)) (\<lambda>sequence.
     Inr [(''status'', JStr (if stored_hash = wanted_hash then ''duplicate'' else ''conflict'')),
       (''operation'', JStr (parts ! 4)), (''command_status'', JStr (parts ! 5)), (''order_id'', JInt oid),
       (''reason'', JStr rsn), (''venue_correlation_id'', JStr venue), (''last_sequence'', JInt sequence),
       (''authorization_effect'', JStr ''NONE'')]))))))"

definition lookup_missing :: dict where
  "lookup_missing = [(''status'', JStr ''missing''), (''authorization_effect'', JStr ''NONE'')]"

definition lookup_lines :: "string list \<Rightarrow> ckey \<Rightarrow> string \<Rightarrow> dict res" where
  "lookup_lines lines wanted wanted_hash =
     bind_res (map_res index_key lines) (\<lambda>keys.
     let position = bisect_left keys wanted 0 (length keys) in
     if position = length keys \<or> keys ! position \<noteq> wanted then Inr lookup_missing
     else lookup_row (lines ! position) wanted_hash)"

definition lookup_command :: "string \<Rightarrow> ckey \<Rightarrow> string \<Rightarrow> dict io" where
  "lookup_command store wanted wanted_hash =
     bind_io (read_current store) (\<lambda>current.
     case current of
       None \<Rightarrow> raise_io (GenerationError ''OMS_GENERATION_CURRENT_MISSING'')
     | Some d \<Rightarrow>
         then_io (verify_generation_v1 store (Some (current_generation d)))
         (bind_io (read_private_bytes None (path_join (path_join store (current_generation d)) ''command-index.tsv'')) (\<lambda>data.
          lift_io (lookup_lines (bytes_splitlines_keepends data) wanted wanted_hash))))"

subsection \<open>Command line\<close>

datatype checkpoint_args =
    Build string string bool
  | Verify string "string option"
  | Lookup string string string string string

text \<open>The exit status and the object printed, on standard output for 0 and standard error for 1.\<close>

definition exn_class :: "exn \<Rightarrow> string" where
  "exn_class e =
     (case e of
        GenerationError m \<Rightarrow> m | JournalError m \<Rightarrow> m | ArchiveError _ \<Rightarrow> ''ArchiveError'' | OSError c \<Rightarrow> c
      | JSONDecodeError \<Rightarrow> ''JSONDecodeError'' | UnicodeError \<Rightarrow> ''UnicodeError'' | RecursionError \<Rightarrow> ''RecursionError''
      | ValueError _ \<Rightarrow> ''ValueError'' | OverflowError _ \<Rightarrow> ''OverflowError'' | KeyError _ \<Rightarrow> ''KeyError''
      | TypeError _ \<Rightarrow> ''TypeError'' | AttributeError _ \<Rightarrow> ''AttributeError'' | ZeroDivisionError \<Rightarrow> ''ZeroDivisionError''
      | ContractError _ \<Rightarrow> ''ContractError'' | MaintenanceError _ \<Rightarrow> ''MaintenanceError'' | FuelExhausted \<Rightarrow> [])"

definition reported :: "exn \<Rightarrow> bool" where
  "reported e \<longleftrightarrow> os_error e \<or> value_error e \<or> (case e of OverflowError _ \<Rightarrow> True | _ \<Rightarrow> False)"

definition report_main :: "dict io \<Rightarrow> (nat \<times> json) io" where
  "report_main m os w =
     (case m os w of
        (Inr r, w') \<Rightarrow> (Inr (0, JDict r), w')
      | (Inl e, w') \<Rightarrow>
          if reported e
          then (Inr (1, JDict [(''result'', JStr ''FAIL''), (''reason'', JStr (exn_class e)),
                  (''authorization_effect'', JStr ''NONE'')]), w')
          else (Inl e, w'))"

fun checkpoint_main :: "'d zlib \<Rightarrow> checkpoint_args \<Rightarrow> (nat \<times> json) io" where
  "checkpoint_main z (Build journal store stopped) =
     report_main (build_generation z journal store stopped default_budgets)"
| "checkpoint_main z (Verify store generation) = report_main (verify_generation_v1 store generation)"
| "checkpoint_main z (Lookup store a s c h) = report_main (lookup_command store (a, s, c) h)"

end
