(* ===== verification/Keyed_Log.thy ===== *)
theory Keyed_Log
  imports Prelude "HOL-Library.Sublist"
begin

section \<open>Logs of keyed updates and their compaction\<close>

text \<open>
  Every protection the hot replay must preserve is a register per key that events set or
  clear: a session fence, the owner of an order, the outcome of a command. This theory has
  the common part: the map an event log leaves (\<open>run_log\<close>), and the contract of a
  compaction (locale \<open>compaction\<close>): for every key whose value is live, the selected
  events contain one that sets it and is not overruled later. What follows from the contract
  is proved once: compaction loses no live value, also when a log continues after it and
  when it is compacted again and again.
\<close>

datatype ('k, 'v) act = Keep | Put 'k 'v | Drop 'k

definition apply_act :: "('k, 'v) act \<Rightarrow> ('k \<rightharpoonup> 'v) \<Rightarrow> ('k \<rightharpoonup> 'v)" where
  "apply_act a m = (case a of Keep \<Rightarrow> m | Put k v \<Rightarrow> m(k \<mapsto> v) | Drop k \<Rightarrow> m(k := None))"

definition run_log :: "('e \<Rightarrow> ('k, 'v) act) \<Rightarrow> 'e list \<Rightarrow> ('k \<rightharpoonup> 'v) \<Rightarrow> ('k \<rightharpoonup> 'v)" where
  "run_log act es m = fold (\<lambda>e. apply_act (act e)) es m"

text \<open>An action that leaves value \<open>v\<close> at key \<open>k\<close> if it is there.\<close>

definition keeps :: "('k, 'v) act \<Rightarrow> 'k \<Rightarrow> 'v \<Rightarrow> bool" where
  "keeps a k v = (case a of Keep \<Rightarrow> True | Put k' v' \<Rightarrow> k' = k \<longrightarrow> v' = v | Drop k' \<Rightarrow> k' \<noteq> k)"

lemma run_log_simps [simp]:
  "run_log act [] m = m" "run_log act (e # es) m = run_log act es (apply_act (act e) m)"
  "run_log act (es @ ds) m = run_log act ds (run_log act es m)"
  by (simp_all add: run_log_def)

lemma apply_act_keeps: "m k = Some v \<Longrightarrow> keeps a k v \<Longrightarrow> apply_act a m k = Some v"
  by (cases a) (auto simp: apply_act_def keeps_def)

lemma run_log_keeps:
  "m k = Some v \<Longrightarrow> \<forall>e \<in> set es. keeps (act e) k v \<Longrightarrow> run_log act es m k = Some v"
  by (induction es arbitrary: m) (auto simp: apply_act_keeps)

lemma run_log_Put:
  assumes "e \<in> set es" and "es = xs @ e # ys" and "act e = Put k v" and "\<forall>y \<in> set ys. keeps (act y) k v"
  shows "run_log act es m k = Some v"
  using assms by (simp add: run_log_keeps apply_act_def)

text \<open>The last event that sets a value.\<close>

lemma run_log_SomeD:
  assumes "run_log act es m k = Some v"
  shows "m k = Some v \<and> (\<forall>e \<in> set es. keeps (act e) k v) \<or>
    (\<exists>i < length es. act (es ! i) = Put k v \<and> (\<forall>j. i < j \<longrightarrow> j < length es \<longrightarrow> keeps (act (es ! j)) k v))"
  using assms
proof (induction es rule: rev_induct)
  case (snoc e es)
  show ?case
  proof (cases "act e = Put k v")
    case True
    then show ?thesis by (intro disjI2 exI [of _ "length es"]) auto
  next
    case False
    with snoc.prems have k: "keeps (act e) k v" "run_log act es m k = Some v"
      by (cases "act e"; auto simp: apply_act_def keeps_def split: if_splits)+
    from snoc.IH [OF k(2)] show ?thesis
    proof
      assume "\<exists>i < length es. act (es ! i) = Put k v \<and>
        (\<forall>j. i < j \<longrightarrow> j < length es \<longrightarrow> keeps (act (es ! j)) k v)"
      then obtain i where i: "i < length es" "act (es ! i) = Put k v"
        "\<forall>j. i < j \<longrightarrow> j < length es \<longrightarrow> keeps (act (es ! j)) k v" by blast
      then show ?thesis using k(1)
        by (intro disjI2 exI [of _ i]) (auto simp: nth_append less_Suc_eq)
    qed (use k in auto)
  qed
qed simp

subsection \<open>Dictionaries that follow an action\<close>

text \<open>\<open>d[k] = x\<close> when the action sets \<open>k\<close>, \<open>d.pop(k, None)\<close> when it clears it.\<close>

definition track :: "('k, 'v) act \<Rightarrow> 'x \<Rightarrow> ('k \<times> 'x) list \<Rightarrow> ('k \<times> 'x) list" where
  "track a x d = (case a of Keep \<Rightarrow> d | Put k _ \<Rightarrow> AList.update k x d | Drop k \<Rightarrow> AList.delete k d)"

text \<open>The same with the value of the action.\<close>

definition follow :: "('k, 'v) act \<Rightarrow> ('k \<times> 'v) list \<Rightarrow> ('k \<times> 'v) list" where
  "follow a d = (case a of Keep \<Rightarrow> d | Put k v \<Rightarrow> AList.update k v d | Drop k \<Rightarrow> AList.delete k d)"

lemma track_simps [simp]:
  "track Keep x d = d" "track (Put k v) x d = AList.update k x d" "track (Drop k) x d = AList.delete k d"
  by (simp_all add: track_def)

lemma follow_simps [simp]:
  "follow Keep d = d" "follow (Put k v) d = AList.update k v d" "follow (Drop k) d = AList.delete k d"
  by (simp_all add: follow_def)

lemma map_of_follow: "map_of (follow a d) = apply_act a (map_of d)"
  by (cases a) (simp_all add: apply_act_def update_conv' delete_conv')

lemma snd_update_subset: "snd ` set (AList.update k x d) \<subseteq> insert x (snd ` set d)"
  by (induction d) auto

lemma snd_delete_subset: "snd ` set (AList.delete k d) \<subseteq> snd ` set d"
  by (induction d) auto

lemma snd_track_subset: "snd ` set (track a x d) \<subseteq> insert x (snd ` set d)"
proof (cases a)
  case (Put k v)
  then show ?thesis using snd_update_subset [of k x d] by simp
next
  case (Drop k)
  then show ?thesis using snd_delete_subset [of k d] by auto
qed auto

text \<open>
  A dictionary that records the position of the event that set each key holds, for every key
  of the log's map, a position that is not overruled later.
\<close>

definition tracks :: "('e \<Rightarrow> ('k, 'v) act) \<Rightarrow> 'e list \<Rightarrow> ('k \<times> nat) list \<Rightarrow> bool" where
  "tracks act es d \<longleftrightarrow> snd ` set d \<subseteq> {0..<length es} \<and>
     dom (map_of d) \<subseteq> dom (run_log act es Map.empty) \<and>
     (\<forall>k v. run_log act es Map.empty k = Some v \<longrightarrow>
        (\<exists>i. map_of d k = Some i \<and> act (es ! i) = Put k v \<and>
           (\<forall>j. i < j \<longrightarrow> j < length es \<longrightarrow> keeps (act (es ! j)) k v)))"

lemma tracks_Nil [simp]: "tracks act [] []"
  by (simp add: tracks_def)

lemma tracks_snoc:
  assumes "tracks act es d"
  shows "tracks act (es @ [e]) (track (act e) (length es) d)"
proof -
  have range: "snd ` set d \<subseteq> {0..<length es}"
    and dom: "dom (map_of d) \<subseteq> dom (run_log act es Map.empty)"
    and cover: "\<And>k v. run_log act es Map.empty k = Some v \<Longrightarrow>
      \<exists>i. map_of d k = Some i \<and> act (es ! i) = Put k v \<and>
        (\<forall>j. i < j \<longrightarrow> j < length es \<longrightarrow> keeps (act (es ! j)) k v)"
    using assms unfolding tracks_def by blast+
  have "snd ` set (track (act e) (length es) d) \<subseteq> {0..<length (es @ [e])}"
    by (rule order_trans [OF snd_track_subset]) (use range in auto)
  moreover have "dom (map_of (track (act e) (length es) d)) \<subseteq> dom (run_log act (es @ [e]) Map.empty)"
    using dom by (cases "act e") (auto simp: apply_act_def update_conv' delete_conv' split: if_splits)
  moreover have "\<exists>i. map_of (track (act e) (length es) d) k = Some i \<and> act ((es @ [e]) ! i) = Put k v \<and>
      (\<forall>j. i < j \<longrightarrow> j < length (es @ [e]) \<longrightarrow> keeps (act ((es @ [e]) ! j)) k v)"
    if run: "run_log act (es @ [e]) Map.empty k = Some v" for k v
  proof (cases "act e = Put k v")
    case True
    then show ?thesis by (intro exI [of _ "length es"]) (auto simp: update_conv')
  next
    case False
    with run have k: "keeps (act e) k v" "run_log act es Map.empty k = Some v"
      by (cases "act e"; auto simp: apply_act_def keeps_def split: if_splits)+
    from cover [OF k(2)] obtain i where i: "map_of d k = Some i" "act (es ! i) = Put k v"
      "\<forall>j. i < j \<longrightarrow> j < length es \<longrightarrow> keeps (act (es ! j)) k v" by blast
    have len: "i < length es"
      using range map_of_SomeD [OF i(1)] by (auto simp: image_subset_iff)
    have "map_of (track (act e) (length es) d) k = Some i"
      using False k(1) i(1) by (cases "act e") (auto simp: keeps_def update_conv' delete_conv')
    then show ?thesis using i len k(1)
      by (intro exI [of _ i]) (auto simp: nth_append less_Suc_eq)
  qed
  ultimately show ?thesis unfolding tracks_def by blast
qed

lemma tracks_dom: "tracks act es d \<Longrightarrow> dom (map_of d) = dom (run_log act es Map.empty)"
  unfolding tracks_def by blast

subsection \<open>Selected positions\<close>

text \<open>\<open>[events[i] for i in sorted(selected)]\<close>\<close>

definition pick :: "'e list \<Rightarrow> nat set \<Rightarrow> 'e list" where
  "pick es S = map ((!) es) (sorted_list_of_set S)"

lemma pick_nths:
  assumes "S \<subseteq> {0..<length es}"
  shows "pick es S = nths es S"
proof -
  have fin: "finite S" using assms finite_subset by blast
  have "sorted_list_of_set S = filter (\<lambda>i. i \<in> S) [0..<length es]"
    by (rule sorted_distinct_set_unique) (use assms fin in \<open>auto simp: sorted_wrt_filter\<close>)
  then have "pick es S = map ((!) es) (filter (\<lambda>i. i \<in> S) [0..<length es])" by (simp add: pick_def)
  also have "\<dots> = nths es S"
  proof (induction es rule: rev_induct)
    case (snoc x xs)
    have "map ((!) (xs @ [x])) (filter (\<lambda>i. i \<in> S) [0..<length xs]) =
        map ((!) xs) (filter (\<lambda>i. i \<in> S) [0..<length xs])"
      by (intro map_cong) (auto simp: nth_append)
    then show ?case using snoc by (simp add: nths_append)
  qed simp
  finally show ?thesis .
qed

lemma nths_at:
  assumes "i < length es" and "i \<in> S"
  shows "nths es S = nths (take i es) S @ es ! i # nths (drop (Suc i) es) {j. j + Suc i \<in> S}"
proof -
  have "nths es S = nths (take i es @ es ! i # drop (Suc i) es) S"
    using assms(1) by (simp flip: id_take_nth_drop)
  also have "\<dots> = nths (take i es) S @ nths (es ! i # drop (Suc i) es) {j. j + i \<in> S}"
    using assms(1) by (simp add: nths_append min_def)
  finally show ?thesis using assms by (simp add: nths_Cons)
qed

lemma nths_filter_all:
  assumes "\<forall>i < length es. P (es ! i) \<longrightarrow> i \<in> S"
  shows "filter P (nths es S) = filter P es"
  using assms
proof (induction es arbitrary: S)
  case (Cons e es)
  have "filter P (nths es {j. Suc j \<in> S}) = filter P es"
    by (rule Cons.IH) (use Cons.prems in auto)
  then show ?case using Cons.prems [rule_format, of 0] by (auto simp: nths_Cons)
qed simp

subsection \<open>The contract of a compaction\<close>

definition live_le :: "('v \<Rightarrow> bool) \<Rightarrow> ('k \<rightharpoonup> 'v) \<Rightarrow> ('k \<rightharpoonup> 'v) \<Rightarrow> bool" where
  "live_le live m m' \<longleftrightarrow> (\<forall>k v. m k = Some v \<longrightarrow> live v \<longrightarrow> m' k = Some v)"

lemma live_leD: "live_le live m m' \<Longrightarrow> m k = Some v \<Longrightarrow> live v \<Longrightarrow> m' k = Some v"
  by (simp add: live_le_def)

lemma live_le_trans: "live_le live a b \<Longrightarrow> live_le live b c \<Longrightarrow> live_le live a c"
  by (simp add: live_le_def)

lemma live_le_run: "live_le live m m' \<Longrightarrow> live_le live (run_log act es m) (run_log act es m')"
proof (induction es arbitrary: m m')
  case (Cons e es)
  have "live_le live (apply_act (act e) m) (apply_act (act e) m')"
    using Cons.prems by (cases "act e") (auto simp: live_le_def apply_act_def)
  then show ?case by (simp add: Cons.IH)
qed simp

locale compaction =
  fixes act :: "'e \<Rightarrow> ('k, 'v) act" and select :: "'e list \<Rightarrow> nat set" and live :: "'v \<Rightarrow> bool"
  assumes select_range: "select es \<subseteq> {0..<length es}"
    and select_covers: "run_log act es Map.empty k = Some v \<Longrightarrow> live v \<Longrightarrow>
      \<exists>i \<in> select es. act (es ! i) = Put k v \<and>
        (\<forall>j. i < j \<longrightarrow> j < length es \<longrightarrow> keeps (act (es ! j)) k v)"
begin

lemma compact_keeps_live:
  "live_le live (run_log act es Map.empty) (run_log act (pick es (select es)) Map.empty)"
  unfolding live_le_def
proof (intro allI impI)
  fix k v
  assume "run_log act es Map.empty k = Some v" and "live v"
  from select_covers [OF this] obtain i where i: "i \<in> select es" "act (es ! i) = Put k v"
    "\<forall>j. i < j \<longrightarrow> j < length es \<longrightarrow> keeps (act (es ! j)) k v" by blast
  have len: "i < length es" using i(1) select_range by fastforce
  have "\<forall>y \<in> set (drop (Suc i) es). keeps (act y) k v"
  proof
    fix y assume "y \<in> set (drop (Suc i) es)"
    then obtain j where "j < length es - Suc i" "y = es ! (Suc i + j)" by (auto simp: in_set_conv_nth)
    then show "keeps (act y) k v" using i(3) by simp
  qed
  then have "\<forall>y \<in> set (nths (drop (Suc i) es) {j. j + Suc i \<in> select es}). keeps (act y) k v"
    by (auto dest: in_set_nthsD)
  then show "run_log act (pick es (select es)) Map.empty k = Some v"
    using i(2) by (simp add: pick_nths [OF select_range] nths_at [OF len i(1)] run_log_keeps apply_act_def)
qed

lemma compact_append_keeps_live:
  "live_le live (run_log act (es @ t) Map.empty) (run_log act (pick es (select es) @ t) Map.empty)"
  using live_le_run [OF compact_keeps_live] by simp

text \<open>A log that is compacted before every segment is appended.\<close>

lemma relog_keeps_live:
  assumes "live_le live (run_log act es Map.empty) (run_log act hot Map.empty)"
  shows "live_le live (run_log act (es @ t) Map.empty)
    (run_log act (pick (hot @ t) (select (hot @ t))) Map.empty)"
proof -
  have "live_le live (run_log act (es @ t) Map.empty) (run_log act (hot @ t) Map.empty)"
    using live_le_run [OF assms] by simp
  then show ?thesis using compact_keeps_live by (rule live_le_trans)
qed

end

end
