(* ===== verification/Compaction.thy ===== *)
theory Compaction
  imports Projection Keyed_Log
begin

section \<open>Compaction loses no protection\<close>

text \<open>
  \<open>_project_hot\<close> (\<open>hepta_oms_checkpoint.py\<close>) as a compaction in the sense of
  \<open>Keyed_Log\<close>: each register the projection keeps is an action of the events, and the
  selected positions satisfy the contract of the locale \<open>compaction\<close> for it.
\<close>

subsection \<open>The registers\<close>

definition fence_act :: "event \<Rightarrow> (owner, unit) act" where
  "fence_act ev =
     (if \<not> owner_complete (owner_of ev) then Keep
      else if event_kind ev = ''session_owner_fenced'' then Put (owner_of ev) ()
      else if event_kind ev = ''session_owner_fence_release'' then Drop (owner_of ev)
      else Keep)"

definition recovery_act :: "event \<Rightarrow> (owner, string) act" where
  "recovery_act ev =
     (if owner_complete (owner_of ev) \<and> event_kind ev = ''session_owner_recovery_only''
      then Put (owner_of ev) (str_field ev ''status'') else Keep)"

definition owner_act :: "event \<Rightarrow> (int, owner_info) act" where
  "owner_act ev =
     (let kind = event_kind ev; oid = int_field ev ''order_id'' (-1) in
      if kind \<in> {''place_sent'', ''place_activated'', ''flatten_sent''} \<and> 0 \<le> oid \<and>
          agent_of_source (str_field ev ''source'') \<noteq> [] then Put oid (owner_info_of ev)
      else if kind = ''order_owner_reconciled_terminal'' \<and> 0 \<le> oid then Drop oid
      else Keep)"

definition account_act :: "event \<Rightarrow> (string, unit) act" where
  "account_act ev =
     (if event_kind ev = ''account_new_entry_fenced'' then Put (str_field ev ''account'') () else Keep)"

definition terminal_act :: "event \<Rightarrow> (unit, unit) act" where
  "terminal_act ev = (if event_kind ev = ''paper_terminal_fence'' then Put () () else Keep)"

definition failure_act :: "event \<Rightarrow> (unit, unit) act" where
  "failure_act ev =
     (if event_kind ev = ''execution_projection_failed'' then Put () ()
      else if event_kind ev = ''execution_projection_resolved'' then Drop () else Keep)"

text \<open>The outcome an event decides, whatever the outcome before it.\<close>

definition status_decision :: "event \<Rightarrow> string option" where
  "status_decision ev =
     (if status_of ev ''a'' = status_of ev ''b'' then Some (status_of ev ''a'') else None)"

definition status_act :: "event \<Rightarrow> (ckey, string) act" where
  "status_act ev =
     (if key_complete (key_of ev)
      then case status_decision ev of None \<Rightarrow> Keep | Some s \<Rightarrow> Put (key_of ev) s
      else Keep)"

lemma status_of_decision:
  "status_of ev prior = (case status_decision ev of None \<Rightarrow> prior | Some s \<Rightarrow> s)"
  by (simp add: status_decision_def status_of_def Let_def split: if_splits) blast

subsection \<open>The scan step by step\<close>

lemma hot_scan_snoc:
  "hot_scan (es @ [e]) = bind_res (hot_scan es) (\<lambda>st. hot_step st (length es, e))"
  by (simp add: hot_scan_def enumerate_append_eq fold_res_snoc)

lemma hot_scan_Nil: "hot_scan [] = Inr init_hot"
  by (simp add: hot_scan_def)

lemma hot_scan_snocE:
  assumes "hot_scan (es @ [e]) = Inr st'"
  obtains st where "hot_scan es = Inr st" and "hot_step st (length es, e) = Inr st'"
  using assms by (auto simp: hot_scan_snoc bind_res_Inr_iff)

lemma step_session_sel:
  "commands (step_session i ev st) = commands st"
  "active_owners (step_session i ev st) = active_owners st"
  "active_owner_event (step_session i ev st) = active_owner_event st"
  "account_entry_fence_event (step_session i ev st) = account_entry_fence_event st"
  "terminal_fence_event (step_session i ev st) = terminal_fence_event st"
  "projection_failure_event (step_session i ev st) = projection_failure_event st"
  "send_attempts (step_session i ev st) = send_attempts st"
  "fenced (step_session i ev st) =
     (case fence_act ev of Keep \<Rightarrow> fenced st | Put p _ \<Rightarrow> insert p (fenced st) | Drop p \<Rightarrow> fenced st - {p})"
  "fence_event (step_session i ev st) = track (fence_act ev) i (fence_event st)"
  "recovery_only (step_session i ev st) = follow (recovery_act ev) (recovery_only st)"
  "recovery_event (step_session i ev st) = track (recovery_act ev) i (recovery_event st)"
  by (auto simp: step_session_def fence_act_def recovery_act_def Let_def)

definition account_step :: "nat \<Rightarrow> event \<Rightarrow> (string \<times> nat) list \<Rightarrow> (string \<times> nat) list" where
  "account_step i ev d =
     (case account_act ev of
        Put acc _ \<Rightarrow> (case map_of d acc of None \<Rightarrow> AList.update acc i d | Some _ \<Rightarrow> d)
      | _ \<Rightarrow> d)"

lemma step_account_fence_sel:
  assumes "step_account_fence i ev st = Inr st'"
  shows "commands st' = commands st" "active_owners st' = active_owners st"
    "active_owner_event st' = active_owner_event st" "fenced st' = fenced st"
    "fence_event st' = fence_event st" "recovery_only st' = recovery_only st"
    "recovery_event st' = recovery_event st" "terminal_fence_event st' = terminal_fence_event st"
    "projection_failure_event st' = projection_failure_event st" "send_attempts st' = send_attempts st"
    "account_entry_fence_event st' = account_step i ev (account_entry_fence_event st)"
  using assms
  by (auto simp: step_account_fence_def account_step_def account_act_def Let_def split: if_splits option.splits)

lemma step_owners_sel:
  "commands (step_owners i ev st) = commands st"
  "fenced (step_owners i ev st) = fenced st"
  "fence_event (step_owners i ev st) = fence_event st"
  "recovery_only (step_owners i ev st) = recovery_only st"
  "recovery_event (step_owners i ev st) = recovery_event st"
  "account_entry_fence_event (step_owners i ev st) = account_entry_fence_event st"
  "terminal_fence_event (step_owners i ev st) = terminal_fence_event st"
  "projection_failure_event (step_owners i ev st) = projection_failure_event st"
  "send_attempts (step_owners i ev st) = send_attempts st"
  "active_owners (step_owners i ev st) = follow (owner_act ev) (active_owners st)"
  "active_owner_event (step_owners i ev st) = track (owner_act ev) i (active_owner_event st)"
  by (auto simp: step_owners_def owner_act_def Let_def)

text \<open>The two single markers as dictionaries with one key.\<close>

definition marker :: "nat option \<Rightarrow> (unit \<times> nat) list" where
  "marker m = (case m of None \<Rightarrow> [] | Some i \<Rightarrow> [((), i)])"

lemma step_markers_sel:
  "commands (step_markers i ev st) = commands st"
  "fenced (step_markers i ev st) = fenced st"
  "fence_event (step_markers i ev st) = fence_event st"
  "recovery_only (step_markers i ev st) = recovery_only st"
  "recovery_event (step_markers i ev st) = recovery_event st"
  "account_entry_fence_event (step_markers i ev st) = account_entry_fence_event st"
  "active_owners (step_markers i ev st) = active_owners st"
  "active_owner_event (step_markers i ev st) = active_owner_event st"
  "send_attempts (step_markers i ev st) = send_attempts st"
  "marker (terminal_fence_event (step_markers i ev st)) =
     track (terminal_act ev) i (marker (terminal_fence_event st))"
  "marker (projection_failure_event (step_markers i ev st)) =
     track (failure_act ev) i (marker (projection_failure_event st))"
  by (auto simp: step_markers_def terminal_act_def failure_act_def marker_def Let_def split: option.splits)

lemma step_attempt_sel:
  "commands (step_attempt i ev st) = commands st"
  "fenced (step_attempt i ev st) = fenced st"
  "fence_event (step_attempt i ev st) = fence_event st"
  "recovery_only (step_attempt i ev st) = recovery_only st"
  "recovery_event (step_attempt i ev st) = recovery_event st"
  "account_entry_fence_event (step_attempt i ev st) = account_entry_fence_event st"
  "active_owners (step_attempt i ev st) = active_owners st"
  "active_owner_event (step_attempt i ev st) = active_owner_event st"
  "terminal_fence_event (step_attempt i ev st) = terminal_fence_event st"
  "projection_failure_event (step_attempt i ev st) = projection_failure_event st"
  by (simp_all add: step_attempt_def Let_def)

lemmas step_sels = step_session_sel step_owners_sel step_markers_sel step_attempt_sel

text \<open>The effect of one event on every register, given that the step succeeds.\<close>

lemma hot_step_sel:
  assumes "hot_step st (i, ev) = Inr st'"
  shows "(fenced st' =
      (case fence_act ev of Keep \<Rightarrow> fenced st | Put p _ \<Rightarrow> insert p (fenced st) | Drop p \<Rightarrow> fenced st - {p})) \<and>
    fence_event st' = track (fence_act ev) i (fence_event st) \<and>
    recovery_only st' = follow (recovery_act ev) (recovery_only st) \<and>
    recovery_event st' = track (recovery_act ev) i (recovery_event st) \<and>
    account_entry_fence_event st' = account_step i ev (account_entry_fence_event st) \<and>
    active_owners st' = follow (owner_act ev) (active_owners st) \<and>
    active_owner_event st' = track (owner_act ev) i (active_owner_event st) \<and>
    marker (terminal_fence_event st') = track (terminal_act ev) i (marker (terminal_fence_event st)) \<and>
    marker (projection_failure_event st') = track (failure_act ev) i (marker (projection_failure_event st)) \<and>
    update_command (commands st) ev (int (Suc i)) = Inr (commands st')"
proof -
  from assms obtain st1 cs where st1: "step_account_fence i ev (step_session i ev st) = Inr st1"
    and cs: "update_command (commands (step_attempt i ev (step_markers i ev (step_owners i ev st1)))) ev
        (int (Suc i)) = Inr cs"
    and st': "st' = step_attempt i ev (step_markers i ev (step_owners i ev st1))\<lparr>commands := cs\<rparr>"
    by (auto simp: hot_step_def bind_res_Inr_iff Let_def)
  note sels = step_account_fence_sel [OF st1] step_sels
  show ?thesis using cs by (simp add: st' sels)
qed

subsection \<open>Invariant of the scan\<close>

text \<open>The account fences keep the first event of each account and are never cleared.\<close>

definition account_inv :: "event list \<Rightarrow> (string \<times> nat) list \<Rightarrow> bool" where
  "account_inv es d \<longleftrightarrow>
     (\<forall>(acc, i) \<in> set d. i < length es \<and> account_act (es ! i) = Put acc ()) \<and>
     (\<forall>acc. run_log account_act es Map.empty acc = Some () \<longrightarrow> acc \<in> fst ` set d)"

lemma account_keeps: "keeps (account_act x) k v"
  by (auto simp: account_act_def keeps_def)

lemma account_inv_snoc:
  assumes "account_inv es d"
  shows "account_inv (es @ [e]) (account_step (length es) e d)"
proof (cases "event_kind e = ''account_new_entry_fenced''")
  case False
  then have "account_act e = Keep" by (simp add: account_act_def)
  then show ?thesis using assms
    by (auto simp: account_inv_def account_step_def apply_act_def nth_append)
next
  case True
  then have e: "account_act e = Put (str_field e ''account'') ()" by (simp add: account_act_def)
  show ?thesis
  proof (cases "map_of d (str_field e ''account'')")
    case None
    then have new: "str_field e ''account'' \<notin> fst ` set d" by (simp add: map_of_eq_None_iff)
    then have "set (AList.update (str_field e ''account'') (length es) d) =
        insert (str_field e ''account'', length es) (set d)"
      by (induction d) auto
    then show ?thesis using assms e None
      by (auto simp: account_inv_def account_step_def apply_act_def nth_append split: if_splits)
  next
    case (Some i)
    then have "str_field e ''account'' \<in> fst ` set d"
      by (metis map_of_eq_None_iff option.distinct(1))
    then show ?thesis using assms e Some
      by (auto simp: account_inv_def account_step_def apply_act_def nth_append split: if_splits)
  qed
qed

text \<open>The dictionaries of the scan are the maps of the log, with tracked positions.\<close>

definition scan_inv :: "event list \<Rightarrow> hot_state \<Rightarrow> bool" where
  "scan_inv es st \<longleftrightarrow>
     (\<forall>p. p \<in> fenced st \<longleftrightarrow> run_log fence_act es Map.empty p \<noteq> None) \<and>
     tracks fence_act es (fence_event st) \<and>
     map_of (recovery_only st) = run_log recovery_act es Map.empty \<and>
     tracks recovery_act es (recovery_event st) \<and>
     map_of (active_owners st) = run_log owner_act es Map.empty \<and>
     tracks owner_act es (active_owner_event st) \<and>
     tracks terminal_act es (marker (terminal_fence_event st)) \<and>
     tracks failure_act es (marker (projection_failure_event st)) \<and>
     account_inv es (account_entry_fence_event st)"

lemma scan_inv_init: "scan_inv [] init_hot"
  by (simp add: scan_inv_def init_hot_def marker_def account_inv_def)

lemma scan_inv_snoc:
  assumes "scan_inv es st" and "hot_step st (length es, e) = Inr st'"
  shows "scan_inv (es @ [e]) st'"
proof -
  note sel = hot_step_sel [OF assms(2)]
  have "\<forall>p. p \<in> fenced st' \<longleftrightarrow> run_log fence_act (es @ [e]) Map.empty p \<noteq> None"
    using assms(1) sel by (cases "fence_act e") (auto simp: scan_inv_def apply_act_def)
  then show ?thesis
    using assms(1) sel unfolding scan_inv_def
    by (simp add: tracks_snoc account_inv_snoc map_of_follow)
qed

lemma scan_inv: "hot_scan es = Inr st \<Longrightarrow> scan_inv es st"
proof (induction es arbitrary: st rule: rev_induct)
  case Nil
  then show ?case by (simp add: hot_scan_Nil scan_inv_init)
next
  case (snoc e es)
  then show ?case by (elim hot_scan_snocE) (rule scan_inv_snoc)
qed

subsection \<open>Command records\<close>

definition command_inv :: "event list \<Rightarrow> commands \<Rightarrow> bool" where
  "command_inv es cs \<longleftrightarrow>
     distinct (map fst cs) \<and>
     (\<forall>(k, r) \<in> set cs. record_key r = k \<and>
        status r = (case run_log status_act es Map.empty k of None \<Rightarrow> ''unknown'' | Some s \<Rightarrow> s)) \<and>
     (\<forall>k s. run_log status_act es Map.empty k = Some s \<longrightarrow> k \<in> fst ` set cs)"

lemma apply_event_sel:
  assumes "apply_event r ev n = Inr r'"
  shows "record_key r' = record_key r" "status r' = status_of ev (status r)" "last_sequence r' = n"
  using assms by (auto simp: apply_event_def apply_fields_def record_key_def Let_def split: if_splits)

lemma record_key_new [simp]: "record_key (new_command k) = k" "status (new_command k) = ''unknown''"
  by (simp_all add: record_key_def new_command_def)

lemma command_inv_snoc:
  assumes "command_inv es cs" and "update_command cs ev n = Inr cs'"
  shows "command_inv (es @ [ev]) cs'"
proof (cases "key_complete (key_of ev)")
  case False
  then show ?thesis using assms
    by (auto simp: command_inv_def update_command_def status_act_def apply_act_def Let_def)
next
  case True
  let ?k = "key_of ev"
  define r where "r = current_command cs ?k"
  from assms(2) True obtain r' where r': "apply_event r ev n = Inr r'" "cs' = AList.update ?k r' cs"
    by (cases rule: update_commandE) (auto simp: r_def)
  have run: "run_log status_act (es @ [ev]) Map.empty =
      (case status_decision ev of None \<Rightarrow> run_log status_act es Map.empty
       | Some s \<Rightarrow> (run_log status_act es Map.empty)(?k \<mapsto> s))"
    using True by (simp add: status_act_def apply_act_def split: option.split)
  have inv: "distinct (map fst cs)"
      "\<And>k x. (k, x) \<in> set cs \<Longrightarrow> record_key x = k \<and>
        status x = (case run_log status_act es Map.empty k of None \<Rightarrow> ''unknown'' | Some s \<Rightarrow> s)"
      "\<And>k s. run_log status_act es Map.empty k = Some s \<Longrightarrow> k \<in> fst ` set cs"
    using assms(1) unfolding command_inv_def by auto
  have r: "record_key r = ?k \<and>
      status r = (case run_log status_act es Map.empty ?k of None \<Rightarrow> ''unknown'' | Some s \<Rightarrow> s)"
  proof (cases "map_of cs ?k")
    case None
    then have "?k \<notin> fst ` set cs" by (simp add: map_of_eq_None_iff)
    then have "run_log status_act es Map.empty ?k = None" using inv(3) by (metis option.exhaust)
    then show ?thesis using None by (simp add: r_def current_command_def)
  next
    case (Some x)
    then show ?thesis using inv(2) [OF map_of_SomeD [OF Some]] by (simp add: r_def current_command_def)
  qed
  have status': "status r' = (case run_log status_act (es @ [ev]) Map.empty ?k of None \<Rightarrow> ''unknown'' | Some s \<Rightarrow> s)"
    using r apply_event_sel(2) [OF r'(1)] run
    by (simp add: status_of_decision split: option.splits)
  have entries: "(k, x) = (?k, r') \<or> (k, x) \<in> set cs \<and> k \<noteq> ?k" if "(k, x) \<in> set cs'" for k x
  proof -
    have d: "distinct (map fst cs')" using inv(1) r'(2) by (simp add: distinct_update)
    have "map_of cs' k = Some x" using that d by simp
    then show ?thesis using r'(2) by (auto simp: update_conv' split: if_splits dest: map_of_SomeD)
  qed
  show ?thesis unfolding command_inv_def
  proof (intro conjI ballI allI impI)
    show "distinct (map fst cs')" using inv(1) r'(2) by (simp add: distinct_update)
  next
    fix p assume "p \<in> set cs'"
    then obtain k x where p: "p = (k, x)" "(k, x) \<in> set cs'" by (metis surj_pair)
    from entries [OF p(2)] show "case p of (k, r) \<Rightarrow> record_key r = k \<and>
        status r = (case run_log status_act (es @ [ev]) Map.empty k of None \<Rightarrow> ''unknown'' | Some s \<Rightarrow> s)"
    proof
      assume "(k, x) = (?k, r')"
      then show ?thesis using p(1) r status' apply_event_sel(1) [OF r'(1)] by simp
    next
      assume "(k, x) \<in> set cs \<and> k \<noteq> ?k"
      then show ?thesis using inv(2) [of k x] p(1) unfolding run by (auto split: option.split)
    qed
  next
    fix k s assume "run_log status_act (es @ [ev]) Map.empty k = Some s"
    then have "k = ?k \<or> run_log status_act es Map.empty k = Some s"
      unfolding run by (auto split: option.splits if_splits)
    then show "k \<in> fst ` set cs'" using inv(3) [of k s] r'(2) by (auto simp: dom_update)
  qed
qed

lemma command_inv: "hot_scan es = Inr st \<Longrightarrow> command_inv es (commands st)"
proof (induction es arbitrary: st rule: rev_induct)
  case Nil
  then show ?case by (auto simp: hot_scan_Nil init_hot_def command_inv_def)
next
  case (snoc e es)
  from snoc.prems obtain st0 where st0: "hot_scan es = Inr st0" "hot_step st0 (length es, e) = Inr st"
    by (rule hot_scan_snocE)
  have "update_command (commands st0) e (int (Suc (length es))) = Inr (commands st)"
    using hot_step_sel [OF st0(2)] by blast
  then show ?case by (rule command_inv_snoc [OF snoc.IH [OF st0(1)]])
qed

lemma uncertain_keys:
  assumes "hot_scan es = Inr st"
  shows "record_key ` set (hot_commands st) = {k. run_log status_act es Map.empty k = Some ''uncertain''}"
proof -
  have inv: "\<And>k x. (k, x) \<in> set (commands st) \<Longrightarrow> record_key x = k \<and>
        status x = (case run_log status_act es Map.empty k of None \<Rightarrow> ''unknown'' | Some s \<Rightarrow> s)"
      "\<And>k s. run_log status_act es Map.empty k = Some s \<Longrightarrow> k \<in> fst ` set (commands st)"
    using command_inv [OF assms] unfolding command_inv_def by auto
  have hot: "set (hot_commands st) = {r \<in> snd ` set (commands st). status r = ''uncertain''}"
    by (auto simp: hot_commands_def)
  show ?thesis
  proof (intro equalityI subsetI)
    fix k assume "k \<in> record_key ` set (hot_commands st)"
    then obtain p where p: "p \<in> set (commands st)" "status (snd p) = ''uncertain''" "k = record_key (snd p)"
      by (auto simp: hot)
    have "(fst p, snd p) \<in> set (commands st)" using p(1) by simp
    then show "k \<in> {k. run_log status_act es Map.empty k = Some ''uncertain''}"
      using inv(1) [of "fst p" "snd p"] p(2,3) by (auto split: option.splits)
  next
    fix k assume k: "k \<in> {k. run_log status_act es Map.empty k = Some ''uncertain''}"
    then have "k \<in> fst ` set (commands st)" using inv(2) by simp
    then obtain r where r: "(k, r) \<in> set (commands st)" by auto
    then have "record_key r = k \<and> status r = ''uncertain''" using inv(1) [OF r] k by simp
    then show "k \<in> record_key ` set (hot_commands st)" using r by (force simp: hot)
  qed
qed

subsection \<open>The selection satisfies the contract of a compaction\<close>

text \<open>The positions \<open>_project_hot\<close> keeps; a scan that fails publishes nothing.\<close>

definition hot_select :: "event list \<Rightarrow> nat set" where
  "hot_select es = (case hot_scan es of Inr st \<Rightarrow> selected_events st es | Inl _ \<Rightarrow> {0..<length es})"

lemma set_option_marker: "set_option m = snd ` set (marker m)"
  by (cases m) (simp_all add: marker_def)

lemma tracks_range: "tracks act es d \<Longrightarrow> snd ` set d \<subseteq> {0..<length es}"
  by (simp add: tracks_def)

lemma selected_range:
  assumes "hot_scan es = Inr st"
  shows "selected_events st es \<subseteq> {0..<length es}"
proof -
  have inv: "scan_inv es st" by (rule scan_inv [OF assms])
  have "snd ` set (account_entry_fence_event st) \<subseteq> {0..<length es}"
    using inv by (auto simp: scan_inv_def account_inv_def)
  moreover have "snd ` set (fence_event st) \<subseteq> {0..<length es}" "snd ` set (recovery_event st) \<subseteq> {0..<length es}"
      "snd ` set (active_owner_event st) \<subseteq> {0..<length es}"
      "snd ` set (marker (terminal_fence_event st)) \<subseteq> {0..<length es}"
      "snd ` set (marker (projection_failure_event st)) \<subseteq> {0..<length es}"
    using inv unfolding scan_inv_def by (blast dest: tracks_range)+
  ultimately show ?thesis
    unfolding selected_events_def Let_def set_option_marker set_map by (intro Un_least) auto
qed

lemma hot_select_range: "hot_select es \<subseteq> {0..<length es}"
  using selected_range by (auto simp: hot_select_def split: sum.split)

lemma hot_select_covers:
  assumes run: "run_log act es Map.empty k = Some v"
    and sel: "\<And>st. hot_scan es = Inr st \<Longrightarrow> \<exists>i \<in> selected_events st es. act (es ! i) = Put k v \<and>
        (\<forall>j. i < j \<longrightarrow> j < length es \<longrightarrow> keeps (act (es ! j)) k v)"
  shows "\<exists>i \<in> hot_select es. act (es ! i) = Put k v \<and>
        (\<forall>j. i < j \<longrightarrow> j < length es \<longrightarrow> keeps (act (es ! j)) k v)"
proof (cases "hot_scan es")
  case (Inl e)
  then show ?thesis using run_log_SomeD [OF run] by (auto simp: hot_select_def)
next
  case (Inr st)
  then show ?thesis using sel by (simp add: hot_select_def)
qed

lemma tracks_selected:
  assumes "tracks act es d" and "snd ` set d \<subseteq> S" and "run_log act es Map.empty k = Some v"
  shows "\<exists>i \<in> S. act (es ! i) = Put k v \<and> (\<forall>j. i < j \<longrightarrow> j < length es \<longrightarrow> keeps (act (es ! j)) k v)"
proof -
  from assms(1,3) obtain i where i: "map_of d k = Some i" "act (es ! i) = Put k v"
    "\<forall>j. i < j \<longrightarrow> j < length es \<longrightarrow> keeps (act (es ! j)) k v" unfolding tracks_def by blast
  then have "i \<in> S" using assms(2) map_of_SomeD [OF i(1)] by (auto simp: image_subset_iff)
  then show ?thesis using i by blast
qed

lemma selected_dicts:
  "snd ` set (fence_event st) \<subseteq> selected_events st es"
  "snd ` set (recovery_event st) \<subseteq> selected_events st es"
  "snd ` set (active_owner_event st) \<subseteq> selected_events st es"
  "snd ` set (account_entry_fence_event st) \<subseteq> selected_events st es"
  "snd ` set (marker (terminal_fence_event st)) \<subseteq> selected_events st es"
  "snd ` set (marker (projection_failure_event st)) \<subseteq> selected_events st es"
  by (auto simp: selected_events_def set_option_marker Let_def)

lemma scan_tracks:
  assumes "hot_scan es = Inr st"
  shows "tracks fence_act es (fence_event st)" "tracks recovery_act es (recovery_event st)"
    "tracks owner_act es (active_owner_event st)" "tracks terminal_act es (marker (terminal_fence_event st))"
    "tracks failure_act es (marker (projection_failure_event st))"
    "account_inv es (account_entry_fence_event st)"
  using scan_inv [OF assms] by (simp_all add: scan_inv_def)

lemma register_compaction:
  assumes "\<And>es st. hot_scan es = Inr st \<Longrightarrow> tracks act es (d st)"
    and "\<And>es st. snd ` set (d st) \<subseteq> selected_events st es"
  shows "compaction act hot_select (\<lambda>_. True)"
proof
  fix es k v
  assume run: "run_log act es Map.empty k = Some v"
  show "\<exists>i \<in> hot_select es. act (es ! i) = Put k v \<and>
      (\<forall>j. i < j \<longrightarrow> j < length es \<longrightarrow> keeps (act (es ! j)) k v)"
    using run by (rule hot_select_covers) (rule tracks_selected [OF assms run])
qed (rule hot_select_range)

interpretation fence_reg: compaction fence_act hot_select "\<lambda>_. True"
  by (rule register_compaction [OF scan_tracks(1) selected_dicts(1)])

interpretation recovery_reg: compaction recovery_act hot_select "\<lambda>_. True"
  by (rule register_compaction [OF scan_tracks(2) selected_dicts(2)])

interpretation owner_reg: compaction owner_act hot_select "\<lambda>_. True"
  by (rule register_compaction [OF scan_tracks(3) selected_dicts(3)])

interpretation terminal_reg: compaction terminal_act hot_select "\<lambda>_. True"
  by (rule register_compaction [OF scan_tracks(4) selected_dicts(5)])

interpretation failure_reg: compaction failure_act hot_select "\<lambda>_. True"
  by (rule register_compaction [OF scan_tracks(5) selected_dicts(6)])

lemma account_inv_tracks: "account_inv es d \<Longrightarrow> tracks account_act es d"
proof -
  assume inv: "account_inv es d"
  have "\<exists>i. map_of d k = Some i \<and> account_act (es ! i) = Put k v"
    if "run_log account_act es Map.empty k = Some v" for k v
  proof -
    have "k \<in> fst ` set d" using inv that by (auto simp: account_inv_def)
    then obtain i where i: "map_of d k = Some i" by (metis map_of_eq_None_iff option.exhaust)
    have "(k, i) \<in> set d" by (rule map_of_SomeD [OF i])
    then show ?thesis using inv i by (auto simp: account_inv_def)
  qed
  moreover have "snd ` set d \<subseteq> {0..<length es}" using inv by (auto simp: account_inv_def)
  moreover have dom: "k \<in> dom (run_log account_act es Map.empty)" if "map_of d k = Some i" for k i
  proof -
    have i: "i < length es" "account_act (es ! i) = Put k ()"
      using inv map_of_SomeD [OF that] by (auto simp: account_inv_def)
    have "es = take i es @ es ! i # drop (Suc i) es" using i(1) by (rule id_take_nth_drop)
    then show ?thesis
      using run_log_Put [of "es ! i" es "take i es" "drop (Suc i) es" account_act k "()" Map.empty] i
      by (auto simp: account_keeps)
  qed
  moreover have "dom (map_of d) \<subseteq> dom (run_log account_act es Map.empty)" using dom by blast
  ultimately show ?thesis by (simp add: tracks_def account_keeps)
qed

interpretation account_reg: compaction account_act hot_select "\<lambda>_. True"
  by (rule register_compaction [OF account_inv_tracks [OF scan_tracks(6)] selected_dicts(4)])

text \<open>Every event of an uncertain command is kept, so its outcome is.\<close>

lemma uncertain_selected:
  assumes "hot_scan es = Inr st" and "run_log status_act es Map.empty k = Some ''uncertain''"
    and "i < length es" and "key_of (es ! i) = k"
  shows "i \<in> selected_events st es"
  using assms(3,4) uncertain_keys [OF assms(1)] assms(2) by (simp add: selected_events_def Let_def)

lemma status_act_key: "status_act ev = Put k s \<Longrightarrow> key_of ev = k"
  by (auto simp: status_act_def split: if_splits option.splits)

interpretation status_reg: compaction status_act hot_select "\<lambda>s. s = ''uncertain''"
proof
  fix es k v
  assume run: "run_log status_act es Map.empty k = Some v" and live: "v = ''uncertain''"
  show "\<exists>i \<in> hot_select es. status_act (es ! i) = Put k v \<and>
      (\<forall>j. i < j \<longrightarrow> j < length es \<longrightarrow> keeps (status_act (es ! j)) k v)"
  proof (rule hot_select_covers [OF run])
    fix st assume st: "hot_scan es = Inr st"
    from run_log_SomeD [OF run] obtain i where i: "i < length es" "status_act (es ! i) = Put k v"
      "\<forall>j. i < j \<longrightarrow> j < length es \<longrightarrow> keeps (status_act (es ! j)) k v" by auto
    have "i \<in> selected_events st es"
      by (rule uncertain_selected [OF st _ i(1) status_act_key [OF i(2)]]) (use run live in simp)
    then show "\<exists>i \<in> selected_events st es. status_act (es ! i) = Put k v \<and>
      (\<forall>j. i < j \<longrightarrow> j < length es \<longrightarrow> keeps (status_act (es ! j)) k v)" using i by blast
  qed
qed (rule hot_select_range)

end
