(* ===== verification/Hot_Replay.thy ===== *)
theory Hot_Replay
  imports Compaction
begin

section \<open>Correctness of the hot replay\<close>

text \<open>
  When \<open>_project_hot\<close> succeeds, what the hot replay preserves of the journal, alone and
  with a tail of later events, and the record of a command as a fold over its own events.
\<close>

declare split_paired_All [simp del] split_paired_Ex [simp del]

subsection \<open>When the scan succeeds\<close>

abbreviation hash_of :: "event \<Rightarrow> string" where
  "hash_of ev \<equiv> str_field ev ''request_hash''"

text \<open>A journal can be projected if account fences name their account and the events of a
  command agree on its request hash. Both conditions are about the set of events only.\<close>

definition scan_ok :: "event set \<Rightarrow> bool" where
  "scan_ok E \<longleftrightarrow>
     (\<forall>e \<in> E. event_kind e = ''account_new_entry_fenced'' \<longrightarrow> str_field e ''account'' \<noteq> []) \<and>
     (\<forall>e \<in> E. \<forall>f \<in> E. key_complete (key_of e) \<longrightarrow> key_of e = key_of f \<longrightarrow>
        hash_of e \<noteq> [] \<longrightarrow> hash_of f \<noteq> [] \<longrightarrow> hash_of e = hash_of f)"

lemma scan_ok_insert:
  "scan_ok (insert e E) \<longleftrightarrow> scan_ok E \<and>
     (event_kind e = ''account_new_entry_fenced'' \<longrightarrow> str_field e ''account'' \<noteq> []) \<and>
     (key_complete (key_of e) \<longrightarrow> hash_of e \<noteq> [] \<longrightarrow>
        (\<forall>x \<in> E. key_of x = key_of e \<longrightarrow> hash_of x \<noteq> [] \<longrightarrow> hash_of x = hash_of e))"
  unfolding scan_ok_def by (simp only: ball_simps) (intro iffI conjI impI ballI; metis)

lemma scan_ok_subset: "scan_ok F \<Longrightarrow> E \<subseteq> F \<Longrightarrow> scan_ok E"
  unfolding scan_ok_def by blast

definition hash_at :: "event list \<Rightarrow> ckey \<Rightarrow> command option \<Rightarrow> bool" where
  "hash_at es k cr =
     (case cr of
        None \<Rightarrow> \<forall>e \<in> set es. key_of e \<noteq> k
      | Some r \<Rightarrow>
          (request_hash r \<noteq> [] \<longrightarrow> (\<exists>e \<in> set es. key_of e = k \<and> hash_of e = request_hash r)) \<and>
          (\<forall>e \<in> set es. key_of e = k \<longrightarrow> hash_of e \<noteq> [] \<longrightarrow> hash_of e = request_hash r))"

definition hash_inv :: "event list \<Rightarrow> commands \<Rightarrow> bool" where
  "hash_inv es cs \<longleftrightarrow> (\<forall>k. key_complete k \<longrightarrow> hash_at es k (map_of cs k))"

lemma hash_invD: "hash_inv es cs \<Longrightarrow> key_complete k \<Longrightarrow> hash_at es k (map_of cs k)"
  unfolding hash_inv_def by blast

lemma hash_at_current:
  assumes "hash_at es k (map_of cs k)"
  shows "hash_at es k (Some (current_command cs k))"
  using assms by (cases "map_of cs k") (auto simp: hash_at_def new_command_def current_command_def)

lemma apply_event_Inl_iff:
  "(\<exists>e. apply_event r ev n = Inl e) \<longleftrightarrow>
     request_hash r \<noteq> [] \<and> hash_of ev \<noteq> [] \<and> request_hash r \<noteq> hash_of ev"
  by (simp add: apply_event_def Let_def)

lemma apply_event_hash:
  "apply_event r ev n = Inr r' \<Longrightarrow> request_hash r' = or_str (hash_of ev) (request_hash r)"
  by (auto simp: apply_event_def apply_fields_def Let_def split: if_splits)

lemma hash_inv_snoc:
  assumes inv: "hash_inv es cs" and upd: "update_command cs ev n = Inr cs'"
  shows "hash_inv (es @ [ev]) cs'"
  unfolding hash_inv_def
proof (intro allI impI)
  fix k assume k: "key_complete k"
  show "hash_at (es @ [ev]) k (map_of cs' k)"
  proof (cases "k = key_of ev")
    case False
    have "map_of cs' k = map_of cs k"
      using upd by (cases rule: update_commandE) (simp_all add: update_conv' False)
    then show ?thesis using hash_invD [OF inv k] False by (auto simp: hash_at_def split: option.split)
  next
    case True
    let ?r = "current_command cs k"
    from upd True k obtain r' where r': "apply_event ?r ev n = Inr r'" "map_of cs' k = Some r'"
      by (cases rule: update_commandE) (auto simp: update_conv')
    have "request_hash r' = or_str (hash_of ev) (request_hash ?r)" by (rule apply_event_hash [OF r'(1)])
    moreover have "\<not> (request_hash ?r \<noteq> [] \<and> hash_of ev \<noteq> [] \<and> request_hash ?r \<noteq> hash_of ev)"
      using r'(1) apply_event_Inl_iff [of ?r ev n] by auto
    ultimately show ?thesis
      using hash_at_current [OF hash_invD [OF inv k]] True r'(2)
      by (auto simp: hash_at_def or_str_def)
  qed
qed

lemma hash_inv: "hot_scan es = Inr st \<Longrightarrow> hash_inv es (commands st)"
proof (induction es arbitrary: st rule: rev_induct)
  case Nil
  then show ?case by (auto simp: hot_scan_Nil init_hot_def hash_inv_def hash_at_def)
next
  case (snoc e es)
  from snoc.prems obtain st0 where st0: "hot_scan es = Inr st0" "hot_step st0 (length es, e) = Inr st"
    by (rule hot_scan_snocE)
  have "update_command (commands st0) e (int (Suc (length es))) = Inr (commands st)"
    using hot_step_sel [OF st0(2)] by blast
  then show ?case by (rule hash_inv_snoc [OF snoc.IH [OF st0(1)]])
qed

lemma update_command_succeeds:
  assumes "hash_inv es cs"
  shows "(\<exists>cs'. update_command cs ev n = Inr cs') \<longleftrightarrow>
    (key_complete (key_of ev) \<longrightarrow> hash_of ev \<noteq> [] \<longrightarrow>
      (\<forall>e \<in> set es. key_of e = key_of ev \<longrightarrow> hash_of e \<noteq> [] \<longrightarrow> hash_of e = hash_of ev))"
proof (cases "key_complete (key_of ev)")
  case True
  let ?k = "key_of ev"
  define r where "r = current_command cs ?k"
  have r: "hash_at es ?k (Some r)"
    unfolding r_def by (rule hash_at_current [OF hash_invD [OF assms True]])
  have "(\<exists>cs'. update_command cs ev n = Inr cs') \<longleftrightarrow> \<not> (\<exists>e. apply_event r ev n = Inl e)"
    using True by (cases "apply_event r ev n") (simp_all add: update_command_def r_def Let_def)
  also have "\<dots> \<longleftrightarrow> (hash_of ev \<noteq> [] \<longrightarrow> request_hash r \<noteq> [] \<longrightarrow> request_hash r = hash_of ev)"
    unfolding apply_event_Inl_iff by blast
  also have "\<dots> \<longleftrightarrow> (hash_of ev \<noteq> [] \<longrightarrow>
      (\<forall>e \<in> set es. key_of e = ?k \<longrightarrow> hash_of e \<noteq> [] \<longrightarrow> hash_of e = hash_of ev))"
  proof (intro iffI impI ballI)
    fix e assume a: "hash_of ev \<noteq> [] \<longrightarrow> request_hash r \<noteq> [] \<longrightarrow> request_hash r = hash_of ev"
      and e: "hash_of ev \<noteq> []" "e \<in> set es" "key_of e = ?k" "hash_of e \<noteq> []"
    then have "hash_of e = request_hash r" using r unfolding hash_at_def option.case by blast
    then show "hash_of e = hash_of ev" using a e by simp
  next
    assume a: "hash_of ev \<noteq> [] \<longrightarrow>
        (\<forall>e \<in> set es. key_of e = ?k \<longrightarrow> hash_of e \<noteq> [] \<longrightarrow> hash_of e = hash_of ev)"
      and h: "hash_of ev \<noteq> []" "request_hash r \<noteq> []"
    then obtain e where "e \<in> set es" "key_of e = ?k" "hash_of e = request_hash r"
      using r unfolding hash_at_def option.case by blast
    then show "request_hash r = hash_of ev" using a h by metis
  qed
  finally show ?thesis using True by blast
qed (simp add: update_command_def Let_def)

lemma hot_step_succeeds:
  "(\<exists>st'. hot_step st (i, ev) = Inr st') \<longleftrightarrow>
     (event_kind ev = ''account_new_entry_fenced'' \<longrightarrow> str_field ev ''account'' \<noteq> []) \<and>
     (\<exists>cs'. update_command (commands st) ev (int (Suc i)) = Inr cs')"
proof -
  have acc: "(\<exists>st1. step_account_fence i ev s = Inr st1) \<longleftrightarrow>
      (event_kind ev = ''account_new_entry_fenced'' \<longrightarrow> str_field ev ''account'' \<noteq> [])" for s
    by (auto simp: step_account_fence_def Let_def)
  show ?thesis
  proof
    assume "\<exists>st'. hot_step st (i, ev) = Inr st'"
    then obtain st' where st': "hot_step st (i, ev) = Inr st'" ..
    then have "\<exists>st1. step_account_fence i ev (step_session i ev st) = Inr st1"
      by (auto simp: hot_step_def bind_res_Inr_iff)
    then show "(event_kind ev = ''account_new_entry_fenced'' \<longrightarrow> str_field ev ''account'' \<noteq> []) \<and>
        (\<exists>cs'. update_command (commands st) ev (int (Suc i)) = Inr cs')"
      using acc hot_step_sel [OF st'] by blast
  next
    assume r: "(event_kind ev = ''account_new_entry_fenced'' \<longrightarrow> str_field ev ''account'' \<noteq> []) \<and>
        (\<exists>cs'. update_command (commands st) ev (int (Suc i)) = Inr cs')"
    then obtain st1 where st1: "step_account_fence i ev (step_session i ev st) = Inr st1"
      using acc by blast
    have "commands (step_attempt i ev (step_markers i ev (step_owners i ev st1))) = commands st"
      by (simp add: step_sels step_account_fence_sel [OF st1])
    then show "\<exists>st'. hot_step st (i, ev) = Inr st'"
      using r by (auto simp: hot_step_def st1 Let_def bind_res_Inr_iff)
  qed
qed

lemma hot_scan_succeeds: "(\<exists>st. hot_scan es = Inr st) \<longleftrightarrow> scan_ok (set es)"
proof (induction es rule: rev_induct)
  case Nil
  then show ?case by (simp add: hot_scan_Nil scan_ok_def)
next
  case (snoc e es)
  show ?case
  proof (cases "hot_scan es")
    case (Inl x)
    then have "\<not> scan_ok (set es)" using snoc.IH by simp
    then have "\<not> scan_ok (set (es @ [e]))" using scan_ok_subset [of "set (es @ [e])" "set es"] by auto
    then show ?thesis using Inl by (simp add: hot_scan_snoc)
  next
    case (Inr st)
    then have "scan_ok (set es)" using snoc.IH by blast
    then show ?thesis
      using Inr hot_step_succeeds [of st "length es" e] update_command_succeeds [OF hash_inv [OF Inr]]
      by (simp add: hot_scan_snoc scan_ok_insert)
  qed
qed

lemma hot_scan_prefix: "hot_scan (es @ t) = Inr st \<Longrightarrow> \<exists>s. hot_scan es = Inr s"
  using hot_scan_succeeds [of es] hot_scan_succeeds [of "es @ t"] scan_ok_subset [of "set (es @ t)" "set es"]
  by auto

subsection \<open>The record of a command\<close>

text \<open>A record depends on the events of its key only, in their order; the sequence number is
  left out (\<open>unnumbered\<close>).\<close>

definition unnumbered :: "command \<Rightarrow> command" where
  "unnumbered r = r\<lparr>last_sequence := 0\<rparr>"

definition command_events :: "ckey \<Rightarrow> event list \<Rightarrow> event list" where
  "command_events k es = filter (\<lambda>e. key_of e = k) es"

definition command_of :: "ckey \<Rightarrow> event list \<Rightarrow> command option" where
  "command_of k es =
     (if command_events k es = [] then None
      else Some (foldl apply_fields (unnumbered (new_command k)) (command_events k es)))"

lemma unnumbered_apply: "unnumbered (apply_fields r ev) = apply_fields (unnumbered r) ev"
  by (simp add: unnumbered_def apply_fields_def Let_def)

lemma unnumbered_seq [simp]: "unnumbered (r\<lparr>last_sequence := n\<rparr>) = unnumbered r"
  by (simp add: unnumbered_def)

lemma command_of_snoc:
  "command_of k (es @ [e]) =
     (if key_of e = k
      then Some (apply_fields (case command_of k es of None \<Rightarrow> unnumbered (new_command k) | Some r \<Rightarrow> r) e)
      else command_of k es)"
  by (simp add: command_of_def command_events_def)

lemma hot_scan_command:
  assumes "hot_scan es = Inr st" and "key_complete k"
  shows "map_option unnumbered (map_of (commands st) k) = command_of k es"
  using assms(1)
proof (induction es arbitrary: st rule: rev_induct)
  case Nil
  then show ?case by (auto simp: hot_scan_Nil init_hot_def command_of_def command_events_def)
next
  case (snoc e es)
  from snoc.prems obtain st0 where st0: "hot_scan es = Inr st0" "hot_step st0 (length es, e) = Inr st"
    by (rule hot_scan_snocE)
  note IH = snoc.IH [OF st0(1)]
  have "update_command (commands st0) e (int (Suc (length es))) = Inr (commands st)"
    using hot_step_sel [OF st0(2)] by blast
  then show ?case
  proof (cases rule: update_commandE)
    case skip
    then show ?thesis using IH assms(2) by (auto simp: command_of_snoc)
  next
    case (upd r)
    then have "unnumbered r = apply_fields (unnumbered (current_command (commands st0) (key_of e))) e"
      by (auto simp: apply_event_def Let_def unnumbered_apply split: if_splits)
    then show ?thesis using upd(3) IH [symmetric]
      by (cases "map_of (commands st0) k")
        (auto simp: command_of_snoc update_conv' current_command_def)
  qed
qed

lemma command_of_cong: "command_events k es = command_events k ds \<Longrightarrow> command_of k es = command_of k ds"
  by (simp add: command_of_def)

subsection \<open>The hot replay\<close>

lemma hot_replay_pick:
  assumes "hot_scan es = Inr st"
  shows "hot_replay st es = pick es (hot_select es)"
  by (simp add: assms hot_replay_def pick_def hot_select_def)

lemma hot_replay_nths:
  assumes "hot_scan es = Inr st"
  shows "hot_replay st es = nths es (hot_select es)"
  by (simp add: hot_replay_pick [OF assms] pick_nths hot_select_range)

lemma hot_replay_set: "hot_scan es = Inr st \<Longrightarrow> set (hot_replay st es) \<subseteq> set es"
  by (auto simp: hot_replay_nths dest: in_set_nthsD)

text \<open>The protections of one projection are those of another at least.\<close>

definition protects :: "hot_state \<Rightarrow> hot_state \<Rightarrow> bool" where
  "protects st st' \<longleftrightarrow>
     fenced st \<subseteq> fenced st' \<and>
     map_of (recovery_only st) \<subseteq>\<^sub>m map_of (recovery_only st') \<and>
     map_of (active_owners st) \<subseteq>\<^sub>m map_of (active_owners st') \<and>
     fst ` set (account_entry_fence_event st) \<subseteq> fst ` set (account_entry_fence_event st') \<and>
     (terminal_fence_event st \<noteq> None \<longrightarrow> terminal_fence_event st' \<noteq> None) \<and>
     (projection_failure_event st \<noteq> None \<longrightarrow> projection_failure_event st' \<noteq> None) \<and>
     record_key ` set (hot_commands st) \<subseteq> record_key ` set (hot_commands st')"

lemma live_le_map_le: "live_le (\<lambda>_. True) m m' \<longleftrightarrow> m \<subseteq>\<^sub>m m'"
  by (auto simp: live_le_def map_le_def) (metis domI)

lemma marker_dom: "() \<in> dom (map_of (marker m)) \<longleftrightarrow> m \<noteq> None"
  by (cases m) (auto simp: marker_def)

text \<open>Every field that \<open>protects\<close> compares, as the map the log leaves.\<close>

lemma scan_fields:
  assumes "hot_scan es = Inr st"
  shows "fenced st = dom (run_log fence_act es Map.empty)"
    and "map_of (recovery_only st) = run_log recovery_act es Map.empty"
    and "map_of (active_owners st) = run_log owner_act es Map.empty"
    and "fst ` set (account_entry_fence_event st) = dom (run_log account_act es Map.empty)"
    and "terminal_fence_event st \<noteq> None \<longleftrightarrow> () \<in> dom (run_log terminal_act es Map.empty)"
    and "projection_failure_event st \<noteq> None \<longleftrightarrow> () \<in> dom (run_log failure_act es Map.empty)"
    and "record_key ` set (hot_commands st) = {k. run_log status_act es Map.empty k = Some ''uncertain''}"
proof -
  note inv = scan_inv [OF assms, unfolded scan_inv_def]
  have "\<forall>p. p \<in> fenced st \<longleftrightarrow> run_log fence_act es Map.empty p \<noteq> None" using inv by (elim conjE)
  then show "fenced st = dom (run_log fence_act es Map.empty)" by (simp add: set_eq_iff domIff)
  show "map_of (recovery_only st) = run_log recovery_act es Map.empty"
    "map_of (active_owners st) = run_log owner_act es Map.empty"
    using inv by blast+
  show "fst ` set (account_entry_fence_event st) = dom (run_log account_act es Map.empty)"
    using tracks_dom [OF account_inv_tracks [OF scan_tracks(6) [OF assms]]] by (simp add: dom_map_of_conv_image_fst)
  show "terminal_fence_event st \<noteq> None \<longleftrightarrow> () \<in> dom (run_log terminal_act es Map.empty)"
    "projection_failure_event st \<noteq> None \<longleftrightarrow> () \<in> dom (run_log failure_act es Map.empty)"
    using tracks_dom [OF scan_tracks(4) [OF assms]] tracks_dom [OF scan_tracks(5) [OF assms]]
      marker_dom [of "terminal_fence_event st"] marker_dom [of "projection_failure_event st"] by simp_all
  show "record_key ` set (hot_commands st) = {k. run_log status_act es Map.empty k = Some ''uncertain''}"
    by (rule uncertain_keys [OF assms])
qed

lemma protectsI:
  assumes "hot_scan es = Inr st" and "hot_scan ds = Inr st'"
    and "live_le (\<lambda>_. True) (run_log fence_act es Map.empty) (run_log fence_act ds Map.empty)"
    and "live_le (\<lambda>_. True) (run_log recovery_act es Map.empty) (run_log recovery_act ds Map.empty)"
    and "live_le (\<lambda>_. True) (run_log owner_act es Map.empty) (run_log owner_act ds Map.empty)"
    and "live_le (\<lambda>_. True) (run_log account_act es Map.empty) (run_log account_act ds Map.empty)"
    and "live_le (\<lambda>_. True) (run_log terminal_act es Map.empty) (run_log terminal_act ds Map.empty)"
    and "live_le (\<lambda>_. True) (run_log failure_act es Map.empty) (run_log failure_act ds Map.empty)"
    and "live_le (\<lambda>s. s = ''uncertain'') (run_log status_act es Map.empty) (run_log status_act ds Map.empty)"
  shows "protects st st'"
  unfolding protects_def scan_fields [OF assms(1)] scan_fields [OF assms(2)]
  using assms(3-9) by (auto simp: live_le_map_le map_le_def live_le_def) (metis domI)+

text \<open>C2. Compaction loses no protection, whatever follows: if a journal followed by a tail can
  be projected, then so can its hot replay followed by the same tail, and every session fence,
  recovery-only owner, active order owner, account entry fence, terminal fence, unresolved
  projection failure and uncertain command of the full journal is one of the compacted
  journal too, with the same data.\<close>

theorem hot_replay_protects:
  assumes "hot_scan (es @ t) = Inr st" and "hot_scan es = Inr s"
  shows "\<exists>st'. hot_scan (hot_replay s es @ t) = Inr st' \<and> protects st st'"
proof -
  have "scan_ok (set (es @ t))" using assms(1) hot_scan_succeeds [of "es @ t"] by blast
  then have "scan_ok (set (hot_replay s es @ t))"
    by (rule scan_ok_subset) (use hot_replay_set [OF assms(2)] in auto)
  then obtain st' where st': "hot_scan (hot_replay s es @ t) = Inr st'"
    using hot_scan_succeeds by blast
  have "protects st st'"
    using assms(1) st' unfolding hot_replay_pick [OF assms(2)]
    by (rule protectsI) (rule fence_reg.compact_append_keeps_live recovery_reg.compact_append_keeps_live
        owner_reg.compact_append_keeps_live account_reg.compact_append_keeps_live
        terminal_reg.compact_append_keeps_live failure_reg.compact_append_keeps_live
        status_reg.compact_append_keeps_live)+
  then show ?thesis using st' by blast
qed

lemma uncertain_record_kept:
  assumes "hot_scan es = Inr st" and "map_of (commands st) k = Some r" and "status r = ''uncertain''"
  shows "\<exists>st' r'. hot_scan (hot_replay st es) = Inr st' \<and> map_of (commands st') k = Some r' \<and>
    unnumbered r' = unnumbered r"
proof -
  have "(k, r) \<in> set (commands st)" by (rule map_of_SomeD [OF assms(2)])
  then have rk: "record_key r = k" and unc: "run_log status_act es Map.empty k = Some ''uncertain''"
    using command_inv [OF assms(1)] assms(3) by (auto simp: command_inv_def split: option.splits)
  have kc: "key_complete k"
    using run_log_SomeD [OF unc] by (auto simp: status_act_def split: if_splits option.splits)
  have "scan_ok (set (hot_replay st es))"
    by (rule scan_ok_subset [OF _ hot_replay_set [OF assms(1)]]) (use assms(1) hot_scan_succeeds in blast)
  then obtain st' where st': "hot_scan (hot_replay st es) = Inr st'" using hot_scan_succeeds by blast
  have "command_events k (hot_replay st es) = command_events k es"
    unfolding hot_replay_nths [OF assms(1)] command_events_def
    by (rule nths_filter_all) (use uncertain_selected [OF assms(1) unc] assms(1) in \<open>auto simp: hot_select_def\<close>)
  then have "map_option unnumbered (map_of (commands st') k) = Some (unnumbered r)"
    using hot_scan_command [OF st' kc] hot_scan_command [OF assms(1) kc] assms(2)
    by (simp add: command_of_cong [of k "hot_replay st es" es])
  then show ?thesis using st' by auto
qed

text \<open>C3. The record of an uncertain command survives compaction exactly, up to its sequence
  number: the hot replay holds all its events in their order, so operation, outcome, hash,
  order id, reason, account and durable-intent flag are those of the full journal.\<close>

theorem hot_replay_uncertain_record:
  assumes "hot_scan es = Inr st" and "map_of (commands st) k = Some r" and "status r = ''uncertain''"
  shows "\<exists>st' r'. hot_scan (hot_replay st es) = Inr st' \<and> map_of (commands st') k = Some r' \<and>
    unnumbered r' = unnumbered r"
  by (rule uncertain_record_kept [OF assms])

lemma account_run_dom: "dom (run_log account_act es Map.empty) = {acc. \<exists>e \<in> set es. account_act e = Put acc ()}"
proof (induction es rule: rev_induct)
  case (snoc e es)
  then show ?case by (auto simp: account_act_def apply_act_def split: if_splits)
qed simp

text \<open>C16. The hot replay invents nothing: it is a subsequence of the journal, and the fenced
  accounts are exactly those of the journal, none dropped and none added.\<close>

theorem hot_replay_subsequence:
  assumes "hot_scan es = Inr st"
  shows "subseq (hot_replay st es) es \<and>
    (\<exists>st'. hot_scan (hot_replay st es) = Inr st' \<and>
      fst ` set (account_entry_fence_event st') = fst ` set (account_entry_fence_event st))"
proof -
  have "scan_ok (set (hot_replay st es))"
    by (rule scan_ok_subset [OF _ hot_replay_set [OF assms]]) (use assms hot_scan_succeeds in blast)
  then obtain st' where st': "hot_scan (hot_replay st es) = Inr st'" using hot_scan_succeeds by blast
  have "dom (run_log account_act es Map.empty) \<subseteq> dom (run_log account_act (hot_replay st es) Map.empty)"
    using account_reg.compact_keeps_live [of es] unfolding hot_replay_pick [OF assms] live_le_map_le
    by (rule map_le_implies_dom_le)
  moreover have "dom (run_log account_act (hot_replay st es) Map.empty) \<subseteq> dom (run_log account_act es Map.empty)"
    using hot_replay_set [OF assms] by (auto simp: account_run_dom)
  ultimately show ?thesis
    using st' by (auto simp: scan_fields(4) [OF st'] scan_fields(4) [OF assms] hot_replay_nths [OF assms]
        subseq_conv_nths)
qed

subsection \<open>A sample journal\<close>

text \<open>A fence, a command that stays uncertain, a status of another order, and a tail.\<close>

definition sample_fence :: event where
  "sample_fence =
     [(''event'', JStr ''session_owner_fenced''), (''event_id'', JStr ''f1''), (''ts_ms'', JInt 1),
      (''source'', JStr ''agent:a''), (''trace_id'', JStr ''s'')]"

definition sample_intent :: event where
  "sample_intent =
     [(''event'', JStr ''order_intent''), (''req_id'', JStr ''c1''), (''ts_ms'', JInt 2),
      (''source'', JStr ''agent:a''), (''trace_id'', JStr ''s''), (''request_hash'', JStr ''h'')]"

definition sample_status :: event where
  "sample_status = [(''event'', JStr ''status''), (''ts_ms'', JInt 3), (''order_id'', JInt 5)]"

definition sample_log :: "event list" where
  "sample_log = [sample_fence, sample_intent, sample_status]"

lemma sample_log_hot:
  "case hot_scan sample_log of
     Inr st \<Rightarrow> hot_replay st sample_log = [sample_fence, sample_intent] \<and>
       map_option status (map_of (commands st) (''a'', ''s'', ''c1'')) = Some ''uncertain''
   | Inl _ \<Rightarrow> False"
  by code_simp

lemma sample_log_scan:
  obtains s st where "hot_scan sample_log = Inr s" "hot_replay s sample_log = [sample_fence, sample_intent]"
    "map_option status (map_of (commands s) (''a'', ''s'', ''c1'')) = Some ''uncertain''"
    "hot_scan (sample_log @ [sample_intent]) = Inr st"
proof -
  obtain s where s: "hot_scan sample_log = Inr s" using sample_log_hot by (auto split: sum.splits)
  have "set (sample_log @ [sample_intent]) = set sample_log" by (auto simp: sample_log_def)
  then obtain st where "hot_scan (sample_log @ [sample_intent]) = Inr st"
    using s hot_scan_succeeds [of sample_log] hot_scan_succeeds [of "sample_log @ [sample_intent]"] by auto
  then show thesis using s sample_log_hot that by simp
qed

theorem hot_replay_protects_witness:
  "\<exists>st s st'. hot_scan (sample_log @ [sample_intent]) = Inr st \<and> hot_scan sample_log = Inr s \<and>
     hot_replay s sample_log = [sample_fence, sample_intent] \<and>
     hot_scan (hot_replay s sample_log @ [sample_intent]) = Inr st' \<and> protects st st'"
proof (rule sample_log_scan)
  fix s st
  assume a: "hot_scan sample_log = Inr s" "hot_replay s sample_log = [sample_fence, sample_intent]"
    "hot_scan (sample_log @ [sample_intent]) = Inr st"
  then show ?thesis using hot_replay_protects [OF a(3,1)] by blast
qed

theorem hot_replay_uncertain_record_witness:
  "\<exists>s r st' r'. hot_scan sample_log = Inr s \<and> map_of (commands s) (''a'', ''s'', ''c1'') = Some r \<and>
     status r = ''uncertain'' \<and> hot_scan (hot_replay s sample_log) = Inr st' \<and>
     map_of (commands st') (''a'', ''s'', ''c1'') = Some r' \<and> unnumbered r' = unnumbered r"
proof (rule sample_log_scan)
  fix s
  assume a: "hot_scan sample_log = Inr s"
    "map_option status (map_of (commands s) (''a'', ''s'', ''c1'')) = Some ''uncertain''"
  then obtain r where r: "map_of (commands s) (''a'', ''s'', ''c1'') = Some r" "status r = ''uncertain''"
    by auto
  then show ?thesis using a(1) hot_replay_uncertain_record [OF a(1) r] by blast
qed

theorem hot_replay_subsequence_witness:
  "\<exists>s. hot_scan sample_log = Inr s \<and> subseq (hot_replay s sample_log) sample_log"
  by (rule sample_log_scan) (use hot_replay_subsequence in blast)

end
