(* ===== verification/Send_Sort.thy ===== *)
theory Send_Sort
  imports Send_Index
begin

section \<open>Correctness of the send index\<close>

text \<open>
  The external sort and the merge of \<open>Send_Index\<close> against a reference: the rows sorted by
  their key, accepted only if the keys are distinct. Soundness lemmas say what a run that
  succeeds has written, completeness lemmas that valid input is accepted.
\<close>

declare split_paired_All [simp del] split_paired_Ex [simp del]

subsection \<open>Strictly sorted lists\<close>

definition ssorted :: "('r \<Rightarrow> 'k::linorder) \<Rightarrow> 'r list \<Rightarrow> bool" where
  "ssorted K xs \<longleftrightarrow> sorted_wrt (\<lambda>a b. K a < K b) xs"

lemma ssorted_simps [simp]:
  "ssorted K []" "ssorted K (x # xs) \<longleftrightarrow> (\<forall>y \<in> set xs. K x < K y) \<and> ssorted K xs"
  by (simp_all add: ssorted_def)

lemma ssorted_iff: "ssorted K xs \<longleftrightarrow> sorted (map K xs) \<and> distinct (map K xs)"
proof -
  have "ssorted K xs \<longleftrightarrow> sorted_wrt (<) (map K xs)" by (simp add: ssorted_def sorted_wrt_map)
  then show ?thesis by (simp add: strict_sorted_iff)
qed

lemma ssorted_distinct: "ssorted K xs \<Longrightarrow> distinct (map K xs)"
  by (simp add: ssorted_iff)

lemma ssorted_sort_key: "distinct (map K xs) \<Longrightarrow> ssorted K (sort_key K xs)"
proof -
  assume d: "distinct (map K xs)"
  have "mset (map K (sort_key K xs)) = mset (map K xs)" by simp
  then have "distinct (map K (sort_key K xs))" using d by (metis mset_eq_imp_distinct_iff)
  then show ?thesis by (simp add: ssorted_iff)
qed

lemma ssorted_unique: "ssorted K xs \<Longrightarrow> ssorted K ys \<Longrightarrow> set xs = set ys \<Longrightarrow> xs = ys"
proof (induction xs arbitrary: ys)
  case (Cons x xs)
  then obtain y ys' where ys: "ys = y # ys'" by (cases ys) auto
  have "x = y"
  proof (rule ccontr)
    assume "x \<noteq> y"
    then have "x \<in> set ys'" "y \<in> set xs" using Cons.prems(3) ys by auto
    then have "K y < K x" "K x < K y" using Cons.prems(1,2) ys by auto
    then show False by simp
  qed
  moreover have "x \<notin> set xs" "y \<notin> set ys'" using Cons.prems(1,2) ys by auto
  ultimately have "set xs = set ys'" using Cons.prems(3) ys by auto
  then have "xs = ys'" using Cons.IH Cons.prems(1,2) ys by simp
  then show ?case using ys \<open>x = y\<close> by simp
qed simp

lemma ssorted_eq_sort_key:
  assumes "ssorted K c" and "mset c = mset xs"
  shows "c = sort_key K xs" and "distinct (map K xs)"
proof -
  have "mset (map K c) = mset (map K xs)" using assms(2) by simp
  then show d: "distinct (map K xs)"
    using ssorted_distinct [OF assms(1)] by (metis mset_eq_imp_distinct_iff)
  show "c = sort_key K xs"
    by (rule ssorted_unique [OF assms(1) ssorted_sort_key [OF d]]) (use mset_eq_setD [OF assms(2)] in simp)
qed

subsection \<open>The line iterator reads back what was written\<close>

fun iter_reference :: "exn \<Rightarrow> string list \<Rightarrow> string list \<Rightarrow> line_gen" where
  "iter_reference e acc [] = (acc, None)"
| "iter_reference e acc [l] =
     (acc, if MAX_INDEX_LINE < length l then Some e else if l = [] then None
           else Some (GenerationError ''OMS_GENERATION_INDEX_TORN_RECORD''))"
| "iter_reference e acc (l # l' # ls) =
     (if MAX_INDEX_LINE \<le> length l then (acc, Some e) else iter_reference e (acc @ [l @ [LF]]) (l' # ls))"

lemma drain_lines_reference:
  "iter_reference e acc (split_on LF (pending @ data)) =
     (case drain_lines e pending acc of
        (acc', p, Some x) \<Rightarrow> (acc', Some x)
      | (acc', p, None) \<Rightarrow> iter_reference e acc' (split_on LF (p @ data))) \<and>
   (\<forall>acc' p. drain_lines e pending acc = (acc', p, None) \<longrightarrow> LF \<notin> set p)"
proof (induction e pending acc rule: drain_lines.induct)
  case (1 e pending acc)
  note unf = drain_lines.simps [of e pending acc]
  show ?case
  proof (cases "partition_at LF pending")
    case None
    then have "drain_lines e pending acc = (acc, pending, None)" "LF \<notin> set pending"
      by (simp_all add: unf) (simp add: partition_at_None)
    then show ?thesis by simp
  next
    case (Some q)
    then obtain l rest where q: "q = (l, rest)" by (cases q)
    have p: "pending = l @ LF # rest" "LF \<notin> set l" using Some q by (auto dest: partition_at_SomeD)
    have sp: "split_on LF (pending @ data) = l # split_on LF (rest @ data)"
      using p split_on_append_sep [of LF l "rest @ data"] by simp
    obtain y ys where y: "split_on LF (rest @ data) = y # ys" by (metis split_on_not_Nil neq_Nil_conv)
    show ?thesis
    proof (cases "MAX_INDEX_LINE \<le> length l")
      case True
      then show ?thesis using Some q sp y by (simp add: unf)
    next
      case False
      then show ?thesis using "1.IH" [OF Some q [symmetric] False] Some q sp y by (simp add: unf)
    qed
  qed
qed

lemma iter_reference_long:
  assumes "LF \<notin> set p" and "MAX_INDEX_LINE < length p"
  shows "iter_reference e acc (split_on LF (p @ data)) = (acc, Some e)"
proof -
  obtain l ls where "split_on LF (p @ data) = (p @ l) # ls" using split_on_prefix [OF assms(1)] by blast
  then show ?thesis using assms(2) by (cases ls) auto
qed

lemma iter_blocks_reference:
  assumes "LF \<notin> set pending" and "length pending \<le> MAX_INDEX_LINE"
  shows "iter_blocks e pending acc bs = iter_reference e acc (split_on LF (pending @ concat bs))"
  using assms
proof (induction bs arbitrary: pending acc)
  case Nil
  then show ?case by (simp add: split_on_no_sep)
next
  case (Cons b bs)
  obtain acc' p r where d: "drain_lines e (pending @ b) acc = (acc', p, r)" by (metis prod_cases3)
  note ref = drain_lines_reference [of e acc "pending @ b" "concat bs"]
  show ?case
  proof (cases r)
    case None
    then have p: "LF \<notin> set p" using ref d by auto
    show ?thesis
    proof (cases "MAX_INDEX_LINE < length p")
      case True
      then show ?thesis using ref d None iter_reference_long [OF p True] by simp
    next
      case False
      then show ?thesis using ref d None Cons.IH [OF p] by simp
    qed
  next
    case (Some x)
    then show ?thesis using ref d by simp
  qed
qed

text \<open>The line iterator does not depend on its block size.\<close>

lemma iter_lines_reference: "iter_lines e content = iter_reference e [] (split_on LF content)"
  by (simp add: iter_lines_def iter_blocks_reference concat_blocks BLOCK_def)

text \<open>Rows as the writers produce them: one line with a readable key.\<close>

definition line_ok :: "string \<Rightarrow> bool" where
  "line_ok r \<longleftrightarrow> (\<exists>l. r = l @ [LF] \<and> LF \<notin> set l)"

definition row_ok :: "string \<Rightarrow> bool" where
  "row_ok r \<longleftrightarrow> line_ok r \<and> (\<exists>k. send_key r = Inr k)"

definition row_key :: "string \<Rightarrow> attempt_key" where
  "row_key r = projr (send_key r)"

lemma row_ok_key: "row_ok r \<Longrightarrow> send_key r = Inr (row_key r)"
  by (auto simp: row_ok_def row_key_def)

lemma row_ok_length:
  assumes "row_ok r"
  shows "line_ok r \<and> length r \<le> MAX_INDEX_LINE"
proof (rule conjI, use assms in \<open>simp add: row_ok_def\<close>, rule ccontr)
  assume "\<not> length r \<le> MAX_INDEX_LINE"
  then have "send_key r = gen_error ''OMS_GENERATION_SEND_INDEX_INVALID''" by (simp add: send_key_def)
  with row_ok_key [OF assms] show False by (simp add: gen_error_def)
qed

text \<open>A file of complete lines within the limit is read back line by line.\<close>

lemma iter_lines_written:
  assumes "\<forall>r \<in> set rows. line_ok r \<and> length r \<le> MAX_INDEX_LINE"
  shows "iter_lines e (concat rows) = (rows, None)"
proof -
  have "iter_reference e acc (split_on LF (concat rows)) = (acc @ rows, None)" for acc
    using assms
  proof (induction rows arbitrary: acc)
    case (Cons r rows)
    from Cons.prems obtain l where l: "r = l @ [LF]" "LF \<notin> set l" "length l < MAX_INDEX_LINE"
      by (auto simp: line_ok_def)
    obtain y ys where y: "split_on LF (concat rows) = y # ys" by (metis split_on_not_Nil neq_Nil_conv)
    have "split_on LF (concat (r # rows)) = l # y # ys"
      using l(1,2) y split_on_append_sep [of LF l "concat rows"] by simp
    then show ?case using Cons.IH [of "acc @ [r]"] Cons.prems l y by simp
  qed simp
  then show ?thesis by (simp add: iter_lines_reference)
qed

lemma iter_lines_rows: "\<forall>r \<in> set rows. row_ok r \<Longrightarrow> iter_lines e (concat rows) = (rows, None)"
  by (rule iter_lines_written) (simp add: row_ok_length)

subsection \<open>Writing and merging sorted rows\<close>

text \<open>
  The outcome of a step that is to leave the given rows in one sorted file: it fails only if
  two rows share a key, and otherwise writes exactly these rows, strictly sorted.
\<close>

definition sorted_outcome :: "string list \<Rightarrow> string res \<Rightarrow> bool" where
  "sorted_outcome rows r \<longleftrightarrow>
     (case r of
        Inl e \<Rightarrow> \<not> distinct (map row_key rows)
      | Inr out \<Rightarrow> \<exists>c. out = concat c \<and> ssorted row_key c \<and> mset c = mset rows)"

lemma sorted_outcome_iff:
  assumes "sorted_outcome rows r"
  shows "r = Inr out \<longleftrightarrow> distinct (map row_key rows) \<and> out = concat (sort_key row_key rows)"
proof (cases r)
  case (Inl e)
  then show ?thesis using assms by (simp add: sorted_outcome_def)
next
  case (Inr out')
  then obtain c where c: "out' = concat c" "ssorted row_key c" "mset c = mset rows"
    using assms by (auto simp: sorted_outcome_def)
  show ?thesis using Inr c(1) ssorted_eq_sort_key [OF c(2,3)] by auto
qed

lemma write_private_lines_sorted:
  assumes "\<forall>r \<in> set rows. row_ok r" and "ssorted row_key rows"
    and "\<forall>p. previous = Some p \<longrightarrow> (\<forall>r \<in> set rows. p < row_key r)"
  shows "write_private_lines previous rows = Inr (concat rows)"
  using assms
proof (induction rows arbitrary: previous)
  case (Cons r rows)
  then have k: "send_key r = Inr (row_key r)" by (simp add: row_ok_key)
  have "case previous of None \<Rightarrow> True | Some p \<Rightarrow> p < row_key r"
    using Cons.prems(3) by (simp split: option.split)
  then show ?case using Cons.IH [of "Some (row_key r)"] Cons.prems k by (simp add: guard_res_def)
qed simp

lemma adjacent_distinct:
  assumes "sorted xs"
  shows "has_adjacent_duplicate xs \<longleftrightarrow> \<not> distinct (map fst xs)"
  using assms
proof (induction xs rule: has_adjacent_duplicate.induct)
  case (1 a b xs)
  have "fst a \<in> fst ` set xs \<Longrightarrow> fst a = fst b"
  proof -
    assume "fst a \<in> fst ` set xs"
    then obtain c where c: "c \<in> set xs" "fst a = fst c" by auto
    have "fst a \<le> fst b" "fst b \<le> fst c" using 1(2) c(1) by (auto simp: less_eq_prod_def)
    then show ?thesis using c(2) by simp
  qed
  then show ?case using 1 by auto
qed simp_all

lemma sorted_fst: "sorted xs \<Longrightarrow> sorted (map fst xs)"
  by (induction xs) (auto simp: less_eq_prod_def)

lemma map_res_keyed:
  "\<forall>r \<in> set rows. row_ok r \<Longrightarrow>
     map_res (\<lambda>r. bind_res (send_key r) (\<lambda>k. Inr (k, r))) rows = Inr (map (\<lambda>r. (row_key r, r)) rows)"
  by (induction rows) (auto simp: row_ok_key)

lemma keyed_snd:
  assumes "set ks \<subseteq> (\<lambda>r. (row_key r, r)) ` A"
  shows "map fst ks = map row_key (map snd ks)"
  using assms by (induction ks) auto

lemma flush_chunk_outcome:
  assumes ok: "\<forall>r \<in> set rows. row_ok r"
  shows "sorted_outcome rows (flush_chunk rows)"
proof -
  define ks where "ks = sort (map (\<lambda>r. (row_key r, r)) rows)"
  have m: "mset (map snd ks) = mset rows"
    by (simp add: ks_def multiset.map_comp comp_def)
  have f: "map fst ks = map row_key (map snd ks)"
    by (rule keyed_snd [of _ "set rows"]) (simp add: ks_def)
  have "distinct (map row_key (map snd ks)) \<longleftrightarrow> distinct (map row_key rows)"
    by (rule mset_eq_imp_distinct_iff)
      (use arg_cong [OF m, of "image_mset row_key"] in \<open>simp only: mset_map\<close>)
  then have dup: "has_adjacent_duplicate ks \<longleftrightarrow> \<not> distinct (map row_key rows)"
    using adjacent_distinct [of ks] unfolding f [symmetric] by (simp add: ks_def)
  have fc: "flush_chunk rows = bind_res (guard_res (\<not> has_adjacent_duplicate ks)
       (GenerationError ''OMS_GENERATION_SEND_INDEX_DUPLICATE'')) (\<lambda>_. write_private_lines None (map snd ks))"
    by (simp add: flush_chunk_def map_res_keyed [OF ok] ks_def Let_def)
  show ?thesis
  proof (cases "has_adjacent_duplicate ks")
    case True
    then show ?thesis using fc dup by (simp add: sorted_outcome_def guard_res_def)
  next
    case False
    have "sorted (map fst ks)"
      by (rule sorted_fst) (simp add: ks_def)
    then have s: "ssorted row_key (map snd ks)"
      using False adjacent_distinct [of ks] unfolding ssorted_iff f [symmetric] by (simp add: ks_def)
    have "\<forall>r \<in> set (map snd ks). row_ok r" using ok unfolding mset_eq_setD [OF m] .
    then have "write_private_lines None (map snd ks) = Inr (concat (map snd ks))"
      by (rule write_private_lines_sorted [OF _ s]) simp
    then have "flush_chunk rows = Inr (concat (map snd ks))" using fc False by (simp add: guard_res_def)
    then show ?thesis unfolding sorted_outcome_def using s m by (simp only: sum.case) blast
  qed
qed

text \<open>An iterator over a list of rows, after its first \<open>next\<close>.\<close>

definition first_row :: "string list \<Rightarrow> string option" where
  "first_row rows = (case rows of [] \<Rightarrow> None | r # _ \<Rightarrow> Some r)"

lemma next_row_rows: "next_row (rows, None) = Inr (first_row rows, (tl rows, None))"
  by (simp add: next_row_def first_row_def split: list.split)

lemma opt_key_first:
  "\<forall>r \<in> set rows. row_ok r \<Longrightarrow> opt_key (first_row rows) = Inr (map_option row_key (first_row rows))"
  by (cases rows) (auto simp: opt_key_def first_row_def row_ok_key)

lemma merge_loop_outcome:
  assumes "\<forall>r \<in> set ls. row_ok r" and "\<forall>r \<in> set rs. row_ok r"
    and "ssorted row_key ls" and "ssorted row_key rs"
    and "\<forall>p. previous = Some p \<longrightarrow> (\<forall>r \<in> set (ls @ rs). p < row_key r)"
  shows "case merge_loop (first_row ls) (tl ls, None) (first_row rs) (tl rs, None) previous out of
      Inl e \<Rightarrow> \<not> distinct (map row_key (ls @ rs))
    | Inr res \<Rightarrow> \<exists>c. res = out @ concat c \<and> ssorted row_key c \<and> mset c = mset (ls @ rs)"
  using assms
proof (induction "length ls + length rs" arbitrary: ls rs previous out)
  case 0
  then show ?case by (simp add: merge_loop.simps first_row_def)
next
  case (Suc n)
  note ok = Suc.prems(1,2) note so = Suc.prems(3,4) note pr = Suc.prems(5)
  note keys = opt_key_first [OF ok(1)] opt_key_first [OF ok(2)]
  note unf = merge_loop.simps [of "first_row ls" "(tl ls, None)" "first_row rs" "(tl rs, None)"]
  have ne: "\<not> (first_row ls = None \<and> first_row rs = None)"
    using Suc.hyps(2) by (auto simp: first_row_def split: list.splits)
  have step: ?case
    if eq: "merge_loop (first_row ls) (tl ls, None) (first_row rs) (tl rs, None) previous out =
        merge_loop (first_row ls') (tl ls', None) (first_row rs') (tl rs', None) (Some (row_key r)) (out @ r)"
      and parts: "mset (ls @ rs) = add_mset r (mset (ls' @ rs'))"
      and small: "\<forall>x \<in> set (ls' @ rs'). row_key r < row_key x"
      and sub: "ssorted row_key ls'" "ssorted row_key rs'" "n = length ls' + length rs'"
    for ls' rs' r
  proof -
    have sets: "insert r (set ls' \<union> set rs') = set ls \<union> set rs" using mset_eq_setD [of "ls @ rs" "r # ls' @ rs'"] parts by auto
    have ok': "\<forall>x \<in> set ls'. row_ok x" "\<forall>x \<in> set rs'. row_ok x" using sets ok by blast+
    have "mset (map row_key (ls @ rs)) = mset (map row_key (r # ls' @ rs'))"
      using parts by (metis mset.simps(2) mset_map)
    then have d: "distinct (map row_key (ls @ rs)) \<longleftrightarrow> distinct (map row_key (r # ls' @ rs'))"
      by (rule mset_eq_imp_distinct_iff)
    have IH: "case merge_loop (first_row ls') (tl ls', None) (first_row rs') (tl rs', None) (Some (row_key r)) (out @ r) of
        Inl e \<Rightarrow> \<not> distinct (map row_key (ls' @ rs'))
      | Inr res \<Rightarrow> \<exists>c. res = (out @ r) @ concat c \<and> ssorted row_key c \<and> mset c = mset (ls' @ rs')"
      by (rule Suc.hyps(1) [OF sub(3) ok' sub(1,2)]) (use small in simp)
    show ?thesis
    proof (cases "merge_loop (first_row ls') (tl ls', None) (first_row rs') (tl rs', None) (Some (row_key r)) (out @ r)")
      case (Inl e)
      then show ?thesis using IH eq d by auto
    next
      case (Inr res)
      then obtain c where c: "res = (out @ r) @ concat c" "ssorted row_key c" "mset c = mset (ls' @ rs')"
        using IH by auto
      have "ssorted row_key (r # c)" using c(2) small mset_eq_setD [OF c(3)] by simp
      moreover have "mset (r # c) = mset (ls @ rs)" using c(3) parts by simp
      moreover have "res = out @ concat (r # c)" using c(1) by simp
      ultimately show ?thesis unfolding eq Inr sum.case by blast
    qed
  qed
  consider (L) l ls' where "ls = l # ls'" "takes_left (Some (row_key l)) (map_option row_key (first_row rs))"
    | (R) r rs' where "rs = r # rs'" "\<not> takes_left (map_option row_key (first_row ls)) (Some (row_key r))"
        "map_option row_key (first_row ls) \<noteq> Some (row_key r)"
    | (D) l ls' r rs' where "ls = l # ls'" "rs = r # rs'" "row_key l = row_key r"
    using ne by (cases ls; cases rs) (auto simp: first_row_def takes_left_def)
  then show ?case
  proof cases
    case L
    have g: "case previous of None \<Rightarrow> True | Some p \<Rightarrow> p < row_key l"
      using pr L(1) by (simp split: option.split)
    have nd: "Some (row_key l) \<noteq> map_option row_key (first_row rs)"
      using L(2) by (auto simp: takes_left_def split: option.splits)
    show ?thesis
    proof (rule step [of ls' rs l])
      show "merge_loop (first_row ls) (tl ls, None) (first_row rs) (tl rs, None) previous out =
        merge_loop (first_row ls') (tl ls', None) (first_row rs) (tl rs, None) (Some (row_key l)) (out @ l)"
        unfolding unf using keys ne L g nd
        by (simp add: first_row_def [of "l # ls'"] next_row_rows guard_res_def)
      show "\<forall>x \<in> set (ls' @ rs). row_key l < row_key x"
        using so L by (cases rs) (auto simp: takes_left_def first_row_def)
    qed (use L so Suc.hyps(2) in auto)
  next
    case R
    have g: "case previous of None \<Rightarrow> True | Some p \<Rightarrow> p < row_key r"
      using pr R(1) by (simp split: option.split)
    have nd: "(map_option row_key (first_row ls) = Some (row_key r)) = False" using R(3) by simp
    show ?thesis
    proof (rule step [of ls rs' r])
      show "merge_loop (first_row ls) (tl ls, None) (first_row rs) (tl rs, None) previous out =
        merge_loop (first_row ls) (tl ls, None) (first_row rs') (tl rs', None) (Some (row_key r)) (out @ r)"
        unfolding unf using keys ne R(1,2) g
        by (simp add: nd first_row_def [of "r # rs'"] next_row_rows guard_res_def del: map_option_eq_Some)
      show "\<forall>x \<in> set (ls @ rs'). row_key r < row_key x"
        using so R by (cases ls) (auto simp: takes_left_def first_row_def)
    qed (use R so Suc.hyps(2) in auto)
  next
    case D
    then show ?thesis unfolding unf using keys by (simp add: first_row_def gen_error_def)
  qed
qed

lemma merge_files_outcome:
  assumes "\<forall>r \<in> set ls. row_ok r" and "\<forall>r \<in> set rs. row_ok r"
    and "ssorted row_key ls" and "ssorted row_key rs"
  shows "sorted_outcome (ls @ rs) (merge_sorted_send_files (concat ls) (concat rs))"
  using merge_loop_outcome [OF assms, of None "[]"] assms(1,2)
  by (simp add: merge_sorted_send_files_def sorted_outcome_def iter_lines_rows next_row_rows Let_def
      split: sum.splits)

subsection \<open>The external sort\<close>

text \<open>The temporary files hold the given chunks of rows.\<close>

definition holds_chunks :: "string list \<Rightarrow> string list list \<Rightarrow> bool" where
  "holds_chunks fs cs \<longleftrightarrow>
     fs = map concat cs \<and> (\<forall>c \<in> set cs. ssorted row_key c \<and> (\<forall>r \<in> set c. row_ok r))"

lemma sorted_outcome_Inr:
  assumes "sorted_outcome rows (Inr out)" and "\<forall>r \<in> set rows. row_ok r"
  obtains c where "out = concat c" "ssorted row_key c" "mset c = mset rows" "\<forall>r \<in> set c. row_ok r"
proof -
  from assms(1) obtain c where c: "out = concat c" "ssorted row_key c" "mset c = mset rows"
    by (auto simp: sorted_outcome_def)
  then show thesis using that assms(2) mset_eq_setD [OF c(3)] by simp
qed

lemma merge_round_outcome:
  assumes "holds_chunks fs cs"
  shows "case merge_round fs of
      Inl e \<Rightarrow> \<not> distinct (map row_key (concat cs))
    | Inr ms \<Rightarrow> \<exists>ds. holds_chunks ms ds \<and> mset (concat ds) = mset (concat cs)"
  using assms
proof (induction fs arbitrary: cs rule: merge_round.induct)
  case (1 a b fs)
  then obtain x y cs' where cs: "cs = x # y # cs'" "a = concat x" "b = concat y" "holds_chunks fs cs'"
    and xy: "ssorted row_key x" "ssorted row_key y" "\<forall>r \<in> set x. row_ok r" "\<forall>r \<in> set y. row_ok r"
    by (auto simp: holds_chunks_def)
  have o: "sorted_outcome (x @ y) (merge_sorted_send_files a b)"
    unfolding cs by (rule merge_files_outcome) (use xy in auto)
  show ?case
  proof (cases "merge_sorted_send_files a b")
    case (Inl e)
    then show ?thesis using o cs by (auto simp: sorted_outcome_def)
  next
    case (Inr m)
    with o have "sorted_outcome (x @ y) (Inr m)" by simp
    then obtain c where c: "m = concat c" "ssorted row_key c" "mset c = mset (x @ y)" "\<forall>r \<in> set c. row_ok r"
      by (rule sorted_outcome_Inr) (use xy in auto)
    show ?thesis
    proof (cases "merge_round fs")
      case (Inl e)
      then show ?thesis using "1.IH" [OF Inr cs(4)] Inr \<open>merge_sorted_send_files a b = Inr m\<close> cs by auto
    next
      case (Inr ms)
      then obtain ds where ds: "holds_chunks ms ds" "mset (concat ds) = mset (concat cs')"
        using "1.IH" [OF \<open>merge_sorted_send_files a b = Inr m\<close> cs(4)] by auto
      have "holds_chunks (m # ms) (c # ds)" using c ds(1) by (simp add: holds_chunks_def)
      moreover have "mset (concat (c # ds)) = mset (concat cs)" using c(3) ds(2) cs(1) by simp
      moreover have "merge_round (a # b # fs) = Inr (m # ms)"
        using Inr \<open>merge_sorted_send_files a b = Inr m\<close> by simp
      ultimately show ?thesis by (simp only: sum.case) blast
    qed
  qed
qed auto

lemma mset_distinct_keys:
  "mset xs = mset ys \<Longrightarrow> distinct (map row_key xs) \<longleftrightarrow> distinct (map row_key ys)"
  by (metis mset_eq_imp_distinct_iff mset_map)

lemma merge_rounds_outcome:
  assumes "holds_chunks fs cs"
  shows "sorted_outcome (concat cs) (merge_rounds fs)"
  using assms
proof (induction fs arbitrary: cs rule: merge_rounds.induct)
  case (1 fs)
  note unf = merge_rounds.simps [of fs]
  consider "fs = []" | f where "fs = [f]" | a b r where "fs = a # b # r"
    by (metis list.exhaust)
  then show ?case
  proof cases
    case 1
    then have "cs = []" using \<open>holds_chunks fs cs\<close> by (simp add: holds_chunks_def)
    moreover have "merge_rounds fs = Inr []" by (subst unf) (simp add: 1)
    ultimately show ?thesis by (simp add: sorted_outcome_def)
  next
    case 2
    then obtain c where c: "cs = [c]" "f = concat c" "ssorted row_key c"
      using \<open>holds_chunks fs cs\<close> by (auto simp: holds_chunks_def)
    moreover have "merge_rounds fs = Inr f" by (subst unf) (simp add: 2)
    ultimately show ?thesis by (auto simp: sorted_outcome_def)
  next
    case 3
    note round = merge_round_outcome [OF \<open>holds_chunks fs cs\<close>]
    show ?thesis
    proof (cases "merge_round fs")
      case (Inl e)
      then have "merge_rounds fs = Inl e" using 3 by (subst unf) simp
      then show ?thesis using round Inl by (simp add: sorted_outcome_def)
    next
      case (Inr ms)
      then obtain ds where ds: "holds_chunks ms ds" "mset (concat ds) = mset (concat cs)" using round by auto
      have "sorted_outcome (concat ds) (merge_rounds ms)"
        using "1.IH" [of a "b # r" b r ms ds] 3 Inr ds(1) by simp
      then have "sorted_outcome (concat cs) (merge_rounds ms)"
        unfolding sorted_outcome_def ds(2) mset_distinct_keys [OF ds(2)] .
      moreover have "merge_rounds fs = merge_rounds ms" using Inr 3 by (subst unf) simp
      ultimately show ?thesis by simp
    qed
  qed
qed

text \<open>
  The collecting phase: \<open>seen\<close> are the rows consumed so far; they are in the temporary files
  or in the chunk being collected.
\<close>

definition collecting :: "string list \<Rightarrow> sort_state \<Rightarrow> bool" where
  "collecting seen s \<longleftrightarrow>
     (case s of (rows, temps, n) \<Rightarrow>
        n = length seen \<and> (\<forall>r \<in> set rows. row_ok r) \<and>
        (\<exists>cs. holds_chunks temps cs \<and> mset (rows @ concat cs) = mset seen))"

lemma flush_outcome:
  assumes "collecting seen s"
  shows "case flush s of
      Inl e \<Rightarrow> \<not> distinct (map row_key seen)
    | Inr s' \<Rightarrow> collecting seen s' \<and> fst s' = []"
proof -
  obtain rows temps n where s: "s = (rows, temps, n)" by (cases s)
  obtain cs where cs: "holds_chunks temps cs" "mset (rows @ concat cs) = mset seen"
    and ok: "\<forall>r \<in> set rows. row_ok r" and n: "n = length seen"
    using assms s by (auto simp: collecting_def)
  show ?thesis
  proof (cases "rows = []")
    case True
    then show ?thesis using assms s by (simp add: flush_def)
  next
    case False
    note o = flush_chunk_outcome [OF ok]
    show ?thesis
    proof (cases "flush_chunk rows")
      case (Inl e)
      then have "\<not> distinct (map row_key (rows @ concat cs))" using o by (simp add: sorted_outcome_def)
      then have "\<not> distinct (map row_key seen)" using mset_distinct_keys [OF cs(2)] by blast
      then show ?thesis using Inl False s by (simp add: flush_def)
    next
      case (Inr f)
      with o have "sorted_outcome rows (Inr f)" by simp
      then obtain c where c: "f = concat c" "ssorted row_key c" "mset c = mset rows" "\<forall>r \<in> set c. row_ok r"
        by (rule sorted_outcome_Inr [OF _ ok])
      have "holds_chunks (temps @ [f]) (cs @ [c])" using cs(1) c by (simp add: holds_chunks_def)
      moreover have "mset ([] @ concat (cs @ [c])) = mset seen" using cs(2) c(3) by (simp add: ac_simps)
      ultimately have "collecting seen ([], temps @ [f], n)" using n unfolding collecting_def by auto
      then show ?thesis using Inr False s by (simp add: flush_def)
    qed
  qed
qed

lemma add_row_outcome:
  assumes "collecting seen s" and "line_ok r"
  shows "case add_row limit s r of
      Inl e \<Rightarrow> \<not> row_ok r \<or> \<not> distinct (map row_key (seen @ [r]))
    | Inr s' \<Rightarrow> row_ok r \<and> collecting (seen @ [r]) s'"
proof (cases "send_key r")
  case (Inl e)
  then show ?thesis by (simp add: add_row_def row_ok_def)
next
  case (Inr k)
  obtain rows temps n where s: "s = (rows, temps, n)" by (cases s)
  have ok: "row_ok r" using Inr assms(2) by (simp add: row_ok_def)
  have "collecting (seen @ [r]) (rows @ [r], temps, Suc n)"
    using assms(1) ok s by (auto simp: collecting_def)
  from flush_outcome [OF this] this ok show ?thesis
    using Inr s by (auto simp: add_row_def Let_def split: sum.splits)
qed

lemma fold_add_row_outcome:
  assumes "collecting seen s" and "\<forall>r \<in> set rs. line_ok r"
  shows "case fold_res (add_row limit) s rs of
      Inl e \<Rightarrow> \<not> (\<forall>r \<in> set rs. row_ok r) \<or> \<not> distinct (map row_key (seen @ rs))
    | Inr s' \<Rightarrow> (\<forall>r \<in> set rs. row_ok r) \<and> collecting (seen @ rs) s'"
  using assms
proof (induction rs arbitrary: seen s)
  case (Cons r rs)
  have line: "line_ok r" and lines: "\<forall>r \<in> set rs. line_ok r" using Cons.prems(2) by simp_all
  note add = add_row_outcome [OF Cons.prems(1) line, of limit]
  show ?case
  proof (cases "add_row limit s r")
    case (Inl e)
    then show ?thesis using add by auto
  next
    case (Inr s')
    then show ?thesis using add Cons.IH [of "seen @ [r]" s'] lines by (auto split: sum.splits)
  qed
qed simp

definition finish :: "sort_state \<Rightarrow> (string \<times> nat) res" where
  "finish s = bind_res (flush s) (\<lambda>(rows, temps, n).
     if temps = [] then Inr ([], 0) else bind_res (merge_rounds temps) (\<lambda>out. Inr (out, n)))"

lemma finish_outcome:
  assumes "collecting seen s"
  shows "case finish s of
      Inl e \<Rightarrow> \<not> distinct (map row_key seen)
    | Inr (out, n) \<Rightarrow> n = length seen \<and> sorted_outcome seen (Inr out)"
proof (cases "flush s")
  case (Inl e)
  then show ?thesis using flush_outcome [OF assms] by (simp add: finish_def)
next
  case (Inr s')
  obtain rows temps n where s': "s' = (rows, temps, n)" by (cases s')
  from flush_outcome [OF assms] Inr s' obtain cs where cs: "n = length seen"
      "holds_chunks temps cs" "mset (concat cs) = mset seen"
    by (auto simp: collecting_def)
  have "sorted_outcome seen (merge_rounds temps)"
    using merge_rounds_outcome [OF cs(2)]
    unfolding sorted_outcome_def cs(3) mset_distinct_keys [OF cs(3)] .
  moreover have "temps = [] \<Longrightarrow> seen = []" using cs(2,3) by (auto simp: holds_chunks_def)
  ultimately show ?thesis using Inr s' cs(1)
    by (cases "merge_rounds temps") (auto simp: finish_def sorted_outcome_def)
qed

lemma external_sort_outcome:
  assumes "\<forall>r \<in> set (ps @ ts). line_ok r"
  shows "case external_sort_send_index limit (Some (ps, e)) ts of
      Inl _ \<Rightarrow> e \<noteq> None \<or> \<not> (\<forall>r \<in> set (ps @ ts). row_ok r) \<or> \<not> distinct (map row_key (ps @ ts))
    | Inr (out, n) \<Rightarrow> e = None \<and> (\<forall>r \<in> set (ps @ ts). row_ok r) \<and> n = length (ps @ ts) \<and>
        sorted_outcome (ps @ ts) (Inr out)"
proof -
  define seg where "seg s rs = fold_res (add_row limit) s rs" for s rs
  have ext: "external_sort_send_index limit (Some (ps, e)) ts =
      bind_res (seg ([], [], 0) ps) (\<lambda>s1. bind_res (raise_end e s1) (\<lambda>s2. bind_res (seg s2 ts) finish))"
    by (simp add: external_sort_send_index_def seg_def finish_def [abs_def])
  have "collecting [] ([], [], 0)" by (simp add: collecting_def holds_chunks_def)
  then have one: "case seg ([], [], 0) ps of
      Inl _ \<Rightarrow> \<not> (\<forall>r \<in> set ps. row_ok r) \<or> \<not> distinct (map row_key ps)
    | Inr s \<Rightarrow> (\<forall>r \<in> set ps. row_ok r) \<and> collecting ps s"
    using fold_add_row_outcome [of "[]" "([], [], 0)" ps limit] assms
    by (simp add: seg_def split: sum.splits)
  show ?thesis
  proof (cases "seg ([], [], 0) ps")
    case (Inl x)
    then show ?thesis using one ext by auto
  next
    case s1: (Inr s1)
    have two: "case seg s1 ts of
        Inl _ \<Rightarrow> \<not> (\<forall>r \<in> set ts. row_ok r) \<or> \<not> distinct (map row_key (ps @ ts))
      | Inr s \<Rightarrow> (\<forall>r \<in> set ts. row_ok r) \<and> collecting (ps @ ts) s"
      using fold_add_row_outcome [of ps s1 ts limit] assms one s1 by (simp add: seg_def)
    show ?thesis
    proof (cases "seg s1 ts")
      case (Inl x)
      then show ?thesis using s1 ext two by (cases e) (auto simp: raise_end_def)
    next
      case (Inr s2)
      then have "collecting (ps @ ts) s2" "\<forall>r \<in> set (ps @ ts). row_ok r" using one two s1 by auto
      then show ?thesis using finish_outcome [of "ps @ ts" s2] ext s1 Inr
        by (cases e; cases "finish s2") (auto simp: raise_end_def)
    qed
  qed
qed

subsection \<open>Merging into a sorted parent\<close>

text \<open>What the loop requires of the parent rows still to come, and what it then writes.\<close>

definition parent_valid :: "exn option \<Rightarrow> attempt_key option \<Rightarrow> string list \<Rightarrow> bool" where
  "parent_valid e previous ps \<longleftrightarrow>
     e = None \<and> (\<forall>r \<in> set ps. row_ok r) \<and> ssorted row_key ps \<and>
     (\<forall>p. previous = Some p \<longrightarrow> (\<forall>r \<in> set ps. p < row_key r))"

lemma parent_valid_Cons:
  "parent_valid e previous (p # ps) \<longleftrightarrow>
     row_ok p \<and> (\<forall>q. previous = Some q \<longrightarrow> q < row_key p) \<and> parent_valid e (Some (row_key p)) ps"
  by (auto simp: parent_valid_def)

definition parent_outcome ::
  "exn option \<Rightarrow> string list \<Rightarrow> string list \<Rightarrow> attempt_key option \<Rightarrow> string \<Rightarrow> nat \<Rightarrow> (string \<times> nat) res \<Rightarrow> bool"
where
  "parent_outcome e ps ts previous out n r \<longleftrightarrow>
     (case r of
        Inl _ \<Rightarrow> \<not> (parent_valid e previous ps \<and> distinct (map row_key (ps @ ts)))
      | Inr (res, m) \<Rightarrow> parent_valid e previous ps \<and> m = n + length (ps @ ts) \<and>
          (\<exists>c. res = out @ concat c \<and> ssorted row_key c \<and> mset c = mset (ps @ ts)))"

lemma parent_outcome_take:
  assumes o: "parent_outcome e ps' ts' previous' (out @ r) (Suc n) res"
    and parts: "mset (ps @ ts) = add_mset r (mset (ps' @ ts'))"
    and valid: "parent_valid e previous ps \<longleftrightarrow> parent_valid e previous' ps'"
    and small: "parent_valid e previous ps \<Longrightarrow> \<forall>x \<in> set (ps' @ ts'). row_key r < row_key x"
  shows "parent_outcome e ps ts previous out n res"
proof (cases res)
  case (Inl x)
  have "mset (ps @ ts) = mset (r # ps' @ ts')" using parts by simp
  from mset_distinct_keys [OF this] show ?thesis
    using o valid Inl by (auto simp: parent_outcome_def)
next
  case (Inr p)
  obtain f m where p: "p = (f, m)" by (cases p)
  with o Inr obtain c where c: "f = (out @ r) @ concat c" "ssorted row_key c" "mset c = mset (ps' @ ts')"
    and v: "parent_valid e previous' ps'" "m = Suc n + length (ps' @ ts')"
    by (auto simp: parent_outcome_def)
  have "ssorted row_key (r # c)" using c(2) small valid v(1) mset_eq_setD [OF c(3)] by simp
  moreover have "mset (r # c) = mset (ps @ ts)" using c(3) parts by simp
  moreover have "f = out @ concat (r # c)" using c(1) by simp
  moreover have "m = n + length (ps @ ts)"
    using v(2) arg_cong [OF parts, of size] by simp
  ultimately show ?thesis using valid v(1) Inr p
    unfolding parent_outcome_def Inr p sum.case prod.case by blast
qed

lemma parent_loop_bad:
  assumes "line_ok p" and "\<not> (row_ok p \<and> (\<forall>q. previous = Some q \<longrightarrow> q < row_key p))"
  shows "\<exists>x. parent_merge_loop (Some p) pg ts previous out n = Inl x"
proof (cases "send_key p")
  case (Inl x)
  then show ?thesis by (subst parent_merge_loop.simps) (simp add: opt_key_def)
next
  case (Inr key)
  then have rp: "row_ok p" using assms(1) by (simp add: row_ok_def)
  with assms(2) obtain q where "previous = Some q" "\<not> q < row_key p" by blast
  then show ?thesis
    by (subst parent_merge_loop.simps) (simp add: opt_key_def row_ok_key [OF rp] guard_res_def)
qed

lemma parent_loop_good:
  assumes rp: "row_ok p" and "\<forall>q. previous = Some q \<longrightarrow> q < row_key p" and ok: "\<forall>r \<in> set ts. row_ok r"
  shows "parent_merge_loop (Some p) pg ts previous out n =
     (if Some (row_key p) = map_option row_key (first_row ts)
      then gen_error ''OMS_GENERATION_SEND_INDEX_DUPLICATE''
      else if takes_left (Some (row_key p)) (map_option row_key (first_row ts)) then
        bind_res (next_row pg) (\<lambda>(p', pg'). parent_merge_loop p' pg' ts (Some (row_key p)) (out @ p) (Suc n))
      else parent_merge_loop (Some p) pg (tl ts) previous (out @ hd ts) (Suc n))"
proof -
  have guard: "case (Some (row_key p), previous) of (Some k, Some p) \<Rightarrow> p < k | _ \<Rightarrow> True"
    using assms(2) by (simp split: option.split)
  have tk: "opt_key (case ts of [] \<Rightarrow> None | t # _ \<Rightarrow> Some t) = Inr (map_option row_key (first_row ts))"
    using opt_key_first [OF ok] by (simp add: first_row_def)
  have pk: "opt_key (Some p) = Inr (Some (row_key p))" by (simp add: opt_key_def row_ok_key [OF rp])
  show ?thesis
    by (subst parent_merge_loop.simps) (use guard in \<open>simp add: pk tk guard_res_def\<close>)
qed

lemma parent_merge_outcome:
  assumes "\<forall>r \<in> set ps. line_ok r" and "\<forall>r \<in> set ts. row_ok r" and "ssorted row_key ts"
  shows "parent_outcome e ps ts previous out n
    (bind_res (next_row (ps, e)) (\<lambda>(p, pg). parent_merge_loop p pg ts previous out n))"
  using assms
proof (induction "length ps + length ts" arbitrary: ps ts previous out n)
  case 0
  then show ?case
    by (cases e) (simp_all add: next_row_def parent_merge_loop.simps parent_outcome_def parent_valid_def)
next
  case (Suc k)
  note line = Suc.prems(1) note ok = Suc.prems(2) note so = Suc.prems(3)
  show ?case
  proof (cases ps)
    case Nil
    then obtain t ts' where ts: "ts = t # ts'" using Suc.hyps(2) by (cases ts) auto
    have IH: "parent_outcome e [] ts' previous (out @ t) (Suc n)
        (bind_res (next_row ([], e)) (\<lambda>(p, pg). parent_merge_loop p pg ts' previous (out @ t) (Suc n)))"
      by (rule Suc.hyps(1)) (use Suc.hyps(2) Nil ts ok so in auto)
    show ?thesis
    proof (cases e)
      case (Some x)
      then show ?thesis using Nil by (simp add: next_row_def parent_outcome_def parent_valid_def)
    next
      case None
      have eq: "parent_merge_loop None ([], None) ts previous out n =
          parent_merge_loop None ([], None) ts' previous (out @ t) (Suc n)"
        using ok ts by (subst parent_merge_loop.simps)
          (simp add: opt_key_def takes_left_def row_ok_key guard_res_def)
      show ?thesis unfolding Nil
        by (rule parent_outcome_take [of e "[]" ts' previous out t])
          (use IH eq None ts so in \<open>simp_all add: next_row_def\<close>)
    qed
  next
    case (Cons p ps')
    have nx: "next_row (ps, e) = Inr (Some p, (ps', e))" by (simp add: next_row_def Cons)
    let ?body = "parent_merge_loop (Some p) (ps', e) ts previous out n"
    have "parent_outcome e ps ts previous out n ?body"
    proof (cases "row_ok p \<and> (\<forall>q. previous = Some q \<longrightarrow> q < row_key p)")
      case False
      have "line_ok p" using line Cons by simp
      from parent_loop_bad [OF this False] obtain x where "?body = Inl x" ..
      then show ?thesis using False Cons by (auto simp: parent_outcome_def parent_valid_Cons)
    next
      case True
      then have rp: "row_ok p" and below: "\<forall>q. previous = Some q \<longrightarrow> q < row_key p" by blast+
      note body = parent_loop_good [OF rp below ok, of "(ps', e)" out n]
      consider (dup) t ts' where "ts = t # ts'" "row_key p = row_key t"
        | (parent) "takes_left (Some (row_key p)) (map_option row_key (first_row ts))"
            "Some (row_key p) \<noteq> map_option row_key (first_row ts)"
        | (tail) t ts' where "ts = t # ts'" "row_key t < row_key p"
            "\<not> takes_left (Some (row_key p)) (Some (row_key t))"
        by (cases ts) (auto simp: first_row_def takes_left_def,
          metis less_linear order.asym)
      then show ?thesis
      proof cases
        case dup
        then show ?thesis using body Cons by (simp add: first_row_def gen_error_def parent_outcome_def)
      next
        case parent
        have IH: "parent_outcome e ps' ts (Some (row_key p)) (out @ p) (Suc n) ?body"
          unfolding body using parent Suc.hyps(1) [of ps' ts "Some (row_key p)" "out @ p" "Suc n"]
            Suc.hyps(2) line ok so Cons by simp
        show ?thesis
        proof (rule parent_outcome_take [OF IH])
          show "parent_valid e previous ps \<Longrightarrow> \<forall>x \<in> set (ps' @ ts). row_key p < row_key x"
            using parent(1) so Cons
            by (cases ts) (auto simp: parent_valid_def takes_left_def first_row_def)
        qed (use Cons True in \<open>simp_all add: parent_valid_Cons\<close>)
      next
        case tail
        have IH: "parent_outcome e ps ts' previous (out @ t) (Suc n) ?body"
          unfolding body using tail Suc.hyps(1) [of ps ts' previous "out @ t" "Suc n"]
            Suc.hyps(2) line ok so nx by (auto simp: first_row_def)
        show ?thesis
        proof (rule parent_outcome_take [OF IH])
          show "parent_valid e previous ps \<Longrightarrow> \<forall>x \<in> set (ps @ ts'). row_key t < row_key x"
            using tail so Cons by (auto simp: parent_valid_def)
        qed (use tail in simp_all)
      qed
    qed
    then show ?thesis unfolding nx by simp
  qed
qed

subsection \<open>The rows of new attempts\<close>

lemma parse_nat_str_Inr: "parse_nat (str_of_nat n) = Inr m \<Longrightarrow> m = n"
  by (auto simp: parse_nat_def digits_us_decimal str_of_nat_decimal nat_of_digits_str split: if_splits)

lemma int_of_str_of_int_Inr:
  assumes "int_of_str (str_of_int i) = Inr j"
  shows "j = i"
proof (cases "i < 0")
  case True
  then show ?thesis using assms
    by (auto simp: str_of_int_def int_of_str_def strip_space_minus str_of_nat_decimal bind_res_Inr_iff
        dest: parse_nat_str_Inr)
next
  case False
  obtain n t where n: "n < 10" "str_of_nat (nat i) = digit_char n # t"
    using str_of_nat_decimal by (rule decimal_hd)
  have "strip_space (str_of_nat (nat i)) = digit_char n # t"
    unfolding strip_space_decimal [OF str_of_nat_decimal] by (rule n(2))
  then have "bind_res (parse_nat (str_of_nat (nat i))) (\<lambda>n. Inr (int n)) = Inr j"
    using False assms n by (simp add: str_of_int_def int_of_str_def digit_char_cases)
  then show ?thesis using False by (auto simp: bind_res_Inr_iff dest: parse_nat_str_Inr)
qed

lemma attempt_fields_tsv: "\<forall>f \<in> set (attempt_fields a). tsv_field f"
  by (simp add: attempt_fields_def)

lemma send_attempt_line_Inr:
  "send_attempt_line a = Inr l \<Longrightarrow> l = join_with TAB (attempt_fields a) @ [LF]"
  using tsv_line_ok [OF attempt_fields_tsv, of a]
  by (auto simp: send_attempt_line_def attempt_fields_def bind_res_Inr_iff py_hex_Inr_iff)

lemma attempt_line_ok: "send_attempt_line a = Inr l \<Longrightarrow> line_ok l"
proof -
  assume "send_attempt_line a = Inr l"
  then have "l = join_with TAB (attempt_fields a) @ [LF]" by (rule send_attempt_line_Inr)
  moreover have "LF \<notin> set (join_with TAB (attempt_fields a))"
    by (rule not_in_join_with) (use attempt_fields_tsv [of a] in \<open>auto simp: tsv_field_def TAB_def LF_def\<close>)
  ultimately show ?thesis by (auto simp: line_ok_def)
qed

definition key_sequence :: "attempt_key \<Rightarrow> int" where
  "key_sequence k = (case k of (a, d, ts, sq, g, s, c) \<Rightarrow> sq)"

lemma attempt_key_sequence:
  assumes "send_attempt_line a = Inr l" and "send_key l = Inr k"
  shows "key_sequence k = sa_sequence a"
proof -
  have "tsv_fields l = Inr (attempt_fields a)"
    using send_attempt_line_Inr [OF assms(1)] tsv_fields_line [OF _ attempt_fields_tsv [of a]]
    by (simp add: attempt_fields_def)
  then show ?thesis using assms(2)
    by (auto simp: send_key_def gen_error_def bind_res_Inr_iff key_sequence_def attempt_fields_def
        dest!: int_of_str_of_int_Inr split: if_splits)
qed

lemma rebased_lines_ok:
  assumes "map_res (rebased_line base) atts = Inr ls"
  shows "\<forall>l \<in> set ls. line_ok l"
  using assms by (auto simp: map_res_Inr_iff rebased_line_def list_all2_conv_all_nth in_set_conv_nth
      dest!: attempt_line_ok)

lemma rebased_lines_distinct:
  assumes "map_res (rebased_line base) atts = Inr ls" and "distinct (map sa_sequence atts)"
    and "\<forall>l \<in> set ls. row_ok l"
  shows "distinct (map row_key ls)"
proof -
  have "list_all2 (\<lambda>a l. rebased_line base a = Inr l) atts ls" using assms(1) by (simp add: map_res_Inr_iff)
  then have "map (key_sequence \<circ> row_key) ls = map (\<lambda>a. base + sa_sequence a) atts"
    using assms(3)
    by (induction rule: list_all2_induct)
      (auto simp: rebased_line_def row_ok_key dest!: attempt_key_sequence)
  moreover have "distinct (map (\<lambda>a. base + sa_sequence a) atts)"
    using assms(2) by (induction atts) auto
  ultimately show ?thesis by (metis distinct_map map_map)
qed

lemma sort_lines_Inr:
  assumes "\<forall>l \<in> set ls. line_ok l"
  shows "sort_lines ls = Inr ts \<longleftrightarrow> (\<forall>l \<in> set ls. row_ok l) \<and> ts = sort_key row_key ls"
proof (cases "\<forall>l \<in> set ls. row_ok l")
  case True
  have "map snd (sort_key fst (map (\<lambda>r. (row_key r, r)) ls)) = sort_key row_key ls"
  proof -
    have "insort_key fst (row_key x, x) (map (\<lambda>r. (row_key r, r)) ys) =
        map (\<lambda>r. (row_key r, r)) (insort_key row_key x ys)" for x ys
      by (induction ys) auto
    then have "sort_key fst (map (\<lambda>r. (row_key r, r)) ls) = map (\<lambda>r. (row_key r, r)) (sort_key row_key ls)"
      by (induction ls) auto
    then show ?thesis by (simp add: comp_def)
  qed
  then show ?thesis using True by (auto simp: sort_lines_def map_res_keyed)
next
  case False
  then obtain l where l: "l \<in> set ls" "\<not> row_ok l" by blast
  then have "\<nexists>k. send_key l = Inr k" using assms by (simp add: row_ok_def)
  then have "\<nexists>ks. map_res (\<lambda>l. bind_res (send_key l) (\<lambda>k. Inr (k, l))) ls = Inr ks"
    using l(1) by (auto simp: map_res_Inr_iff list_all2_conv_all_nth in_set_conv_nth bind_res_Inr_iff)
  then show ?thesis using False by (auto simp: sort_lines_def bind_res_Inr_iff)
qed

lemma iter_lines_line_ok:
  assumes "iter_lines e content = (ps, r)"
  shows "\<forall>p \<in> set ps. line_ok p"
proof -
  have "iter_reference e acc ls = (ps, r) \<Longrightarrow> \<forall>l \<in> set ls. LF \<notin> set l \<Longrightarrow> \<forall>p \<in> set acc. line_ok p \<Longrightarrow>
      \<forall>p \<in> set ps. line_ok p" for acc ls
    by (induction e acc ls rule: iter_reference.induct) (auto simp: line_ok_def split: if_splits)
  from this [of "[]" "split_on LF content"] assms show ?thesis
    by (auto simp: iter_lines_reference dest: split_on_elems)
qed

subsection \<open>The merged index\<close>

lemma sort_key_tail:
  assumes "distinct (map row_key (ps @ ls))"
  shows "sort_key row_key (ps @ sort_key row_key ls) = sort_key row_key (ps @ ls)"
proof -
  have m: "mset (ps @ sort_key row_key ls) = mset (ps @ ls)" by simp
  then have "ssorted row_key (sort_key row_key (ps @ sort_key row_key ls))"
    using assms mset_distinct_keys [OF m] ssorted_sort_key by blast
  from ssorted_eq_sort_key(1) [OF this, of "ps @ ls"] show ?thesis by simp
qed

lemma external_sort_iff:
  assumes "\<forall>r \<in> set (ps @ ts). line_ok r"
  shows "external_sort_send_index limit (Some (ps, e)) ts = Inr (out, n) \<longleftrightarrow>
    e = None \<and> (\<forall>r \<in> set (ps @ ts). row_ok r) \<and> distinct (map row_key (ps @ ts)) \<and>
    out = concat (sort_key row_key (ps @ ts)) \<and> n = length (ps @ ts)"
proof (cases "external_sort_send_index limit (Some (ps, e)) ts")
  case (Inl y)
  then show ?thesis using external_sort_outcome [OF assms, where limit = limit and e = e] by auto
next
  case (Inr p)
  obtain out' n' where p: "p = (out', n')" by (cases p)
  have r: "e = None" "\<forall>r \<in> set (ps @ ts). row_ok r" "n' = length (ps @ ts)" "sorted_outcome (ps @ ts) (Inr out')"
    using external_sort_outcome [OF assms, where limit = limit and e = e] Inr p by auto
  show ?thesis using Inr p r sorted_outcome_iff [OF r(4), of out'] by auto
qed

lemma parent_merge_iff:
  assumes "\<forall>r \<in> set ps. line_ok r" and "\<forall>r \<in> set ts. row_ok r" and "ssorted row_key ts"
  shows "bind_res (next_row (ps, e)) (\<lambda>(p, pg). parent_merge_loop p pg ts None [] 0) = Inr (out, n) \<longleftrightarrow>
    e = None \<and> (\<forall>r \<in> set (ps @ ts). row_ok r) \<and> distinct (map row_key (ps @ ts)) \<and> ssorted row_key ps \<and>
    out = concat (sort_key row_key (ps @ ts)) \<and> n = length (ps @ ts)"
proof -
  define r where "r = bind_res (next_row (ps, e)) (\<lambda>(p, pg). parent_merge_loop p pg ts None [] 0)"
  have o: "parent_outcome e ps ts None [] 0 r" unfolding r_def by (rule parent_merge_outcome [OF assms])
  have v: "parent_valid e None ps \<longleftrightarrow> e = None \<and> (\<forall>r \<in> set ps. row_ok r) \<and> ssorted row_key ps"
    by (simp add: parent_valid_def)
  have "r = Inr (out, n) \<longleftrightarrow>
    e = None \<and> (\<forall>r \<in> set (ps @ ts). row_ok r) \<and> distinct (map row_key (ps @ ts)) \<and> ssorted row_key ps \<and>
    out = concat (sort_key row_key (ps @ ts)) \<and> n = length (ps @ ts)"
  proof (cases r)
    case (Inl y)
    then show ?thesis using o by (auto simp: parent_outcome_def v)
  next
    case (Inr p)
    obtain out' n' where p: "p = (out', n')" by (cases p)
    then obtain c where c: "out' = concat c" "ssorted row_key c" "mset c = mset (ps @ ts)"
      and w: "parent_valid e None ps" "n' = length (ps @ ts)"
      using o Inr by (auto simp: parent_outcome_def)
    show ?thesis using Inr p w v c(1) ssorted_eq_sort_key [OF c(2,3)] assms(2) by auto
  qed
  then show ?thesis unfolding r_def .
qed

lemma merged_send_iff:
  assumes seqs: "distinct (map sa_sequence atts)"
  shows "write_merged_send_index limit (Some (iter_lines x content, is_sorted)) atts base = Inr (out, n) \<longleftrightarrow>
    (\<exists>ps ls. iter_lines x content = (ps, None) \<and> map_res (rebased_line base) atts = Inr ls \<and>
       (\<forall>r \<in> set (ps @ ls). row_ok r) \<and> distinct (map row_key (ps @ ls)) \<and>
       (is_sorted \<longrightarrow> ssorted row_key ps) \<and>
       out = concat (sort_key row_key (ps @ ls)) \<and> n = length (ps @ ls))"
proof (cases "map_res (rebased_line base) atts")
  case (Inl e)
  then show ?thesis by (simp add: write_merged_send_index_def)
next
  case (Inr ls)
  obtain ps e where ps: "iter_lines x content = (ps, e)" by (cases "iter_lines x content")
  note pl = iter_lines_line_ok [OF ps] and ll = rebased_lines_ok [OF Inr]
  show ?thesis
  proof (cases "\<forall>l \<in> set ls. row_ok l")
    case False
    then have "\<nexists>ts. sort_lines ls = Inr ts" using sort_lines_Inr [OF ll] by simp
    then show ?thesis using Inr False by (auto simp: write_merged_send_index_def bind_res_Inr_iff)
  next
    case True
    define ts where "ts = sort_key row_key ls"
    have sl: "sort_lines ls = Inr ts" using sort_lines_Inr [OF ll] True ts_def by simp
    have sts: "ssorted row_key ts"
      unfolding ts_def by (rule ssorted_sort_key [OF rebased_lines_distinct [OF Inr seqs True]])
    have m: "mset (ps @ ts) = mset (ps @ ls)" "set ts = set ls" "length ts = length ls"
      by (simp_all add: ts_def)
    have "write_merged_send_index limit (Some (iter_lines x content, is_sorted)) atts base = Inr (out, n) \<longleftrightarrow>
      e = None \<and> (\<forall>r \<in> set (ps @ ts). row_ok r) \<and> distinct (map row_key (ps @ ts)) \<and>
      (is_sorted \<longrightarrow> ssorted row_key ps) \<and> out = concat (sort_key row_key (ps @ ts)) \<and> n = length (ps @ ts)"
    proof (cases is_sorted)
      case False
      have "\<forall>r \<in> set (ps @ ts). line_ok r" using pl ll m(2) by auto
      from external_sort_iff [OF this, of limit e out n] show ?thesis
        using Inr sl ps False by (simp add: write_merged_send_index_def)
    next
      case sorted: True
      have "\<forall>r \<in> set ts. row_ok r" using True m(2) by simp
      from parent_merge_iff [OF pl this sts, of e out n] show ?thesis
        using Inr sl ps sorted by (auto simp: write_merged_send_index_def)
    qed
    then show ?thesis
      using ps Inr m(2,3) mset_distinct_keys [OF m(1)] sort_key_tail [of ps ls] by (auto simp: ts_def)
  qed
qed

text \<open>C4. The two ways of building the send index agree with one reference. Merging new
attempts (with pairwise different journal sequences) into a parent index succeeds exactly if the
parent reads as complete lines, every row has a readable key and no two rows of the parent and
the new attempts share a key, and, where the parent is taken as sorted, its rows are; the index
written is then all these rows sorted by key, whatever the chunk size of the external sort.\<close>

theorem merged_send_index_correct:
  assumes "distinct (map sa_sequence atts)"
  shows "write_merged_send_index limit (Some (iter_lines x content, is_sorted)) atts base = Inr (out, n) \<longleftrightarrow>
    (\<exists>ps ls. iter_lines x content = (ps, None) \<and> map_res (rebased_line base) atts = Inr ls \<and>
       list_all row_ok (ps @ ls) \<and> distinct (map row_key (ps @ ls)) \<and> (is_sorted \<longrightarrow> ssorted row_key ps) \<and>
       out = concat (sort_key row_key (ps @ ls)) \<and> n = length (ps @ ls))"
  unfolding list_all_iff by (rule merged_send_iff [OF assms])

definition sample_attempt :: "int \<Rightarrow> attempt" where
  "sample_attempt i = \<lparr>sa_account = ''DU1'', sa_execution_domain = ''paper'', sa_ts_ms = 100 - i,
     sa_agent_id = ''a'', sa_session_id = ''s'', sa_command_id = ''c'', sa_sequence = i\<rparr>"

theorem merged_send_index_correct_witness:
  "distinct (map sa_sequence [sample_attempt 1, sample_attempt 2]) \<and>
   (\<forall>out n. write_merged_send_index 8192 (Some (iter_lines (GenerationError SEND_INVALID) [], True))
        [sample_attempt 1, sample_attempt 2] 7 = Inr (out, n) \<longleftrightarrow>
    (\<exists>ps ls. iter_lines (GenerationError SEND_INVALID) [] = (ps, None) \<and>
       map_res (rebased_line 7) [sample_attempt 1, sample_attempt 2] = Inr ls \<and>
       list_all row_ok (ps @ ls) \<and> distinct (map row_key (ps @ ls)) \<and> (True \<longrightarrow> ssorted row_key ps) \<and>
       out = concat (sort_key row_key (ps @ ls)) \<and> n = length (ps @ ls)))"
proof -
  have d: "distinct (map sa_sequence [sample_attempt 1, sample_attempt 2])"
    by (simp add: sample_attempt_def)
  then show ?thesis using merged_send_index_correct [OF d] by blast
qed

text \<open>C9. A merged send index is a valid sorted parent of the next generation: it reads back as
complete lines, strictly sorted by key, as many as were counted.\<close>

theorem merged_send_index_sorted:
  assumes "distinct (map sa_sequence atts)"
    and "write_merged_send_index limit (Some (iter_lines x content, is_sorted)) atts base = Inr (out, n)"
  shows "\<exists>rows. iter_lines y out = (rows, None) \<and> list_all row_ok rows \<and> ssorted row_key rows \<and> length rows = n"
proof -
  from assms(2) obtain rows where rows: "\<forall>r \<in> set rows. row_ok r" "distinct (map row_key rows)"
      "out = concat (sort_key row_key rows)" "n = length rows"
    unfolding merged_send_iff [OF assms(1)] by blast
  have "iter_lines y out = (sort_key row_key rows, None)"
    unfolding rows(3) by (rule iter_lines_rows) (use rows(1) in simp)
  then show ?thesis using rows ssorted_sort_key [OF rows(2)] by (auto simp: list_all_iff)
qed

lemma written_row_ok:
  assumes "attempt_ok a" and "send_attempt_line a = Inr l" and "length l \<le> MAX_INDEX_LINE"
  shows "row_ok l"
  using assms send_key_line [OF assms] attempt_line_ok [OF assms(2)]
  by (auto simp: row_ok_def attempt_sort_key_def attempt_ok_def)

definition rebased_sample :: "int \<Rightarrow> attempt" where
  "rebased_sample i = (sample_attempt i)\<lparr>sa_sequence := 7 + sa_sequence (sample_attempt i)\<rparr>"

lemma rebased_sample_row:
  assumes "i \<in> {1, 2}"
  shows "\<exists>l. rebased_line 7 (sample_attempt i) = Inr l \<and> row_ok l"
proof -
  have "attempt_ok (rebased_sample 1)" "attempt_ok (rebased_sample 2)" by code_simp+
  then have ok: "attempt_ok (rebased_sample i)" using assms by auto
  then obtain l where l: "send_attempt_line (rebased_sample i) = Inr l"
    using send_attempt_line_ok by blast
  have "(case send_attempt_line (rebased_sample 1) of Inr l \<Rightarrow> length l = 32 | Inl _ \<Rightarrow> False)"
      "(case send_attempt_line (rebased_sample 2) of Inr l \<Rightarrow> length l = 32 | Inl _ \<Rightarrow> False)"
    by code_simp+
  then have "length l \<le> MAX_INDEX_LINE" using assms l by (auto simp: MAX_INDEX_LINE_def)
  with ok l written_row_ok show ?thesis by (auto simp: rebased_line_def rebased_sample_def)
qed

lemma sample_merged:
  "\<exists>out. write_merged_send_index 2 (Some (iter_lines (GenerationError SEND_INVALID) [], False))
     [sample_attempt 1, sample_attempt 2] 7 = Inr (out, 2)"
proof -
  have d: "distinct (map sa_sequence [sample_attempt 1, sample_attempt 2])"
    by (simp add: sample_attempt_def)
  obtain k l where "rebased_line 7 (sample_attempt 1) = Inr k" "row_ok k"
      "rebased_line 7 (sample_attempt 2) = Inr l" "row_ok l"
    using rebased_sample_row by blast
  then have ls: "map_res (rebased_line 7) [sample_attempt 1, sample_attempt 2] = Inr [k, l]"
    and ok: "\<forall>r \<in> set [k, l]. row_ok r"
    by simp_all
  have "iter_lines (GenerationError SEND_INVALID) [] = ([], None)"
    using iter_lines_rows [of "[]"] by simp
  then show ?thesis
    unfolding merged_send_iff [OF d] using ls ok rebased_lines_distinct [OF ls d ok]
    by (intro exI [of _ "concat (sort_key row_key ([] @ [k, l]))"] exI [of _ "[]"] exI [of _ "[k, l]"]) simp
qed

theorem merged_send_index_sorted_witness:
  "\<exists>out. write_merged_send_index 2 (Some (iter_lines (GenerationError SEND_INVALID) [], False))
       [sample_attempt 1, sample_attempt 2] 7 = Inr (out, 2) \<and>
     (\<exists>rows. iter_lines (GenerationError SEND_INVALID) out = (rows, None) \<and> list_all row_ok rows \<and>
       ssorted row_key rows \<and> length rows = 2)"
proof -
  have d: "distinct (map sa_sequence [sample_attempt 1, sample_attempt 2])"
    by (simp add: sample_attempt_def)
  obtain out where w: "write_merged_send_index 2 (Some (iter_lines (GenerationError SEND_INVALID) [], False))
       [sample_attempt 1, sample_attempt 2] 7 = Inr (out, 2)"
    using sample_merged by (auto split: sum.splits)
  from merged_send_index_sorted [OF d w] w show ?thesis by blast
qed

end
