(* ===== verification/Command_Index.thy ===== *)
theory Command_Index
  imports Hot_Replay Send_Sort
begin

section \<open>The cumulative command index\<close>

text \<open>
  Model of \<open>_merge_command_record\<close> and \<open>_write_merged_indexes\<close> of
  \<open>hepta_oms_lifecycle.py\<close>: the commands of the new tail are merged into the sorted
  runtime index of the parent generation, and every row written is also written in the legacy
  form. The file contents are returned; a row is one line of the runtime index.

  The theorems show that the merge is the map update it stands for, sorted, and that it agrees
  with projecting the whole journal again, where it does.
\<close>

type_synonym hkey = "string \<times> string \<times> string"

definition merge_command_record :: "command \<Rightarrow> command \<Rightarrow> command" where
  "merge_command_record p u =
     p\<lparr>request_hash := or_str (request_hash u) (request_hash p),
       operation := or_str (operation u) (operation p),
       reason := or_str (reason u) (reason p),
       venue_correlation_id := or_str (venue_correlation_id u) (venue_correlation_id p),
       account := or_str (account u) (account p),
       execution_domain := or_str (execution_domain u) (execution_domain p),
       status := (if status u \<noteq> [] \<and> status u \<noteq> ''unknown'' then status u else status p),
       order_id := (if 0 \<le> order_id u then order_id u else order_id p),
       last_sequence := max (last_sequence p) (last_sequence u),
       durable_mutation_intent := durable_mutation_intent p \<or> durable_mutation_intent u\<rparr>"

definition hexed_key :: "ckey \<Rightarrow> hkey res" where
  "hexed_key k =
     bind_res (py_hex (fst k)) (\<lambda>a. bind_res (py_hex (fst (snd k))) (\<lambda>s.
     bind_res (py_hex (snd (snd k))) (\<lambda>c. Inr (a, s, c))))"

text \<open>\<open>sorted(update_rows.items())\<close>; the keys of a \<open>dict\<close> are distinct, so the records are
  never compared.\<close>

definition ordered_updates :: "commands \<Rightarrow> (hkey \<times> command) list res" where
  "ordered_updates updates =
     bind_res (map_res (\<lambda>(k, r). bind_res (hexed_key k) (\<lambda>h. Inr (h, r))) updates) (\<lambda>rows.
     Inr (sort_key fst rows))"

definition encode_update :: "hkey \<times> command \<Rightarrow> string res" where
  "encode_update u = runtime_index_line (snd u)"

text \<open>The loop over the parent rows \<open>ps\<close>, whose iterator may end with an error, and then the
  updates that are left.\<close>

fun merge_rows ::
  "hkey option \<Rightarrow> string list \<Rightarrow> exn option \<Rightarrow> (hkey \<times> command) list \<Rightarrow> string list res"
where
  "merge_rows previous [] e ups = bind_res (raise_end e ()) (\<lambda>_. map_res encode_update ups)"
| "merge_rows previous (line # ps) e ups =
     bind_res (runtime_row line) (\<lambda>(key, parent_record, _).
     bind_res (guard_res (case previous of None \<Rightarrow> True | Some p \<Rightarrow> p < key)
       (GenerationError ''OMS_GENERATION_PARENT_INDEX_ORDER_INVALID'')) (\<lambda>_.
     let smaller = takeWhile (\<lambda>u. fst u < key) ups; rest = dropWhile (\<lambda>u. fst u < key) ups in
     bind_res (map_res encode_update smaller) (\<lambda>new.
     bind_res
       (case rest of
          u # us \<Rightarrow>
            if fst u = key
            then bind_res (runtime_index_line (merge_command_record parent_record (snd u))) (\<lambda>l. Inr (l, us))
            else Inr (line, rest)
        | [] \<Rightarrow> Inr (line, rest)) (\<lambda>(encoded, rest').
     bind_res (merge_rows (Some key) ps e rest') (\<lambda>out. Inr (new @ encoded # out))))))"

record merged_indexes =
  mi_runtime :: string
  mi_legacy :: string
  mi_commands :: nat
  mi_send :: string
  mi_attempts :: nat

definition write_merged_indexes ::
  "nat \<Rightarrow> (line_gen \<times> line_gen \<times> bool) option \<Rightarrow> commands \<Rightarrow> attempt list \<Rightarrow> int \<Rightarrow> merged_indexes res"
where
  "write_merged_indexes limit parent updates tail_attempts history_base =
     bind_res (ordered_updates updates) (\<lambda>ups.
     let g = (case parent of None \<Rightarrow> ([], None) | Some (g, _) \<Rightarrow> g) in
     bind_res (merge_rows None (fst g) (snd g) ups) (\<lambda>rows.
     bind_res (write_merged_send_index limit (map_option snd parent) tail_attempts history_base) (\<lambda>(send, n).
     Inr \<lparr>mi_runtime = concat rows, mi_legacy = concat (map legacy_line rows), mi_commands = length rows,
          mi_send = send, mi_attempts = n\<rparr>)))"

text \<open>\<open>record["last_sequence"] = history_base + int(record["last_sequence"])\<close> in the sealer.\<close>

definition rebase_commands :: "int \<Rightarrow> commands \<Rightarrow> commands" where
  "rebase_commands history_base cs =
     map (\<lambda>(k, r). (k, r\<lparr>last_sequence := history_base + last_sequence r\<rparr>)) cs"

subsection \<open>The merge as a map update\<close>

definition parent_entry :: "string \<Rightarrow> hkey \<times> command \<times> string" where
  "parent_entry line = (case projr (runtime_row line) of (k, r, _) \<Rightarrow> (k, r, line))"

definition parent_map :: "string list \<Rightarrow> hkey \<Rightarrow> (command \<times> string) option" where
  "parent_map ps = map_of (map parent_entry ps)"

text \<open>The row of a key in the merged index.\<close>

definition merged_row :: "(command \<times> string) option \<Rightarrow> command option \<Rightarrow> string res option" where
  "merged_row p u =
     (case (p, u) of
        (None, None) \<Rightarrow> None
      | (Some (r, line), None) \<Rightarrow> Some (Inr line)
      | (None, Some c) \<Rightarrow> Some (runtime_index_line c)
      | (Some (r, line), Some c) \<Rightarrow> Some (runtime_index_line (merge_command_record r c)))"

lemma map_of_above: "\<forall>x \<in> set xs. k < fst x \<Longrightarrow> map_of xs k = None"
  for k :: "'k::linorder"
  by (induction xs) auto

definition rows_are :: "(hkey \<times> string) list \<Rightarrow> string list \<Rightarrow> (hkey \<times> command) list \<Rightarrow> bool" where
  "rows_are entries ps ups \<longleftrightarrow>
     ssorted fst entries \<and>
     (\<forall>k. map_option Inr (map_of entries k) = merged_row (parent_map ps k) (map_of ups k))"

lemma encoded_entries:
  assumes "map_res encode_update us = Inr new"
  obtains es where "new = map snd es" "map fst es = map fst us"
    "\<And>k. map_option Inr (map_of es k) = map_option runtime_index_line (map_of us k)"
proof -
  have a: "list_all2 (\<lambda>u row. encode_update u = Inr row) us new" using assms by (simp add: map_res_Inr_iff)
  define es where "es = zip (map fst us) new"
  have len: "length us = length new" using a by (rule list_all2_lengthD)
  have "map_option Inr (map_of es k) = map_option runtime_index_line (map_of us k)" for k
    unfolding es_def using a by (induction rule: list_all2_induct) (auto simp: encode_update_def)
  then show thesis using that [of es] len by (simp add: es_def)
qed

lemma parent_map_Cons:
  assumes "runtime_row line = Inr (key, r, f)"
  shows "parent_map (line # ps) = (parent_map ps)(key \<mapsto> (r, line))"
  using assms by (simp add: parent_map_def parent_entry_def)

lemma ssorted_append:
  "ssorted K (xs @ ys) \<longleftrightarrow> ssorted K xs \<and> ssorted K ys \<and> (\<forall>x \<in> set xs. \<forall>y \<in> set ys. K x < K y)"
  by (induction xs) auto

lemma rows_are_keys:
  assumes "rows_are es ps ups" and "x \<in> set es"
  shows "parent_map ps (fst x) \<noteq> None \<or> map_of ups (fst x) \<noteq> None"
proof -
  have "map_of es (fst x) \<noteq> None" using assms(2) by (auto simp: map_of_eq_None_iff)
  then have "merged_row (parent_map ps (fst x)) (map_of ups (fst x)) \<noteq> None"
    using assms(1) by (metis option.map_disc_iff rows_are_def)
  then show ?thesis by (auto simp: merged_row_def split: option.splits)
qed

text \<open>One parent row, with the updates around it.\<close>

lemma rows_are_step:
  assumes row: "runtime_row line = Inr (key, r, f)"
    and before: "map fst bs = map fst us" "\<And>k. map_option Inr (map_of bs k) = map_option runtime_index_line (map_of us k)"
      "ssorted fst us" "\<forall>u \<in> set us. fst u < key"
    and mid: "Some (Inr encoded) = merged_row (Some (r, line)) cu"
    and rest: "rows_are es ps rest" "\<forall>u \<in> set rest. key < fst u" "\<forall>k. parent_map ps k \<noteq> None \<longrightarrow> key < k"
    and ups: "map_of ups = map_of rest ++ (case cu of None \<Rightarrow> Map.empty | Some c \<Rightarrow> [key \<mapsto> c]) ++ map_of us"
  shows "rows_are (bs @ (key, encoded) # es) (line # ps) ups"
proof -
  have bs: "\<forall>b \<in> set bs. fst b < key"
    using before(1,4) by (metis (mono_tags, lifting) image_eqI image_iff list.set_map)
  have "ssorted fst bs" using before(1,3) by (simp add: ssorted_iff)
  have es: "\<forall>x \<in> set es. key < fst x"
  proof
    fix x assume "x \<in> set es"
    from rows_are_keys [OF rest(1) this] show "key < fst x"
      using rest(2,3) by (auto dest!: map_of_SomeD)
  qed
  have "ssorted fst (bs @ (key, encoded) # es)"
  proof -
    have "ssorted fst es" using rest(1) by (simp add: rows_are_def)
    moreover have "\<forall>x \<in> set bs. \<forall>y \<in> set es. fst x < fst y" using bs es by (meson less_trans)
    ultimately show ?thesis using \<open>ssorted fst bs\<close> bs es by (simp add: ssorted_append)
  qed
  moreover have "map_option Inr (map_of (bs @ (key, encoded) # es) k) =
      merged_row (parent_map (line # ps) k) (map_of ups k)" for k
  proof -
    have IH: "map_option Inr (map_of es k) = merged_row (parent_map ps k) (map_of rest k)"
      using rest(1) by (simp add: rows_are_def)
    have uk: "map_of ups k = (case map_of us k of Some c \<Rightarrow> Some c
        | None \<Rightarrow> (if k = key \<and> cu \<noteq> None then cu else map_of rest k))"
      by (simp add: ups map_add_def split: option.splits)
    have pk: "parent_map (line # ps) k = (if k = key then Some (r, line) else parent_map ps k)"
      by (simp add: parent_map_Cons [OF row])
    consider "k < key" | "k = key" | "key < k" by (rule linorder_cases)
    then show ?thesis
    proof cases
      case 1
      then have n: "map_of rest k = None" "parent_map ps k = None" "map_of es k = None"
        using rest(2,3) es by (auto simp: map_of_eq_None_iff)
      have "map_option Inr (map_of (bs @ (key, encoded) # es) k) = map_option Inr (map_of bs k)"
        using n(3) 1 by (simp add: map_add_def split: option.split)
      also have "\<dots> = merged_row None (map_of us k)"
        unfolding before(2) by (simp add: merged_row_def split: option.split)
      finally show ?thesis unfolding uk pk using less_imp_neq [OF 1] n by (cases "map_of us k") simp_all
    next
      case 2
      then have n: "map_of us k = None" "map_of bs k = None" "map_of rest k = None"
        using before(4) bs rest(2) by (auto simp: map_of_eq_None_iff)
      then have "map_option Inr (map_of (bs @ (key, encoded) # es) k) = Some (Inr encoded)"
        using 2 by (simp add: map_add_def)
      also have "\<dots> = merged_row (parent_map (line # ps) k) (map_of ups k)"
        unfolding uk pk mid using n 2 by (cases cu) simp_all
      finally show ?thesis .
    next
      case 3
      then have n: "map_of us k = None" "map_of bs k = None"
        using before(4) bs by (auto simp: map_of_eq_None_iff)
      then have "map_option Inr (map_of (bs @ (key, encoded) # es) k) = map_option Inr (map_of es k)"
        using less_imp_neq [OF 3] by (simp add: map_add_def)
      also note IH
      finally show ?thesis unfolding uk pk using less_imp_neq [OF 3] n by simp
    qed
  qed
  ultimately show ?thesis by (simp add: rows_are_def)
qed

definition pick_update :: "command \<Rightarrow> string \<Rightarrow> hkey \<Rightarrow> (hkey \<times> command) list \<Rightarrow> (string \<times> (hkey \<times> command) list) res" where
  "pick_update r line key rest =
     (case rest of
        u # us \<Rightarrow>
          if fst u = key
          then bind_res (runtime_index_line (merge_command_record r (snd u))) (\<lambda>l. Inr (l, us))
          else Inr (line, rest)
      | [] \<Rightarrow> Inr (line, rest))"

lemma merge_rows_ConsE:
  assumes "merge_rows previous (line # ps) e ups = Inr rows"
  obtains key r f new encoded rest' out where "runtime_row line = Inr (key, r, f)"
    and "case previous of None \<Rightarrow> True | Some p \<Rightarrow> p < key"
    and "map_res encode_update (takeWhile (\<lambda>u. fst u < key) ups) = Inr new"
    and "pick_update r line key (dropWhile (\<lambda>u. fst u < key) ups) = Inr (encoded, rest')"
    and "merge_rows (Some key) ps e rest' = Inr out" and "rows = new @ encoded # out"
proof (cases "runtime_row line")
  case (Inl x)
  then show thesis using assms by simp
next
  case (Inr x)
  obtain key r f where x: "x = (key, r, f)" by (cases x)
  show thesis
  proof (cases "case previous of None \<Rightarrow> True | Some p \<Rightarrow> p < key")
    case False
    then show thesis using assms Inr x by (simp add: guard_res_def)
  next
    case True
    note m = assms [unfolded merge_rows.simps pick_update_def [symmetric] Let_def Inr x, simplified, unfolded guard_res_def]
    obtain new where new: "map_res encode_update (takeWhile (\<lambda>u. fst u < key) ups) = Inr new"
      using m True by (cases "map_res encode_update (takeWhile (\<lambda>u. fst u < key) ups)") simp_all
    obtain y where y: "pick_update r line key (dropWhile (\<lambda>u. fst u < key) ups) = Inr y"
      using m True new by (cases "pick_update r line key (dropWhile (\<lambda>u. fst u < key) ups)") simp_all
    obtain encoded rest' where y': "y = (encoded, rest')" by (cases y)
    obtain out where out: "merge_rows (Some key) ps e rest' = Inr out"
      using m True new y y' by (cases "merge_rows (Some key) ps e rest'") simp_all
    have "rows = new @ encoded # out" using m True new y y' out by simp
    then show thesis using that Inr x True new y y' out by blast
  qed
qed

text \<open>A merge that succeeds has checked that the parent is strictly sorted.\<close>

lemma merge_rows_bound:
  assumes "merge_rows (Some p) ps e ups = Inr rows" and "parent_map ps k \<noteq> None"
  shows "p < k"
  using assms
proof (induction ps arbitrary: p ups rows)
  case Nil
  then show ?case by (simp add: parent_map_def)
next
  case (Cons line ps)
  from Cons.prems(1) show ?case
  proof (cases rule: merge_rows_ConsE)
    case (1 key r f new encoded rest' out)
    then show ?thesis using Cons.IH [OF 1(5)] Cons.prems(2)
      by (cases "k = key") (auto simp: parent_map_Cons [OF 1(1)] intro: less_trans)
  qed
qed

lemma pick_update_cases:
  assumes "pick_update r line key rest = Inr (encoded, rest')" and "ssorted fst rest" and "\<forall>u \<in> set rest. key \<le> fst u"
  obtains cu where "Some (Inr encoded) = merged_row (Some (r, line)) cu" "\<forall>u \<in> set rest'. key < fst u"
    "ssorted fst rest'" "map_of rest = map_of rest' ++ (case cu of None \<Rightarrow> Map.empty | Some c \<Rightarrow> [key \<mapsto> c])"
proof (cases "\<exists>u us. rest = u # us \<and> fst u = key")
  case True
  then obtain c us where rest: "rest = (key, c) # us" by auto
  then have "runtime_index_line (merge_command_record r c) = Inr encoded" "rest' = us"
    using assms(1) by (auto simp: pick_update_def bind_res_Inr_iff)
  then show thesis using that [of "Some c"] assms(2) rest by (auto simp: merged_row_def fun_eq_iff map_add_def split: option.splits)
next
  case False
  then have e: "encoded = line" "rest' = rest" using assms(1) by (auto simp: pick_update_def split: list.splits if_splits)
  have "\<forall>u \<in> set rest. key < fst u"
    using False assms(2,3) by (cases rest) (auto simp: le_less intro: less_trans)
  then show thesis using that [of None] e assms(2) by (simp add: merged_row_def)
qed

lemma merge_rows_are:
  assumes "merge_rows previous ps e ups = Inr rows" and "ssorted fst ups"
  shows "e = None \<and> (\<exists>entries. rows = map snd entries \<and> rows_are entries ps ups)"
  using assms
proof (induction ps arbitrary: previous ups rows)
  case Nil
  then have e: "e = None" and m: "map_res encode_update ups = Inr rows"
    by (auto simp: bind_res_Inr_iff raise_end_def split: option.splits)
  obtain es where es: "rows = map snd es" "map fst es = map fst ups"
      "\<And>k. map_option Inr (map_of es k) = map_option runtime_index_line (map_of ups k)"
    using encoded_entries [OF m] by blast
  have "rows_are es [] ups"
    using es(2,3) Nil.prems(2) by (auto simp: rows_are_def parent_map_def merged_row_def ssorted_iff split: option.split)
  then show ?case using e es(1) by blast
next
  case (Cons line ps)
  from Cons.prems(1) show ?case
  proof (cases rule: merge_rows_ConsE)
    case (1 key r f new encoded rest' out)
    define us where "us = takeWhile (\<lambda>u. fst u < key) ups"
    define rest where "rest = dropWhile (\<lambda>u. fst u < key) ups"
    have split: "ups = us @ rest" by (simp add: us_def rest_def)
    have s: "ssorted fst us" "ssorted fst rest" using Cons.prems(2) unfolding split ssorted_append by blast+
    have us: "\<forall>u \<in> set us. fst u < key" by (auto simp: us_def dest: set_takeWhileD)
    have ge: "\<forall>u \<in> set rest. key \<le> fst u"
    proof (cases rest)
      case (Cons u r)
      then have "\<not> fst u < key" unfolding rest_def by (simp add: dropWhile_eq_Cons_conv)
      then show ?thesis using s(2) Cons by (auto simp: not_less intro: le_less_trans less_imp_le)
    qed simp
    obtain bs where bs: "new = map snd bs" "map fst bs = map fst us"
        "\<And>k. map_option Inr (map_of bs k) = map_option runtime_index_line (map_of us k)"
      using encoded_entries [OF 1(3) [folded us_def]] by blast
    obtain cu where cu: "Some (Inr encoded) = merged_row (Some (r, line)) cu" "\<forall>u \<in> set rest'. key < fst u"
        "ssorted fst rest'" "map_of rest = map_of rest' ++ (case cu of None \<Rightarrow> Map.empty | Some c \<Rightarrow> [key \<mapsto> c])"
      using pick_update_cases [OF 1(4) [folded rest_def] s(2) ge] by blast
    from Cons.IH [OF 1(5) cu(3)] obtain es where es: "e = None" "out = map snd es" "rows_are es ps rest'" by blast
    have "rows_are (bs @ (key, encoded) # es) (line # ps) ups"
      by (rule rows_are_step [OF 1(1) bs(2,3) s(1) us cu(1) es(3) cu(2)])
        (use merge_rows_bound [OF 1(5)] in \<open>auto simp: split cu(4)\<close>)
    moreover have "rows = map snd (bs @ (key, encoded) # es)" using 1(6) bs(1) es(2) by simp
    ultimately show ?thesis using es(1) by blast
  qed
qed

subsection \<open>The updates\<close>

lemma hexed_key_Inr: "hexed_key k = Inr h \<Longrightarrow> h = hex_key k \<and> utf8_ok (fst k) \<and> utf8_ok (fst (snd k)) \<and> utf8_ok (snd (snd k))"
  by (cases k) (auto simp: hexed_key_def hex_key_def bind_res_Inr_iff py_hex_Inr_iff)

lemma ordered_updates_Inr:
  assumes "ordered_updates updates = Inr ups" and "distinct (map fst updates)"
  shows "ssorted fst ups" "map_of ups = map_of (map (\<lambda>(k, r). (hex_key k, r)) updates)"
    "\<forall>(k, r) \<in> set updates. hexed_key k = Inr (hex_key k)"
proof -
  from assms(1) obtain rows where m: "map_res (\<lambda>(k, r). bind_res (hexed_key k) (\<lambda>h. Inr (h, r))) updates = Inr rows"
    and ups: "ups = sort_key fst rows"
    by (auto simp: ordered_updates_def bind_res_Inr_iff)
  have "list_all2 (\<lambda>(k, r) y. bind_res (hexed_key k) (\<lambda>h. Inr (h, r)) = Inr y) updates rows"
    using m by (simp add: map_res_Inr_iff case_prod_unfold)
  then have rows: "rows = map (\<lambda>(k, r). (hex_key k, r)) updates \<and> (\<forall>(k, r) \<in> set updates. hexed_key k = Inr (hex_key k))"
    by (induction rule: list_all2_induct) (auto simp: bind_res_Inr_iff dest: hexed_key_Inr)
  then show "\<forall>(k, r) \<in> set updates. hexed_key k = Inr (hex_key k)" by blast
  have "map fst rows = map hex_key (map fst updates)" using rows by (simp add: case_prod_unfold)
  moreover have "distinct (map hex_key (map fst updates))"
    using assms(2) by (subst distinct_map) (simp add: inj_on_def hex_key_inj)
  ultimately have d: "distinct (map fst rows)" by (simp only:)
  show "ssorted fst ups" unfolding ups by (rule ssorted_sort_key [OF d])
  have "map_of (sort_key fst rows) = map_of rows"
    using map_of_inject_set [OF ssorted_distinct [OF ssorted_sort_key [OF d]] d] by simp
  then show "map_of ups = map_of (map (\<lambda>(k, r). (hex_key k, r)) updates)" using rows ups by simp
qed

text \<open>C11. Merging the tail's commands into the parent's command index is the map update it stands
for: the runtime index is written strictly sorted by key, one row per key of the parent or of the
tail, a parent row unchanged where the tail has no command for it and otherwise the merged record;
the legacy index has the same rows in the legacy form, and both are counted right.\<close>

theorem merged_command_index:
  assumes "write_merged_indexes limit (Some (iter_lines x content, send)) updates atts base = Inr mi"
    and "distinct (map fst updates)"
  shows "\<exists>ps entries. iter_lines x content = (ps, None) \<and> ssorted fst entries \<and>
    (\<forall>k. map_option Inr (map_of entries k) =
       merged_row (parent_map ps k) (map_of (map (\<lambda>(k, r). (hex_key k, r)) updates) k)) \<and>
    mi_runtime mi = concat (map snd entries) \<and> mi_legacy mi = concat (map (legacy_line \<circ> snd) entries) \<and>
    mi_commands mi = length entries"
proof -
  obtain ps e where ps: "iter_lines x content = (ps, e)" by (cases "iter_lines x content")
  from assms(1) ps obtain ups rows where ups: "ordered_updates updates = Inr ups"
    and m: "merge_rows None ps e ups = Inr rows"
    and mi: "mi_runtime mi = concat rows" "mi_legacy mi = concat (map legacy_line rows)" "mi_commands mi = length rows"
    by (auto simp: write_merged_indexes_def bind_res_Inr_iff Let_def split: prod.splits)
  note u = ordered_updates_Inr [OF ups assms(2)]
  from merge_rows_are [OF m u(1)] obtain entries where
    "e = None" "rows = map snd entries" "rows_are entries ps ups" by blast
  then show ?thesis using ps mi u(2) by (auto simp: rows_are_def)
qed

subsection \<open>Reading the merged index\<close>

definition index_map :: "string list \<Rightarrow> hkey \<Rightarrow> command option" where
  "index_map rows k = map_option fst (parent_map rows k)"

definition merge_maps :: "(hkey \<Rightarrow> command option) \<Rightarrow> (hkey \<Rightarrow> command option) \<Rightarrow> hkey \<Rightarrow> command option" where
  "merge_maps old new k =
     (case new k of
        None \<Rightarrow> old k
      | Some u \<Rightarrow> Some (case old k of None \<Rightarrow> u | Some p \<Rightarrow> merge_command_record p u))"

definition indexable :: "command \<Rightarrow> bool" where
  "indexable r \<longleftrightarrow> encodable r \<and> (\<forall>l. runtime_index_line r = Inr l \<longrightarrow> length l \<le> MAX_INDEX_LINE)"

definition readable_rows :: "string list \<Rightarrow> bool" where
  "readable_rows rows \<longleftrightarrow>
     (\<forall>row \<in> set rows. line_ok row \<and> length row \<le> MAX_INDEX_LINE \<and> (\<exists>v. runtime_row row = Inr v)) \<and>
     ssorted (fst \<circ> parent_entry) rows"

lemma runtime_row_key:
  assumes "runtime_row line = Inr (hex_key k, r, f)" and "hexed_key k = Inr (hex_key k)"
  shows "record_key r = k"
proof -
  obtain a s c where k: "k = (a, s, c)" by (cases k)
  have u: "utf8_ok a" "utf8_ok s" "utf8_ok c" using hexed_key_Inr [OF assms(2)] k by auto
  have "f ! 0 = hex_of a" "f ! 1 = hex_of s" "f ! 2 = hex_of c" "parse_command f = Inr r"
    using assms(1) k
    by (auto simp: runtime_row_def hex_key_def gen_error_def bind_res_Inr_iff split: if_splits)
  then show ?thesis using u k by (auto simp: parse_command_def bind_res_Inr_iff record_key_def)
qed

lemma record_key_merge [simp]: "record_key (merge_command_record p u) = record_key p"
  by (simp add: merge_command_record_def record_key_def)

lemma written_row:
  assumes "indexable r" and "runtime_index_line r = Inr line"
  shows "line_ok line" "length line \<le> MAX_INDEX_LINE"
    "runtime_row line = Inr (hex_key (record_key r), r, runtime_field_list r)"
proof -
  have enc: "encodable r" and len: "length line \<le> MAX_INDEX_LINE" using assms by (auto simp: indexable_def)
  have "line = join_with TAB (runtime_field_list r) @ [LF]" using assms(2) enc by (simp add: runtime_index_line_ok)
  moreover have "LF \<notin> set (join_with TAB (runtime_field_list r))"
    by (rule not_in_join_with) (use runtime_fields_tsv [OF enc] in \<open>auto simp: tsv_field_def TAB_def LF_def\<close>)
  ultimately show "line_ok line" by (auto simp: line_ok_def)
  show "length line \<le> MAX_INDEX_LINE" by (rule len)
  show "runtime_row line = Inr (hex_key (record_key r), r, runtime_field_list r)"
    by (rule runtime_row_line [OF enc assms(2) len])
qed

lemma merge_rows_parents:
  assumes "merge_rows previous ps e ups = Inr rows"
  shows "\<forall>p \<in> set ps. \<exists>v. runtime_row p = Inr v"
  using assms
proof (induction ps arbitrary: previous ups rows)
  case (Cons line ps)
  from Cons.prems show ?case
    by (cases rule: merge_rows_ConsE) (use Cons.IH in auto)
qed simp

lemma parent_map_Some:
  assumes "\<forall>p \<in> set ps. \<exists>v. runtime_row p = Inr v" and "parent_map ps k = Some (r, line)"
  obtains f where "line \<in> set ps" "runtime_row line = Inr (k, r, f)"
proof -
  have "(k, r, line) \<in> set (map parent_entry ps)" using assms(2) unfolding parent_map_def by (rule map_of_SomeD)
  then obtain p where p: "p \<in> set ps" "parent_entry p = (k, r, line)" by auto
  obtain v where "runtime_row p = Inr v" using assms(1) p(1) by blast
  then show thesis using that p by (cases v) (auto simp: parent_entry_def)
qed

text \<open>The row of a key reads back as the merged record of that key.\<close>

lemma entry_reads:
  assumes parents: "\<forall>p \<in> set ps. line_ok p \<and> (\<exists>v. runtime_row p = Inr v)"
    and row: "Some (Inr line) = merged_row (parent_map ps h) (map_of ups h)"
    and keys: "\<And>u. map_of ups h = Some u \<Longrightarrow> h = hex_key (record_key u) \<and> hexed_key (record_key u) = Inr h"
    and new: "\<And>u r. map_of ups h = Some u \<Longrightarrow> merge_maps (index_map ps) (map_of ups) h = Some r \<Longrightarrow> indexable r"
  shows "line_ok line \<and> length line \<le> MAX_INDEX_LINE \<and>
    (\<exists>r f. runtime_row line = Inr (h, r, f) \<and> merge_maps (index_map ps) (map_of ups) h = Some r)"
proof (cases "map_of ups h")
  case None
  then obtain r where p: "parent_map ps h = Some (r, line)"
    using row by (auto simp: merged_row_def split: option.splits)
  obtain f where f: "line \<in> set ps" "runtime_row line = Inr (h, r, f)"
    using parent_map_Some [OF _ p] parents by blast
  then have "length line \<le> MAX_INDEX_LINE"
    by (auto simp: runtime_row_def gen_error_def split: if_splits)
  then show ?thesis using f parents None p by (auto simp: merge_maps_def index_map_def)
next
  case (Some u)
  define r where "r = (case index_map ps h of None \<Rightarrow> u | Some p \<Rightarrow> merge_command_record p u)"
  have mm: "merge_maps (index_map ps) (map_of ups) h = Some r" using Some by (simp add: merge_maps_def r_def)
  then have "indexable r" using new Some by blast
  moreover have "runtime_index_line r = Inr line"
    using row Some by (auto simp: r_def merged_row_def index_map_def split: option.splits)
  moreover have "hex_key (record_key r) = h"
  proof (cases "parent_map ps h")
    case None
    then show ?thesis using keys [OF Some] by (simp add: r_def index_map_def)
  next
    case (Some q)
    then obtain p l f where p: "parent_map ps h = Some (p, l)" "runtime_row l = Inr (h, p, f)"
      using parent_map_Some parents by (metis surj_pair)
    have "record_key p = record_key u"
      by (rule runtime_row_key) (use p(2) keys [OF \<open>map_of ups h = Some u\<close>] in auto)
    then show ?thesis using p(1) keys [OF \<open>map_of ups h = Some u\<close>] by (simp add: r_def index_map_def)
  qed
  ultimately show ?thesis using written_row [of r line] mm by blast
qed

lemma index_map_rows:
  assumes "\<forall>(h, line) \<in> set entries. \<exists>r f. runtime_row line = Inr (h, r, f) \<and> M h = Some r"
    and "ssorted fst entries" and "\<And>h. M h \<noteq> None \<Longrightarrow> h \<in> fst ` set entries"
  shows "index_map (map snd entries) = M \<and> ssorted (fst \<circ> parent_entry) (map snd entries)"
proof -
  have pe: "\<forall>x \<in> set entries. \<exists>r. parent_entry (snd x) = (fst x, r, snd x) \<and> M (fst x) = Some r"
    using assms(1) by (fastforce simp: parent_entry_def)
  then have eq: "map (fst \<circ> parent_entry) (map snd entries) = map fst entries" by (induction entries) auto
  have s: "ssorted (fst \<circ> parent_entry) (map snd entries)"
    using assms(2) unfolding ssorted_iff eq .
  have "index_map (map snd entries) h = M h" for h
  proof (cases "h \<in> fst ` set entries")
    case False
    have "fst ` set (map parent_entry (map snd entries)) = fst ` set entries"
      using arg_cong [OF eq, of set] by (simp add: image_image)
    then have "parent_map (map snd entries) h = None"
      using False unfolding parent_map_def map_of_eq_None_iff by simp
    then show ?thesis using False assms(3) [of h] by (cases "M h") (simp_all add: index_map_def)
  next
    case True
    then obtain x r where x: "x \<in> set entries" "fst x = h" "parent_entry (snd x) = (h, r, snd x)" "M h = Some r"
      using pe by blast
    have "distinct (map fst (map parent_entry (map snd entries)))"
      using ssorted_distinct [OF s] by (simp add: comp_def)
    moreover have "(h, r, snd x) \<in> set (map parent_entry (map snd entries))" using x(1,3) by force
    ultimately have "parent_map (map snd entries) h = Some (r, snd x)"
      unfolding parent_map_def by (rule map_of_is_SomeI)
    then show ?thesis using x(4) by (simp add: index_map_def)
  qed
  then show ?thesis using s by blast
qed

lemma merged_index_refines_aux:
  assumes ok: "write_merged_indexes limit (Some (iter_lines x content, send)) updates atts base = Inr mi"
    and dist: "distinct (map fst updates)" and keys: "\<forall>(k, r) \<in> set updates. record_key r = k"
    and new: "\<And>ps h r. iter_lines x content = (ps, None) \<Longrightarrow> h \<in> hex_key ` fst ` set updates \<Longrightarrow>
      merge_maps (index_map ps) (map_of (map (\<lambda>(k, r). (hex_key k, r)) updates)) h = Some r \<Longrightarrow> indexable r"
  shows "\<exists>ps rows. iter_lines x content = (ps, None) \<and> iter_lines y (mi_runtime mi) = (rows, None) \<and>
    readable_rows rows \<and>
    index_map rows = merge_maps (index_map ps) (map_of (map (\<lambda>(k, r). (hex_key k, r)) updates))"
proof -
  obtain ps e where ps: "iter_lines x content = (ps, e)" by (cases "iter_lines x content")
  from ok ps obtain ups rows where ups: "ordered_updates updates = Inr ups"
    and m: "merge_rows None ps e ups = Inr rows" and mi: "mi_runtime mi = concat rows"
    by (auto simp: write_merged_indexes_def bind_res_Inr_iff Let_def split: prod.splits)
  note u = ordered_updates_Inr [OF ups dist]
  from merge_rows_are [OF m u(1)] obtain entries where
    e: "e = None" and rows: "rows = map snd entries" and re: "rows_are entries ps ups" by blast
  define M where "M = merge_maps (index_map ps) (map_of ups)"
  have parents: "\<forall>p \<in> set ps. line_ok p \<and> (\<exists>v. runtime_row p = Inr v)"
    using iter_lines_line_ok [OF ps] merge_rows_parents [OF m] by blast
  have entry: "line_ok line \<and> length line \<le> MAX_INDEX_LINE \<and> (\<exists>r f. runtime_row line = Inr (h, r, f) \<and> M h = Some r)"
    if "(h, line) \<in> set entries" for h line
    unfolding M_def
  proof (rule entry_reads [OF parents])
    have "map_of entries h = Some line"
      using that ssorted_distinct [of fst entries] re by (auto simp: rows_are_def intro: map_of_is_SomeI)
    moreover have "map_option Inr (map_of entries h) = merged_row (parent_map ps h) (map_of ups h)"
      using re by (simp add: rows_are_def)
    ultimately show "Some (Inr line) = merged_row (parent_map ps h) (map_of ups h)" by simp
  next
    fix c assume "map_of ups h = Some c"
    then obtain k where k: "(k, c) \<in> set updates" "h = hex_key k"
      unfolding u(2) by (auto dest!: map_of_SomeD)
    then show "h = hex_key (record_key c) \<and> hexed_key (record_key c) = Inr h" using u(3) keys by auto
    fix r assume "merge_maps (index_map ps) (map_of ups) h = Some r"
    then show "indexable r" using new [of ps h r] ps e k u(2) by force
  qed
  have "index_map rows = M \<and> ssorted (fst \<circ> parent_entry) rows"
    unfolding rows
  proof (rule index_map_rows)
    show "ssorted fst entries" using re by (simp add: rows_are_def)
    show "\<forall>(h, line) \<in> set entries. \<exists>r f. runtime_row line = Inr (h, r, f) \<and> M h = Some r" using entry by blast
    show "h \<in> fst ` set entries" if "M h \<noteq> None" for h
    proof -
      have "merged_row (parent_map ps h) (map_of ups h) \<noteq> None"
        using that by (auto simp: M_def merge_maps_def merged_row_def index_map_def split: option.splits)
      then have "map_of entries h \<noteq> None" using re by (metis option.map_disc_iff rows_are_def)
      then show ?thesis by (simp add: map_of_eq_None_iff)
    qed
  qed
  moreover have "iter_lines y (mi_runtime mi) = (rows, None)"
    unfolding mi by (rule iter_lines_written) (use entry rows in auto)
  moreover have "\<forall>row \<in> set rows. line_ok row \<and> length row \<le> MAX_INDEX_LINE \<and> (\<exists>v. runtime_row row = Inr v)"
    using entry rows by fastforce
  ultimately show ?thesis using ps e by (auto simp: readable_rows_def M_def u(2))
qed

text \<open>C10. The merged command index refines a map update. If every record the merge writes can be
represented in a row, the written file reads back as complete, strictly sorted rows whose map from
keys to records is the parent's map updated with the tail's commands, merged where both have one.\<close>

theorem merged_index_refines:
  assumes "write_merged_indexes limit (Some (iter_lines x content, send)) updates atts base = Inr mi"
    and "distinct (map fst updates)" and "\<forall>(k, r) \<in> set updates. record_key r = k"
    and "\<And>ps h r. iter_lines x content = (ps, None) \<Longrightarrow> h \<in> hex_key ` fst ` set updates \<Longrightarrow>
      merge_maps (index_map ps) (map_of (map (\<lambda>(k, r). (hex_key k, r)) updates)) h = Some r \<Longrightarrow> indexable r"
  shows "\<exists>ps rows. iter_lines x content = (ps, None) \<and> iter_lines y (mi_runtime mi) = (rows, None) \<and>
    readable_rows rows \<and>
    index_map rows = merge_maps (index_map ps) (map_of (map (\<lambda>(k, r). (hex_key k, r)) updates))"
  by (rule merged_index_refines_aux [OF assms])

subsection \<open>Incremental projection\<close>

text \<open>The kinds of event that make a command without an operation a \<open>place\<close>.\<close>

definition ambiguous_kind :: "event \<Rightarrow> bool" where
  "ambiguous_kind ev \<longleftrightarrow> event_kind ev \<in> {''order_intent'', ''place_send_attempt'', ''place_sent'',
     ''place_activated'', ''place_outcome_uncertain'', ''execution_command_resolved'', ''reject''}"

text \<open>The kinds of event that name the operation of their command whatever it was.\<close>

definition names_operation :: "event \<Rightarrow> bool" where
  "names_operation ev \<longleftrightarrow> starts_with ''flatten_'' (event_kind ev) \<or> event_kind ev = ''flatten_noop'' \<or>
     starts_with ''cancel_'' (event_kind ev) \<or> event_kind ev = ''cancel''"

text \<open>The tail events of a command agree with its operation before the tail.\<close>

definition op_stable :: "string \<Rightarrow> event list \<Rightarrow> bool" where
  "op_stable op evs \<longleftrightarrow>
     op \<in> {[], ''place''} \<or> (\<exists>ev \<in> set evs. names_operation ev) \<or> (\<forall>ev \<in> set evs. \<not> ambiguous_kind ev)"

lemma operation_cases:
  obtains (fixed) c where "names_operation ev" "c \<noteq> []" "\<And>prior. operation_of ev prior = c"
    | (place) "\<not> names_operation ev" "ambiguous_kind ev" "\<And>prior. operation_of ev prior = or_str prior ''place''"
    | (keep) "\<not> names_operation ev" "\<not> ambiguous_kind ev" "\<And>prior. operation_of ev prior = prior"
proof -
  let ?k = "event_kind ev"
  consider "starts_with ''flatten_'' ?k \<or> ?k = ''flatten_noop''"
    | "\<not> (starts_with ''flatten_'' ?k \<or> ?k = ''flatten_noop'')" "starts_with ''cancel_'' ?k \<or> ?k = ''cancel''"
    | "\<not> names_operation ev" by (auto simp: names_operation_def)
  then show thesis
  proof cases
    case 1
    then show ?thesis by (intro fixed [of "''flatten''"]) (auto simp: operation_of_def names_operation_def Let_def)
  next
    case 2
    then show ?thesis by (intro fixed [of "''cancel''"]) (auto simp: operation_of_def names_operation_def Let_def)
  next
    case 3
    then have n: "\<not> (starts_with ''flatten_'' ?k \<or> ?k = ''flatten_noop'')" "\<not> (starts_with ''cancel_'' ?k \<or> ?k = ''cancel'')"
      by (auto simp: names_operation_def)
    have o: "operation_of ev prior = (if ambiguous_kind ev then or_str prior ''place'' else prior)" for prior
      using n unfolding operation_of_def Let_def ambiguous_kind_def by (simp only: if_True if_False)
    show ?thesis
    proof (cases "ambiguous_kind ev")
      case True
      show ?thesis by (rule place [OF 3 True]) (simp add: o True)
    next
      case False
      show ?thesis by (rule keep [OF 3 False]) (simp add: o False)
    qed
  qed
qed

text \<open>The operation after some events, as a function of the operation before them.\<close>

definition operation_after :: "string \<Rightarrow> event list \<Rightarrow> string" where
  "operation_after op evs = foldl (\<lambda>o1 ev. operation_of ev o1) op evs"

lemma operation_foldl: "operation (foldl apply_fields r evs) = operation_after (operation r) evs"
  by (induction evs rule: rev_induct) (simp_all add: operation_after_def apply_fields_def Let_def)

lemma operation_after_snoc [simp]: "operation_after op (evs @ [ev]) = operation_of ev (operation_after op evs)"
  by (simp add: operation_after_def)

lemma operation_after_cases:
  shows "\<exists>ev \<in> set evs. names_operation ev \<Longrightarrow> \<exists>c. c \<noteq> [] \<and> (\<forall>op. operation_after op evs = c)"
    and "\<forall>ev \<in> set evs. \<not> names_operation ev \<Longrightarrow>
      operation_after op evs = (if \<exists>ev \<in> set evs. ambiguous_kind ev then or_str op ''place'' else op)"
proof (induction evs rule: rev_induct)
  case Nil
  { case 1 then show ?case by simp }
  { case 2 then show ?case by (simp add: operation_after_def) }
next
  case (snoc ev evs)
  { case 1
    show ?case
    proof (cases ev rule: operation_cases)
      case (fixed c)
      then show ?thesis by auto
    next
      case place
      then have "\<exists>e \<in> set evs. names_operation e" using 1 by auto
      from snoc(1) [OF this] show ?thesis using place(3) by (auto simp: or_str_def)
    next
      case keep
      then have "\<exists>e \<in> set evs. names_operation e" using 1 by auto
      from snoc(1) [OF this] show ?thesis using keep(3) by auto
    qed }
  { case 2
    then have n: "operation_after op evs = (if \<exists>ev \<in> set evs. ambiguous_kind ev then or_str op ''place'' else op)"
      using snoc(2) by simp
    show ?case
      by (cases ev rule: operation_cases) (use 2 n in \<open>auto simp: or_str_def\<close>) }
qed

text \<open>The operation that the merge writes is the right one if and only if the tail is stable; if it
  is not, the merge writes \<open>place\<close> over the operation of the command.\<close>

lemma merged_operation:
  "(or_str (operation_after [] evs) op = operation_after op evs \<longleftrightarrow> op_stable op evs) \<and>
   (\<not> op_stable op evs \<longrightarrow> or_str (operation_after [] evs) op = ''place'' \<and> operation_after op evs = op)"
proof (cases "\<exists>ev \<in> set evs. names_operation ev")
  case True
  then show ?thesis using operation_after_cases(1) [OF True] by (auto simp: op_stable_def or_str_def)
next
  case False
  then have "\<forall>ev \<in> set evs. \<not> names_operation ev" by blast
  then show ?thesis
    using operation_after_cases(2) [of evs op] operation_after_cases(2) [of evs "[]"] False
    by (auto simp: op_stable_def or_str_def split: if_splits)
qed

lemma status_of_range: "status_of ev prior \<in> {prior, ''uncertain'', ''rejected'', ''accepted''}"
  unfolding status_of_def Let_def by (simp only: split: if_split) blast

text \<open>Folding the events of a command into a record, and merging in their fold from scratch: all
  fields but the operation agree.\<close>

definition folds_to :: "command \<Rightarrow> command \<Rightarrow> command \<Rightarrow> bool" where
  "folds_to p u q \<longleftrightarrow>
     record_key q = record_key p \<and>
     request_hash q = or_str (request_hash u) (request_hash p) \<and>
     reason q = or_str (reason u) (reason p) \<and>
     venue_correlation_id q = or_str (venue_correlation_id u) (venue_correlation_id p) \<and>
     account q = or_str (account u) (account p) \<and>
     execution_domain q = or_str (execution_domain u) (execution_domain p) \<and>
     status q = (if status u \<noteq> [] \<and> status u \<noteq> ''unknown'' then status u else status p) \<and>
     order_id q = (if 0 \<le> order_id u then order_id u else order_id p) \<and>
     durable_mutation_intent q = (durable_mutation_intent p \<or> durable_mutation_intent u)"

lemma folds_to_step:
  assumes f: "folds_to p u q"
  shows "folds_to p (apply_fields u ev) (apply_fields q ev)"
proof -
  have st: "status (apply_fields q ev) = (if status (apply_fields u ev) \<noteq> [] \<and> status (apply_fields u ev) \<noteq> ''unknown''
      then status (apply_fields u ev) else status p)"
  proof (cases "status_decision ev")
    case None
    then show ?thesis using f by (simp add: apply_fields_def Let_def status_of_decision folds_to_def)
  next
    case (Some s)
    have "s \<in> {''a'', ''uncertain'', ''rejected'', ''accepted''}" "s \<in> {''b'', ''uncertain'', ''rejected'', ''accepted''}"
      using status_of_range [of ev "''a''"] status_of_range [of ev "''b''"] Some by (simp_all add: status_of_decision)
    then show ?thesis using Some by (auto simp: apply_fields_def Let_def status_of_decision)
  qed
  have sel: "request_hash (apply_fields r ev) = or_str (str_field ev ''request_hash'') (request_hash r)"
    "reason (apply_fields r ev) = or_str (str_field ev ''risk_code'') (reason r)"
    "venue_correlation_id (apply_fields r ev) = or_str (str_field ev ''venue_correlation_id'') (venue_correlation_id r)"
    "account (apply_fields r ev) = or_str (str_field ev ''account'') (account r)"
    "execution_domain (apply_fields r ev) = or_str (str_field ev ''execution_domain'') (execution_domain r)"
    "order_id (apply_fields r ev) = (let oid = int_field ev ''order_id'' (-1) in if 0 \<le> oid then oid else order_id r)"
    "durable_mutation_intent (apply_fields r ev) = (durable_mutation_intent r \<or> durable_intent ev)"
    "record_key (apply_fields r ev) = record_key r" for r
    by (simp_all add: apply_fields_def Let_def record_key_def)
  have or_assoc: "or_str a (or_str b c) = or_str (or_str a b) c" for a b c by (simp add: or_str_def)
  have parts: "request_hash q = or_str (request_hash u) (request_hash p)" "reason q = or_str (reason u) (reason p)"
    "venue_correlation_id q = or_str (venue_correlation_id u) (venue_correlation_id p)"
    "account q = or_str (account u) (account p)"
    "execution_domain q = or_str (execution_domain u) (execution_domain p)"
    "order_id q = (if 0 \<le> order_id u then order_id u else order_id p)"
    "durable_mutation_intent q = (durable_mutation_intent p \<or> durable_mutation_intent u)"
    "record_key q = record_key p"
    using f unfolding folds_to_def by blast+
  show ?thesis
    unfolding folds_to_def sel parts
  proof (intro conjI impI refl or_assoc, goal_cases)
    case 1
    show ?case by (rule st)
  next
    case 2
    show ?case by (simp add: Let_def)
  next
    case 3
    show ?case by blast
  qed
qed

lemma foldl_folds_to:
  "folds_to p (foldl apply_fields (unnumbered (new_command k)) evs) (foldl apply_fields p evs)"
proof (induction evs rule: rev_induct)
  case Nil
  show ?case by (simp add: folds_to_def unnumbered_def new_command_def or_str_def)
next
  case (snoc ev evs)
  then show ?case using folds_to_step [OF snoc] by simp
qed

lemma folds_to_merge:
  "folds_to p u q \<Longrightarrow> unnumbered (merge_command_record p u) = (unnumbered q)\<lparr>operation := or_str (operation u) (operation p)\<rparr>"
  by (simp add: folds_to_def unnumbered_def merge_command_record_def record_key_def)

text \<open>The position of the last event of a command.\<close>

definition last_seq :: "ckey \<Rightarrow> event list \<Rightarrow> int" where
  "last_seq k es = snd (foldl (\<lambda>(n, l) e. (n + 1, if key_of e = k then n + 1 else l)) (0, 0) es)"

lemma last_seq_snoc:
  "last_seq k (es @ [e]) = (if key_of e = k then int (length es) + 1 else last_seq k es)"
proof -
  have "fst (foldl (\<lambda>(n, l) e. (n + 1, if key_of e = k then n + 1 else l)) (0, 0) es) = int (length es)"
    by (induction es rule: rev_induct) (simp_all add: case_prod_unfold)
  then show ?thesis by (simp add: last_seq_def case_prod_unfold)
qed

lemma last_seq_Nil [simp]: "last_seq k [] = 0"
  by (simp add: last_seq_def)

lemma last_seq_bound: "0 \<le> last_seq k es \<and> last_seq k es \<le> int (length es)"
  by (induction es rule: rev_induct) (auto simp: last_seq_snoc)

lemma last_seq_append:
  "last_seq k (es @ t) = (if \<exists>e \<in> set t. key_of e = k then int (length es) + last_seq k t else last_seq k es)"
proof (induction t rule: rev_induct)
  case (snoc e t)
  have "last_seq k (es @ t @ [e]) = (if key_of e = k then int (length (es @ t)) + 1 else last_seq k (es @ t))"
    using last_seq_snoc [of k "es @ t" e] by simp
  then show ?case using snoc.IH by (simp add: last_seq_snoc)
qed simp

lemma hot_scan_last:
  assumes "hot_scan es = Inr st" and "map_of (commands st) k = Some r" and "key_complete k"
  shows "last_sequence r = last_seq k es"
  using assms(1,2)
proof (induction es arbitrary: st r rule: rev_induct)
  case Nil
  then show ?case by (auto simp: hot_scan_Nil init_hot_def)
next
  case (snoc e es)
  from snoc.prems obtain st0 where st0: "hot_scan es = Inr st0" "hot_step st0 (length es, e) = Inr st"
    by (blast elim: hot_scan_snocE)
  have "update_command (commands st0) e (int (Suc (length es))) = Inr (commands st)"
    using hot_step_sel [OF st0(2)] by blast
  then show ?case
  proof (cases rule: update_commandE)
    case skip
    then show ?thesis using snoc.IH [OF st0(1)] snoc.prems(2) assms(3) by (auto simp: last_seq_snoc)
  next
    case (upd r')
    then show ?thesis using snoc.IH [OF st0(1)] snoc.prems(2) apply_event_sel(3) [OF upd(2)]
      by (auto simp: last_seq_snoc update_conv' split: if_splits)
  qed
qed

lemma command_of_append:
  assumes "command_of k es = Some p"
  shows "command_of k (es @ t) = Some (foldl apply_fields p (command_events k t))"
  using assms by (simp add: command_of_def command_events_def split: if_splits)

lemma command_of_append_None: "command_of k es = None \<Longrightarrow> command_of k (es @ t) = command_of k t"
  by (simp add: command_of_def command_events_def split: if_splits)

lemma command_of_events: "command_of k t = Some u \<Longrightarrow> \<exists>e \<in> set t. key_of e = k"
  by (auto simp: command_of_def command_events_def filter_empty_conv split: if_splits)

lemma command_of_no_events: "command_of k t = None \<Longrightarrow> \<forall>e \<in> set t. key_of e \<noteq> k"
  by (auto simp: command_of_def command_events_def filter_empty_conv split: if_splits)

lemma unnumbered_eqI: "unnumbered r = unnumbered s \<Longrightarrow> last_sequence r = last_sequence s \<Longrightarrow> r = s"
  by (cases r; cases s) (simp add: unnumbered_def)

lemma unnumbered_merge: "unnumbered (merge_command_record p u) = unnumbered (merge_command_record (unnumbered p) (unnumbered u))"
  by (simp add: unnumbered_def merge_command_record_def)

lemma map_of_rebase:
  "map_of (rebase_commands n cs) k = map_option (\<lambda>u. u\<lparr>last_sequence := n + last_sequence u\<rparr>) (map_of cs k)"
  by (induction cs) (auto simp: rebase_commands_def)

text \<open>The record that the merge makes of a command, from its record before the tail and the tail
  alone: the record of the whole journal, up to the operation.\<close>

definition tail_stable :: "commands \<Rightarrow> event list \<Rightarrow> ckey \<Rightarrow> bool" where
  "tail_stable cs t k \<longleftrightarrow> (case map_of cs k of None \<Rightarrow> True | Some p \<Rightarrow> op_stable (operation p) (command_events k t))"

lemma merged_both:
  assumes s1: "hot_scan es = Inr s1" and s2: "hot_scan t = Inr s2" and st: "hot_scan (es @ t) = Inr st"
    and k: "key_complete k" and p: "map_of (commands s1) k = Some p" and u: "map_of (commands s2) k = Some u"
  shows "\<exists>r. map_of (commands st) k = Some r \<and> operation r = operation_after (operation p) (command_events k t) \<and>
    merge_command_record p (u\<lparr>last_sequence := int (length es) + last_sequence u\<rparr>) =
      r\<lparr>operation := or_str (operation_after [] (command_events k t)) (operation p)\<rparr>"
proof -
  define u' where "u' = u\<lparr>last_sequence := int (length es) + last_sequence u\<rparr>"
  have cu: "command_of k t = Some (unnumbered u)" using hot_scan_command [OF s2 k] u by simp
  have "command_of k es = Some (unnumbered p)" using hot_scan_command [OF s1 k] p by simp
  then have "map_option unnumbered (map_of (commands st) k) = Some (foldl apply_fields (unnumbered p) (command_events k t))"
    using hot_scan_command [OF st k] command_of_append by simp
  then obtain r where r: "map_of (commands st) k = Some r"
    "unnumbered r = foldl apply_fields (unnumbered p) (command_events k t)" by auto
  have uf: "unnumbered u = foldl apply_fields (unnumbered (new_command k)) (command_events k t)"
    using cu by (simp add: command_of_def split: if_splits)
  have op: "operation r = operation_after (operation p) (command_events k t)"
    "operation u = operation_after [] (command_events k t)"
    using arg_cong [OF r(2), of operation] arg_cong [OF uf, of operation]
    by (simp_all add: operation_foldl) (simp_all add: unnumbered_def new_command_def)
  have "unnumbered (merge_command_record (unnumbered p) (unnumbered u)) =
      (unnumbered (unnumbered r))\<lparr>operation := or_str (operation u) (operation p)\<rparr>"
    unfolding r(2) using folds_to_merge [OF foldl_folds_to [of "unnumbered p" k "command_events k t"], folded uf]
    by (simp add: unnumbered_def)
  then have un: "unnumbered (merge_command_record p u') = unnumbered (r\<lparr>operation := or_str (operation u) (operation p)\<rparr>)"
    unfolding unnumbered_merge [of p u'] by (simp add: unnumbered_def u'_def)
  have "last_sequence r = int (length es) + last_sequence u"
    using hot_scan_last [OF st r(1) k] command_of_events [OF cu] hot_scan_last [OF s2 u k] by (simp add: last_seq_append)
  moreover have "last_sequence p \<le> int (length es)" "0 \<le> last_sequence u"
    using hot_scan_last [OF s1 p k] last_seq_bound [of k es] hot_scan_last [OF s2 u k] last_seq_bound [of k t] by simp_all
  ultimately have "last_sequence (merge_command_record p u') = last_sequence (r\<lparr>operation := or_str (operation u) (operation p)\<rparr>)"
    by (simp add: merge_command_record_def u'_def)
  then have "merge_command_record p u' = r\<lparr>operation := or_str (operation u) (operation p)\<rparr>"
    by (rule unnumbered_eqI [OF un])
  then show ?thesis using r(1) op unfolding u'_def by simp
qed

lemma command_incremental:
  assumes s1: "hot_scan es = Inr s1" and s2: "hot_scan t = Inr s2" and st: "hot_scan (es @ t) = Inr st"
    and k: "key_complete k"
  shows "merge_maps (map_of (commands s1)) (map_of (rebase_commands (int (length es)) (commands s2))) k =
    map_option (\<lambda>r. if tail_stable (commands s1) t k then r else r\<lparr>operation := ''place''\<rparr>) (map_of (commands st) k)"
proof -
  note c1 = hot_scan_command [OF s1 k] and c2 = hot_scan_command [OF s2 k] and ct = hot_scan_command [OF st k]
  note l1 = hot_scan_last [OF s1 _ k] and l2 = hot_scan_last [OF s2 _ k] and lt = hot_scan_last [OF st _ k]
  show ?thesis
  proof (cases "map_of (commands s2) k")
    case None
    then have none: "command_of k t = None" using c2 by simp
    then have ev: "command_events k t = []" by (simp add: command_of_def split: if_splits)
    then have "command_of k (es @ t) = command_of k es" by (simp add: command_of_def command_events_def)
    then have eq: "map_option unnumbered (map_of (commands st) k) = map_option unnumbered (map_of (commands s1) k)"
      using c1 ct by simp
    have "last_seq k (es @ t) = last_seq k es"
      using command_of_no_events [OF none] by (auto simp: last_seq_append)
    then have "map_of (commands st) k = map_of (commands s1) k"
      using eq l1 lt by (cases "map_of (commands st) k"; cases "map_of (commands s1) k") (auto intro: unnumbered_eqI)
    then show ?thesis
      using None ev by (auto simp: merge_maps_def map_of_rebase tail_stable_def op_stable_def split: option.splits)
  next
    case u: (Some u)
    define u' where "u' = u\<lparr>last_sequence := int (length es) + last_sequence u\<rparr>"
    have reb: "map_of (rebase_commands (int (length es)) (commands s2)) k = Some u'"
      using u by (simp add: map_of_rebase u'_def)
    show ?thesis
    proof (cases "map_of (commands s1) k")
      case None
      have some: "command_of k t = Some (unnumbered u)" using c2 u by simp
      then have "map_option unnumbered (map_of (commands st) k) = Some (unnumbered u)"
        using None c1 ct command_of_append_None [of k es t] by simp
      then obtain r where r: "map_of (commands st) k = Some r" "unnumbered r = unnumbered u'" by (auto simp: u'_def)
      have "last_sequence r = last_sequence u'"
        using lt [OF r(1)] command_of_events [OF some] l2 [OF u] by (simp add: last_seq_append u'_def)
      then have "r = u'" by (rule unnumbered_eqI [OF r(2)])
      then show ?thesis using None r reb by (simp add: merge_maps_def tail_stable_def)
    next
      case (Some p)
      from merged_both [OF s1 s2 st k Some u] obtain r where r: "map_of (commands st) k = Some r"
        "operation r = operation_after (operation p) (command_events k t)"
        "merge_command_record p u' = r\<lparr>operation := or_str (operation_after [] (command_events k t)) (operation p)\<rparr>"
        unfolding u'_def by blast
      have "merge_command_record p u' = (if tail_stable (commands s1) t k then r else r\<lparr>operation := ''place''\<rparr>)"
        unfolding r(3) tail_stable_def Some
        using merged_operation [of "command_events k t" "operation p"] r(2) by auto
      then show ?thesis using r(1) Some reb by (simp add: merge_maps_def)
    qed
  qed
qed

lemma unstable_operation:
  assumes "hot_scan es = Inr s1" and "hot_scan t = Inr s2" and "hot_scan (es @ t) = Inr st" and "key_complete k"
    and "map_of (commands s1) k = Some p" and "\<not> op_stable (operation p) (command_events k t)"
  shows "\<exists>r. map_of (commands st) k = Some r \<and> operation r = operation p"
proof -
  have "command_events k t \<noteq> []" using assms(6) by (auto simp: op_stable_def)
  then obtain u where "map_of (commands s2) k = Some u"
    using hot_scan_command [OF assms(2,4)] by (auto simp: command_of_def)
  from merged_both [OF assms(1-5) this] show ?thesis
    using merged_operation [of "command_events k t" "operation p"] assms(6) by auto
qed

lemma commands_complete: "hot_scan es = Inr st \<Longrightarrow> (k, r) \<in> set (commands st) \<Longrightarrow> key_complete k"
proof (induction es arbitrary: st r rule: rev_induct)
  case Nil
  then show ?case by (auto simp: hot_scan_Nil init_hot_def)
next
  case (snoc e es)
  from snoc.prems obtain st0 where st0: "hot_scan es = Inr st0" "hot_step st0 (length es, e) = Inr st"
    by (blast elim: hot_scan_snocE)
  have upd: "update_command (commands st0) e (int (Suc (length es))) = Inr (commands st)"
    using hot_step_sel [OF st0(2)] by blast
  have "k \<in> fst ` set (commands st)" using snoc.prems(2) by force
  with upd have "k \<in> fst ` set (commands st0) \<or> k = key_of e \<and> key_complete k"
    by (cases rule: update_commandE) (auto simp: dom_update)
  then show ?case using snoc.IH [OF st0(1)] by auto
qed

definition hexed :: "commands \<Rightarrow> (hkey \<times> command) list" where
  "hexed cs = map (\<lambda>(k, r). (hex_key k, r)) cs"

lemma map_of_hexed: "map_of (hexed cs) (hex_key k) = map_of cs k"
  by (induction cs) (auto simp: hexed_def hex_key_inj)

lemma map_of_hexed_other: "h \<notin> range hex_key \<Longrightarrow> map_of (hexed cs) h = None"
  by (induction cs) (auto simp: hexed_def)

lemma merge_hexed:
  assumes "hot_scan es = Inr s1" and "hot_scan t = Inr s2" and "hot_scan (es @ t) = Inr st"
  shows "merge_maps (map_of (hexed (commands s1)))
      (map_of (hexed (rebase_commands (int (length es)) (commands s2)))) (hex_key k) =
    map_option (\<lambda>r. if tail_stable (commands s1) t k then r else r\<lparr>operation := ''place''\<rparr>) (map_of (commands st) k)"
proof (cases "key_complete k")
  case True
  from command_incremental [OF assms True] show ?thesis unfolding merge_maps_def map_of_hexed .
next
  case False
  have "map_of (commands s) k = None" if "hot_scan xs = Inr s" for xs s
    using commands_complete [OF that, of k] False by (cases "map_of (commands s) k") (auto dest: map_of_SomeD)
  then have "map_of (commands s1) k = None" "map_of (commands s2) k = None" "map_of (commands st) k = None"
    using assms by blast+
  then show ?thesis unfolding merge_maps_def map_of_hexed map_of_rebase by simp
qed

text \<open>Every record that the merge makes for a command of the tail fits a row of the index.\<close>

definition rows_fit :: "commands \<Rightarrow> commands \<Rightarrow> bool" where
  "rows_fit cs ups \<longleftrightarrow>
     (\<forall>(k, u) \<in> set ups. indexable (case map_of cs k of None \<Rightarrow> u | Some p \<Rightarrow> merge_command_record p u))"

lemma rows_fit_indexable:
  assumes "rows_fit cs ups" and "distinct (map fst ups)" and "h \<in> hex_key ` fst ` set ups"
    and "merge_maps (map_of (hexed cs)) (map_of (map (\<lambda>(k, r). (hex_key k, r)) ups)) h = Some r"
  shows "indexable r"
proof -
  from assms(3) obtain k u where k: "(k, u) \<in> set ups" "h = hex_key k" by auto
  have u: "map_of ups k = Some u" by (rule map_of_is_SomeI [OF assms(2) k(1)])
  have "merge_maps (map_of (hexed cs)) (map_of (hexed ups)) (hex_key k) = Some r"
    using assms(4) k(2) by (simp add: hexed_def)
  then show ?thesis using assms(1) k(1) u by (auto simp: rows_fit_def merge_maps_def map_of_hexed split: option.splits)
qed

text \<open>What the merge of a tail into the index of a parent writes, read back.\<close>

lemma seal_index_reads:
  assumes s2: "hot_scan t = Inr s2"
    and parent: "iter_lines x content = (ps, None)" "index_map ps = map_of (hexed cs)"
    and new: "rows_fit cs (rebase_commands n (commands s2))"
    and ok: "write_merged_indexes limit (Some (iter_lines x content, send)) (rebase_commands n (commands s2)) atts n = Inr mi"
  shows "\<exists>rows. iter_lines y (mi_runtime mi) = (rows, None) \<and> readable_rows rows \<and>
    index_map rows = merge_maps (map_of (hexed cs)) (map_of (hexed (rebase_commands n (commands s2))))"
proof -
  let ?ups = "rebase_commands n (commands s2)"
  have inv: "distinct (map fst (commands s2))" "\<forall>(k, r) \<in> set (commands s2). record_key r = k"
    using command_inv [OF s2] by (auto simp: command_inv_def)
  have fsts: "map fst ?ups = map fst (commands s2)" by (auto simp: rebase_commands_def)
  have d: "distinct (map fst ?ups)" using inv(1) unfolding fsts .
  have keys: "\<forall>(k, r) \<in> set ?ups. record_key r = k"
    using inv(2) by (auto simp: rebase_commands_def record_key_def)
  have idx: "indexable r" if "iter_lines x content = (qs, None)" "h \<in> hex_key ` fst ` set ?ups"
      "merge_maps (index_map qs) (map_of (map (\<lambda>(k, r). (hex_key k, r)) ?ups)) h = Some r" for qs h r
    using rows_fit_indexable [OF new d that(2)] that(1,3) parent by simp
  from merged_index_refines_aux [OF ok d keys idx] show ?thesis using parent by (auto simp: hexed_def)
qed

text \<open>The merge of valid input succeeds.\<close>

lemma map_res_succeeds: "\<forall>x \<in> set xs. \<exists>y. f x = Inr y \<Longrightarrow> \<exists>ys. map_res f xs = Inr ys"
  by (induction xs) auto

lemma merge_rows_succeeds:
  assumes "\<forall>p \<in> set ps. \<exists>v. runtime_row p = Inr v" and "ssorted (fst \<circ> parent_entry) ps"
    and "\<forall>p \<in> set ps. \<forall>q \<in> set_option previous. q < fst (parent_entry p)"
    and "\<forall>u \<in> set ups. \<exists>l. encode_update u = Inr l"
    and "\<forall>p \<in> set ps. \<forall>u \<in> set ups. fst u = fst (parent_entry p) \<longrightarrow>
      (\<exists>l. runtime_index_line (merge_command_record (fst (snd (parent_entry p))) (snd u)) = Inr l)"
  shows "\<exists>rows. merge_rows previous ps None ups = Inr rows"
  using assms
proof (induction ps arbitrary: previous ups)
  case Nil
  then show ?case using map_res_succeeds [of ups encode_update] by (auto simp: raise_end_def)
next
  case (Cons line ps)
  obtain key r f where row: "runtime_row line = Inr (key, r, f)" using Cons.prems(1) by (metis list.set_intros(1) prod_cases3)
  then have pe: "parent_entry line = (key, r, line)" by (simp add: parent_entry_def)
  have prev: "case previous of None \<Rightarrow> True | Some p \<Rightarrow> p < key" using Cons.prems(3) pe by (cases previous) auto
  have later: "\<forall>p \<in> set ps. key < fst (parent_entry p)" using Cons.prems(2) pe by (simp add: ssorted_def)
  have IH: "\<exists>out. merge_rows (Some key) ps None us = Inr out" if "set us \<subseteq> set ups" for us
  proof (rule Cons.IH)
    show "\<forall>p \<in> set ps. \<forall>u \<in> set us. fst u = fst (parent_entry p) \<longrightarrow>
        (\<exists>l. runtime_index_line (merge_command_record (fst (snd (parent_entry p))) (snd u)) = Inr l)"
      using Cons.prems(5) that by (meson list.set_intros(2) subsetD)
  qed (use Cons.prems later that in \<open>auto simp: ssorted_def\<close>)
  let ?rest = "dropWhile (\<lambda>u. fst u < key) ups"
  obtain new where new: "map_res encode_update (takeWhile (\<lambda>u. fst u < key) ups) = Inr new"
    using map_res_succeeds [of "takeWhile (\<lambda>u. fst u < key) ups" encode_update] Cons.prems(4) by (auto dest: set_takeWhileD)
  have sub: "set ?rest \<subseteq> set ups" by (auto dest: set_dropWhileD)
  show ?case
  proof (cases "\<exists>u us. ?rest = u # us \<and> fst u = key")
    case True
    then obtain u us where u: "?rest = u # us" "fst u = key" by blast
    then obtain l where l: "runtime_index_line (merge_command_record r (snd u)) = Inr l"
      using Cons.prems(5) pe sub by fastforce
    obtain out where "merge_rows (Some key) ps None us = Inr out" using IH [of us] sub u(1) by auto
    then show ?thesis using row prev new u l by (simp add: Let_def guard_res_def)
  next
    case False
    then have "(case ?rest of u # us \<Rightarrow> if fst u = key then bind_res (runtime_index_line (merge_command_record r (snd u))) (\<lambda>l. Inr (l, us))
        else Inr (line, ?rest) | [] \<Rightarrow> Inr (line, ?rest)) = Inr (line, ?rest)" by (auto split: list.splits)
    moreover obtain out where "merge_rows (Some key) ps None ?rest = Inr out" using IH [OF sub] by blast
    ultimately show ?thesis using row prev new by (simp add: Let_def guard_res_def)
  qed
qed

text \<open>C5. When sealing keeps the command index equal to the projection of the whole history. If the
parent's index holds the commands of the journal so far, and the journal with the tail can be
projected, then the merged index, which is written without reading the old journal again, reads back
as the commands of the journal with the tail, their sequences included, if and only if for every
flatten or cancel command of the parent the tail either has an event that names its operation or
none of the kinds that stand for a place.\<close>

theorem seal_index_is_projection:
  assumes "hot_scan es = Inr s1" and "hot_scan t = Inr s2" and "hot_scan (es @ t) = Inr st"
    and "iter_lines x content = (ps, None)" and "index_map ps = map_of (hexed (commands s1))"
    and "rows_fit (commands s1) (rebase_commands (int (length es)) (commands s2))"
    and "write_merged_indexes limit (Some (iter_lines x content, send))
      (rebase_commands (int (length es)) (commands s2)) atts (int (length es)) = Inr mi"
  shows "\<exists>rows. iter_lines y (mi_runtime mi) = (rows, None) \<and> readable_rows rows \<and>
    (index_map rows = map_of (hexed (commands st)) \<longleftrightarrow>
      (\<forall>(k, p) \<in> set (commands s1). op_stable (operation p) (command_events k t)))"
proof -
  let ?M = "merge_maps (map_of (hexed (commands s1))) (map_of (hexed (rebase_commands (int (length es)) (commands s2))))"
  note at = merge_hexed [OF assms(1-3)]
  have off: "?M h = map_of (hexed (commands st)) h" if "h \<notin> range hex_key" for h
    using that by (simp add: merge_maps_def map_of_hexed_other)
  have dist: "distinct (map fst (commands s1))" using command_inv [OF assms(1)] by (simp add: command_inv_def)
  have "?M = map_of (hexed (commands st)) \<longleftrightarrow> (\<forall>k. tail_stable (commands s1) t k)"
  proof
    assume "?M = map_of (hexed (commands st))"
    then have e: "map_option (\<lambda>r. if tail_stable (commands s1) t k then r else r\<lparr>operation := ''place''\<rparr>) (map_of (commands st) k) =
        map_of (commands st) k" for k
      using at [of k] by (simp add: map_of_hexed)
    show "\<forall>k. tail_stable (commands s1) t k"
    proof (rule allI, rule ccontr)
      fix k assume ns: "\<not> tail_stable (commands s1) t k"
      then obtain p where p: "map_of (commands s1) k = Some p" "\<not> op_stable (operation p) (command_events k t)"
        by (auto simp: tail_stable_def split: option.splits)
      have "key_complete k" by (rule commands_complete [OF assms(1) map_of_SomeD [OF p(1)]])
      from unstable_operation [OF assms(1-3) this p] obtain r where "map_of (commands st) k = Some r" "operation r = operation p"
        by blast
      then have "operation p = ''place''" using arg_cong [OF e [of k], of "map_option operation"] ns by simp
      then show False using p(2) by (simp add: op_stable_def)
    qed
  next
    assume s: "\<forall>k. tail_stable (commands s1) t k"
    show "?M = map_of (hexed (commands st))"
    proof
      fix h show "?M h = map_of (hexed (commands st)) h"
        using off [of h] at s by (cases "h \<in> range hex_key") (auto simp: map_of_hexed option.map_ident)
    qed
  qed
  moreover have "(\<forall>k. tail_stable (commands s1) t k) \<longleftrightarrow>
      (\<forall>(k, p) \<in> set (commands s1). op_stable (operation p) (command_events k t))"
    using dist by (auto simp: tail_stable_def split: option.splits dest: map_of_SomeD)
  ultimately show ?thesis using seal_index_reads [OF assms(2,4-7), where y = y] by auto
qed

subsection \<open>Where the merge differs from a projection of the whole journal\<close>

text \<open>C12. Where the merged index is wrong it says \<open>place\<close>: for a flatten or cancel command of the
parent whose tail events include a kind that stands for a place (its resolution, its rejection) and
none that names its operation, the row of the merged index is the record of the whole journal with
the operation replaced by \<open>place\<close>; every other field is right.\<close>

theorem merged_operation_diverges:
  assumes "hot_scan es = Inr s1" and "hot_scan t = Inr s2" and "hot_scan (es @ t) = Inr st"
    and "iter_lines x content = (ps, None)" and "index_map ps = map_of (hexed (commands s1))"
    and "rows_fit (commands s1) (rebase_commands (int (length es)) (commands s2))"
    and "write_merged_indexes limit (Some (iter_lines x content, send))
      (rebase_commands (int (length es)) (commands s2)) atts (int (length es)) = Inr mi"
    and "map_of (commands s1) k = Some p" and "operation p \<in> {''flatten'', ''cancel''}"
    and "ev \<in> set t" and "key_of ev = k" and "ambiguous_kind ev"
    and "\<forall>e \<in> set t. key_of e = k \<longrightarrow> \<not> names_operation e"
  shows "\<exists>rows r. iter_lines y (mi_runtime mi) = (rows, None) \<and>
    map_of (commands st) k = Some r \<and> operation r = operation p \<and>
    index_map rows (hex_key k) = Some (r\<lparr>operation := ''place''\<rparr>)"
proof -
  have ns: "\<not> op_stable (operation p) (command_events k t)"
    using assms(9-13) by (auto simp: op_stable_def command_events_def)
  have "key_complete k" by (rule commands_complete [OF assms(1) map_of_SomeD [OF assms(8)]])
  from unstable_operation [OF assms(1-3) this assms(8) ns] obtain r where
    r: "map_of (commands st) k = Some r" "operation r = operation p" by blast
  have "\<not> tail_stable (commands s1) t k" using ns assms(8) by (simp add: tail_stable_def)
  then show ?thesis
    using seal_index_reads [OF assms(2,4-7), where y = y] merge_hexed [OF assms(1-3), of k] r by auto
qed

text \<open>The projection of two journals that disagree on a request hash fails.\<close>

abbreviation hash_conflict :: exn where
  "hash_conflict \<equiv> GenerationError ''OMS_GENERATION_COMMAND_HASH_CONFLICT''"

lemma hot_step_error:
  assumes "hot_step st (i, ev) = Inl e"
    and "event_kind ev = ''account_new_entry_fenced'' \<longrightarrow> str_field ev ''account'' \<noteq> []"
  shows "e = hash_conflict"
proof -
  obtain st1 where "step_account_fence i ev (step_session i ev st) = Inr st1"
    using assms(2) by (cases "event_kind ev = ''account_new_entry_fenced''") (auto simp: step_account_fence_def Let_def)
  then show ?thesis using assms(1)
    by (auto simp: hot_step_def update_command_def apply_event_def bind_res_Inl_iff Let_def split: if_splits)
qed

lemma hot_scan_error:
  assumes "hot_scan es = Inl e"
    and "\<forall>ev \<in> set es. event_kind ev = ''account_new_entry_fenced'' \<longrightarrow> str_field ev ''account'' \<noteq> []"
  shows "e = hash_conflict"
  using assms
proof (induction es rule: rev_induct)
  case Nil
  then show ?case by (simp add: hot_scan_Nil)
next
  case (snoc ev es)
  then show ?case by (auto simp: hot_scan_snoc bind_res_Inl_iff dest: hot_step_error)
qed

lemma scan_conflict:
  assumes a: "hot_scan as = Inr sa" "map_of (commands sa) k = Some p"
    and b: "hot_scan bs = Inr sb" "map_of (commands sb) k = Some u"
    and h: "request_hash p \<noteq> []" "request_hash u \<noteq> []" "request_hash p \<noteq> request_hash u"
  shows "hot_scan (as @ bs) = Inl hash_conflict"
proof -
  have k: "key_complete k" by (rule commands_complete [OF a(1) map_of_SomeD [OF a(2)]])
  obtain e where e: "e \<in> set as" "key_of e = k" "hash_of e = request_hash p"
    using hash_invD [OF hash_inv [OF a(1)] k] a(2) h(1) by (auto simp: hash_at_def)
  obtain f where f: "f \<in> set bs" "key_of f = k" "hash_of f = request_hash u"
    using hash_invD [OF hash_inv [OF b(1)] k] b(2) h(2) by (auto simp: hash_at_def)
  have "\<not> scan_ok (set (as @ bs))"
  proof
    assume "scan_ok (set (as @ bs))"
    then have "key_complete (key_of e) \<longrightarrow> key_of e = key_of f \<longrightarrow> hash_of e \<noteq> [] \<longrightarrow> hash_of f \<noteq> [] \<longrightarrow> hash_of e = hash_of f"
      using e(1) f(1) unfolding scan_ok_def by auto
    then show False using e f h k by simp
  qed
  then obtain x where x: "hot_scan (as @ bs) = Inl x"
    using hot_scan_succeeds [of "as @ bs"] by (cases "hot_scan (as @ bs)") auto
  have "scan_ok (set as)" "scan_ok (set bs)" using a(1) b(1) hot_scan_succeeds by blast+
  then show ?thesis using hot_scan_error [OF x] x by (auto simp: scan_ok_def)
qed

lemma uncertain_conflict:
  assumes "hot_scan es = Inr s1" and "hot_scan t = Inr s2"
    and "map_of (commands s1) k = Some p" and "map_of (commands s2) k = Some u" and "status p = ''uncertain''"
    and "request_hash p \<noteq> []" and "request_hash u \<noteq> []" and "request_hash p \<noteq> request_hash u"
  shows "hot_scan (hot_replay s1 es @ t) = Inl hash_conflict"
proof -
  obtain s p' where s: "hot_scan (hot_replay s1 es) = Inr s" "map_of (commands s) k = Some p'" "unnumbered p' = unnumbered p"
    using uncertain_record_kept [OF assms(1,3,5)] by blast
  have "request_hash p' = request_hash p" using arg_cong [OF s(3), of request_hash] by (simp add: unnumbered_def)
  then show ?thesis using scan_conflict [OF s(1,2) assms(2,4)] assms(6-8) by simp
qed

text \<open>C13. A reused command identity is noticed while the command is uncertain: if the tail has the
identity of an uncertain command of the journal with another request hash, the projection of the hot
replay followed by the tail, which every seal runs before it writes an index, raises the hash
conflict.\<close>

theorem uncertain_hash_conflict_rejected:
  assumes "hot_scan es = Inr s1" and "hot_scan t = Inr s2"
    and "map_of (commands s1) k = Some p" and "map_of (commands s2) k = Some u" and "status p = ''uncertain''"
    and "request_hash p \<noteq> []" and "request_hash u \<noteq> []" and "request_hash p \<noteq> request_hash u"
  shows "project_hot (hot_replay s1 es @ t) = Inl (GenerationError ''OMS_GENERATION_COMMAND_HASH_CONFLICT'')"
  by (simp add: project_hot_def uncertain_conflict [OF assms])

text \<open>C27. It is not noticed once the command is settled: whenever the projections that a seal runs, of
the hot replay with the tail and of the tail alone, both succeed although the tail has another
request hash for a command of the journal, that command is not uncertain, the merged index holds the
tail's hash in the place of the journal's, and a projection of the whole journal would have raised
the conflict.\<close>

theorem settled_hash_conflict_merged:
  assumes "hot_scan es = Inr s1" and "hot_scan t = Inr s2" and "hot_scan (hot_replay s1 es @ t) = Inr sh"
    and "iter_lines x content = (ps, None)" and "index_map ps = map_of (hexed (commands s1))"
    and "rows_fit (commands s1) (rebase_commands (int (length es)) (commands s2))"
    and "write_merged_indexes limit (Some (iter_lines x content, send))
      (rebase_commands (int (length es)) (commands s2)) atts (int (length es)) = Inr mi"
    and "map_of (commands s1) k = Some p" and "map_of (commands s2) k = Some u"
    and "request_hash p \<noteq> []" and "request_hash u \<noteq> []" and "request_hash p \<noteq> request_hash u"
  shows "status p \<noteq> ''uncertain'' \<and>
    hot_scan (es @ t) = Inl (GenerationError ''OMS_GENERATION_COMMAND_HASH_CONFLICT'') \<and>
    (\<exists>rows r. iter_lines y (mi_runtime mi) = (rows, None) \<and> index_map rows (hex_key k) = Some r \<and>
      request_hash r = request_hash u)"
proof -
  have "status p \<noteq> ''uncertain''"
    using uncertain_conflict [OF assms(1,2,8,9) _ assms(10-12)] assms(3) by auto
  moreover have "hot_scan (es @ t) = Inl hash_conflict"
    by (rule scan_conflict [OF assms(1,8,2,9) assms(10-12)])
  moreover have "merge_maps (map_of (hexed (commands s1))) (map_of (hexed (rebase_commands (int (length es)) (commands s2)))) (hex_key k) =
      Some (merge_command_record p (u\<lparr>last_sequence := int (length es) + last_sequence u\<rparr>))"
    using assms(8,9) by (simp add: merge_maps_def map_of_hexed map_of_rebase)
  ultimately show ?thesis
    using seal_index_reads [OF assms(2,4-7), where y = y] assms(11) by (auto simp: merge_command_record_def or_str_def)
qed

subsection \<open>Samples\<close>

text \<open>A place and a flatten command; tails that finish both, that resolve the flatten command only,
and that reuse the identity of the place command.\<close>

definition index_event :: "string \<Rightarrow> string \<Rightarrow> string \<Rightarrow> string \<Rightarrow> event" where
  "index_event kind cmd state h =
     [(''event'', JStr kind), (''req_id'', JStr cmd), (''ts_ms'', JInt 2), (''source'', JStr ''agent:a''),
      (''trace_id'', JStr ''s''), (''status'', JStr state), (''request_hash'', JStr h)]"

definition open_journal :: "event list" where
  "open_journal = [index_event ''order_intent'' ''c1'' [] ''h1'', index_event ''flatten_intent'' ''c2'' [] ''h2'']"

definition finishing_tail :: "event list" where
  "finishing_tail = [index_event ''place_sent'' ''c1'' ''accepted'' ''h1'', index_event ''flatten_sent'' ''c2'' [] ''h2'',
     index_event ''order_intent'' ''c3'' [] ''h3'', index_event ''execution_command_resolved'' ''c2'' ''accepted'' ''h2'']"

definition resolving_tail :: "event list" where
  "resolving_tail = [index_event ''execution_command_resolved'' ''c2'' ''accepted'' ''h2'']"

definition settled_journal :: "event list" where
  "settled_journal = open_journal @ [index_event ''reject'' ''c1'' ''rejected'' ''h1'']"

definition reusing_tail :: "event list" where
  "reusing_tail = [index_event ''order_intent'' ''c1'' [] ''h9'']"

definition scanned :: "event list \<Rightarrow> commands" where
  "scanned es = (case hot_scan es of Inr s \<Rightarrow> commands s | Inl _ \<Rightarrow> [])"

definition scans :: "event list \<Rightarrow> bool" where
  "scans es = (case hot_scan es of Inr s \<Rightarrow> True | Inl _ \<Rightarrow> False)"

definition index_row :: "command \<Rightarrow> string" where
  "index_row r = (case runtime_index_line r of Inr l \<Rightarrow> l | Inl _ \<Rightarrow> [])"

definition index_rows :: "commands \<Rightarrow> string list" where
  "index_rows cs = map (\<lambda>(k, r). index_row r) cs"

definition short_row :: "command \<Rightarrow> bool" where
  "short_row r \<longleftrightarrow> encodable r \<and> (case runtime_index_line r of Inr l \<Rightarrow> length l \<le> 200 | Inl _ \<Rightarrow> False)"

definition sample_send :: "line_gen \<times> bool" where
  "sample_send = (([], None), False)"

text \<open>The merge of a tail into the index of a journal, and an executable check of all that the
theorems on it assume.\<close>

abbreviation merged_tail :: "event list \<Rightarrow> event list \<Rightarrow> merged_indexes res" where
  "merged_tail es t \<equiv> write_merged_indexes 8 (Some (iter_lines (OSError []) (concat (index_rows (scanned es))), sample_send))
     (rebase_commands (int (length es)) (scanned t)) [] (int (length es))"

definition sealable :: "event list \<Rightarrow> event list \<Rightarrow> bool" where
  "sealable es t \<longleftrightarrow> scans es \<and> scans t \<and>
     sorted_wrt (\<lambda>x y. hex_key (fst x) < hex_key (fst y)) (scanned es) \<and>
     list_all (\<lambda>(k, r). short_row r \<and> record_key r = k) (scanned es) \<and>
     list_all (\<lambda>(k, u). short_row u \<and> short_row (case map_of (scanned es) k of None \<Rightarrow> u | Some p \<Rightarrow> merge_command_record p u))
       (rebase_commands (int (length es)) (scanned t)) \<and>
     (case ordered_updates (rebase_commands (int (length es)) (scanned t)) of
        Inr ups \<Rightarrow> ups = hexed (rebase_commands (int (length es)) (scanned t)) | Inl _ \<Rightarrow> False)"

lemma scansE: "scans es \<Longrightarrow> (\<And>s. hot_scan es = Inr s \<Longrightarrow> commands s = scanned es \<Longrightarrow> thesis) \<Longrightarrow> thesis"
  by (auto simp: scans_def scanned_def split: sum.splits)

lemma short_row_indexable: "short_row r \<Longrightarrow> indexable r"
  by (auto simp: short_row_def indexable_def MAX_INDEX_LINE_def split: sum.splits)

lemma empty_send: "write_merged_send_index limit (Some sample_send) [] base = Inr ([], 0)"
  by (simp add: write_merged_send_index_def sort_lines_def external_sort_send_index_def flush_def
      raise_end_def sample_send_def)

lemma short_row_encodes: "short_row r \<Longrightarrow> \<exists>l. runtime_index_line r = Inr l"
  by (auto simp: short_row_def split: sum.splits)

lemma short_row_reads:
  assumes "short_row r"
  shows "line_ok (index_row r)" "length (index_row r) \<le> MAX_INDEX_LINE" "\<exists>v. runtime_row (index_row r) = Inr v"
    "parent_entry (index_row r) = (hex_key (record_key r), r, index_row r)"
proof -
  obtain l where l: "runtime_index_line r = Inr l" using short_row_encodes [OF assms] by blast
  show "line_ok (index_row r)" "length (index_row r) \<le> MAX_INDEX_LINE" "\<exists>v. runtime_row (index_row r) = Inr v"
    "parent_entry (index_row r) = (hex_key (record_key r), r, index_row r)"
    using written_row [OF short_row_indexable [OF assms] l] l by (simp_all add: index_row_def parent_entry_def)
qed

lemma index_rows_entries:
  "\<forall>(k, r) \<in> set cs. short_row r \<and> record_key r = k \<Longrightarrow>
    map parent_entry (index_rows cs) = map (\<lambda>(k, r). (hex_key k, r, index_row r)) cs"
  by (auto simp: index_rows_def short_row_reads)

lemma index_rows_map:
  assumes "\<forall>(k, r) \<in> set cs. short_row r \<and> record_key r = k"
  shows "index_map (index_rows cs) = map_of (hexed cs)"
proof
  have "map_option fst (map_of (map (\<lambda>(k, r). (hex_key k, r, index_row r)) cs) h) = map_of (hexed cs) h" for h
    by (induction cs) (auto simp: hexed_def)
  then show "index_map (index_rows cs) h = map_of (hexed cs) h" for h
    unfolding index_map_def parent_map_def index_rows_entries [OF assms] .
qed

lemma sealableE:
  assumes "sealable es t"
  obtains s1 s2 mi where "hot_scan es = Inr s1" "commands s1 = scanned es" "hot_scan t = Inr s2" "commands s2 = scanned t"
    "iter_lines (OSError []) (concat (index_rows (scanned es))) = (index_rows (scanned es), None)"
    "index_map (index_rows (scanned es)) = map_of (hexed (commands s1))"
    "rows_fit (commands s1) (rebase_commands (int (length es)) (commands s2))"
    "merged_tail es t = Inr mi"
proof -
  let ?ups = "rebase_commands (int (length es)) (scanned t)" and ?rows = "index_rows (scanned es)"
  obtain s1 s2 where s: "hot_scan es = Inr s1" "commands s1 = scanned es" "hot_scan t = Inr s2" "commands s2 = scanned t"
    using assms by (auto simp: sealable_def elim!: scansE)
  have old: "\<forall>(k, r) \<in> set (scanned es). short_row r \<and> record_key r = k"
    and upd: "\<forall>(k, u) \<in> set ?ups. short_row u \<and> short_row (case map_of (scanned es) k of None \<Rightarrow> u | Some p \<Rightarrow> merge_command_record p u)"
    and srt: "sorted_wrt (\<lambda>x y. hex_key (fst x) < hex_key (fst y)) (scanned es)"
    using assms by (auto simp: sealable_def list_all_iff)
  have rows: "\<forall>row \<in> set ?rows. line_ok row \<and> length row \<le> MAX_INDEX_LINE \<and> (\<exists>v. runtime_row row = Inr v)"
    using old short_row_reads by (auto simp: index_rows_def)
  have i: "iter_lines (OSError []) (concat ?rows) = (?rows, None)"
    using rows by (intro iter_lines_written) auto
  have f: "rows_fit (commands s1) (rebase_commands (int (length es)) (commands s2))"
    using upd unfolding rows_fit_def s by (auto intro: short_row_indexable)
  have ent: "parent_entry (index_row r) = (hex_key k, r, index_row r)" if "(k, r) \<in> set (scanned es)" for k r
    using that old short_row_reads(4) by fastforce
  have dist: "distinct (map fst (scanned es))"
    using command_inv [OF s(1)] unfolding s(2) by (simp add: command_inv_def)
  have "\<exists>out. merge_rows None ?rows None (hexed ?ups) = Inr out"
  proof (rule merge_rows_succeeds)
    show "\<forall>p \<in> set ?rows. \<exists>v. runtime_row p = Inr v" using rows by blast
    show "ssorted (fst \<circ> parent_entry) ?rows"
      unfolding ssorted_def index_rows_def sorted_wrt_map
      by (rule sorted_wrt_mono_rel [OF _ srt]) (auto simp: ent)
    show "\<forall>u \<in> set (hexed ?ups). \<exists>l. encode_update u = Inr l"
      using upd by (auto simp: hexed_def encode_update_def intro!: short_row_encodes)
    show "\<forall>p \<in> set ?rows. \<forall>u \<in> set (hexed ?ups). fst u = fst (parent_entry p) \<longrightarrow>
        (\<exists>l. runtime_index_line (merge_command_record (fst (snd (parent_entry p))) (snd u)) = Inr l)"
    proof (intro ballI impI)
      fix p u assume p: "p \<in> set ?rows" and u: "u \<in> set (hexed ?ups)" and e: "fst u = fst (parent_entry p)"
      from p obtain k r where r: "(k, r) \<in> set (scanned es)" "p = index_row r" by (auto simp: index_rows_def)
      obtain v where v: "(k, v) \<in> set ?ups" "snd u = v" using u e ent [OF r(1)] r(2) by (auto simp: hexed_def hex_key_inj)
      have "short_row (merge_command_record r v)" using upd v(1) map_of_is_SomeI [OF dist r(1)] by fastforce
      then show "\<exists>l. runtime_index_line (merge_command_record (fst (snd (parent_entry p))) (snd u)) = Inr l"
        using ent [OF r(1)] r(2) v(2) short_row_encodes by simp
    qed
  qed simp
  then obtain mi where "merged_tail es t = Inr mi"
    using assms unfolding i sealable_def by (auto simp: write_merged_indexes_def empty_send split: sum.splits)
  moreover have "index_map (index_rows (scanned es)) = map_of (hexed (commands s1))"
    unfolding s(2) by (rule index_rows_map [OF old])
  ultimately show thesis using that s i f by blast
qed

lemma samples_sealable:
  "sealable open_journal finishing_tail" "sealable open_journal resolving_tail" "sealable settled_journal reusing_tail"
  by code_simp+

lemma sample_keys:
  "distinct (map fst (rebase_commands 2 (scanned finishing_tail)))"
  "list_all (\<lambda>(k, r). record_key r = k) (rebase_commands 2 (scanned finishing_tail))"
  by code_simp+

theorem merged_command_index_witness:
  "\<exists>mi. merged_tail open_journal finishing_tail = Inr mi \<and>
    (\<exists>ps entries. iter_lines (OSError []) (concat (index_rows (scanned open_journal))) = (ps, None) \<and> length ps = 2 \<and>
      ssorted fst (entries :: (hkey \<times> string) list) \<and>
      mi_runtime mi = concat (map snd entries) \<and> mi_commands mi = length entries)"
proof -
  obtain mi where i: "iter_lines (OSError []) (concat (index_rows (scanned open_journal))) = (index_rows (scanned open_journal), None)"
    and mi: "merged_tail open_journal finishing_tail = Inr mi"
    using samples_sealable(1) by (rule sealableE)
  have d: "distinct (map fst (rebase_commands (int (length open_journal)) (scanned finishing_tail)))"
    using sample_keys(1) by (simp add: open_journal_def)
  have n: "length (index_rows (scanned open_journal)) = 2" by code_simp
  from merged_command_index [OF mi d] show ?thesis using mi n unfolding i by blast
qed

theorem merged_index_refines_witness:
  "\<exists>mi rows. merged_tail open_journal finishing_tail = Inr mi \<and>
    iter_lines (OSError []) (mi_runtime mi) = (rows, None) \<and> readable_rows rows \<and>
    index_map rows = merge_maps (map_of (hexed (scanned open_journal)))
      (map_of (map (\<lambda>(k, r). (hex_key k, r)) (rebase_commands 2 (scanned finishing_tail))))"
proof -
  let ?ups = "rebase_commands (int (length open_journal)) (scanned finishing_tail)"
  have n: "int (length open_journal) = 2" by (simp add: open_journal_def)
  obtain s1 s2 mi where s: "hot_scan open_journal = Inr s1" "commands s1 = scanned open_journal"
      "hot_scan finishing_tail = Inr s2" "commands s2 = scanned finishing_tail"
    and i: "iter_lines (OSError []) (concat (index_rows (scanned open_journal))) = (index_rows (scanned open_journal), None)"
      "index_map (index_rows (scanned open_journal)) = map_of (hexed (commands s1))"
    and f: "rows_fit (commands s1) (rebase_commands (int (length open_journal)) (commands s2))"
    and mi: "merged_tail open_journal finishing_tail = Inr mi"
    using samples_sealable(1) by (rule sealableE)
  have d: "distinct (map fst ?ups)" "\<forall>(k, r) \<in> set ?ups. record_key r = k"
    using sample_keys unfolding n list_all_iff by auto
  have "\<exists>ps rows. iter_lines (OSError []) (concat (index_rows (scanned open_journal))) = (ps, None) \<and>
      iter_lines (OSError []) (mi_runtime mi) = (rows, None) \<and> readable_rows rows \<and>
      index_map rows = merge_maps (index_map ps) (map_of (map (\<lambda>(k, r). (hex_key k, r)) ?ups))"
    by (rule merged_index_refines [OF mi d]) (use rows_fit_indexable [OF f [unfolded s] d(1)] i s in auto)
  then show ?thesis using mi i(2) unfolding i(1) n s(2) by auto
qed

theorem seal_index_is_projection_witness:
  "\<exists>mi st rows. merged_tail open_journal finishing_tail = Inr mi \<and>
    hot_scan (open_journal @ finishing_tail) = Inr st \<and> length (commands st) = 3 \<and>
    iter_lines (OSError []) (mi_runtime mi) = (rows, None) \<and> readable_rows rows \<and>
    index_map rows = map_of (hexed (commands st))"
proof -
  obtain s1 s2 mi where s: "hot_scan open_journal = Inr s1" "commands s1 = scanned open_journal"
      "hot_scan finishing_tail = Inr s2" "commands s2 = scanned finishing_tail"
    and i: "iter_lines (OSError []) (concat (index_rows (scanned open_journal))) = (index_rows (scanned open_journal), None)"
      "index_map (index_rows (scanned open_journal)) = map_of (hexed (commands s1))"
    and f: "rows_fit (commands s1) (rebase_commands (int (length open_journal)) (commands s2))"
    and mi: "merged_tail open_journal finishing_tail = Inr mi"
    using samples_sealable(1) by (rule sealableE)
  have "scans (open_journal @ finishing_tail)" by code_simp
  then obtain st where st: "hot_scan (open_journal @ finishing_tail) = Inr st"
    "commands st = scanned (open_journal @ finishing_tail)" by (rule scansE)
  have n: "length (scanned (open_journal @ finishing_tail)) = 3" by code_simp
  have "list_all (\<lambda>(k, p). op_stable (operation p) (command_events k finishing_tail)) (scanned open_journal)" by code_simp
  then have "\<forall>(k, p) \<in> set (commands s1). op_stable (operation p) (command_events k finishing_tail)"
    unfolding s(2) list_all_iff .
  then show ?thesis
    using seal_index_is_projection [OF s(1,3) st(1) i f mi [folded s(4)], where y = "OSError []"] mi st n by auto
qed

theorem merged_operation_diverges_witness:
  "\<exists>mi st rows r. merged_tail open_journal resolving_tail = Inr mi \<and>
    hot_scan (open_journal @ resolving_tail) = Inr st \<and> iter_lines (OSError []) (mi_runtime mi) = (rows, None) \<and>
    map_of (commands st) (''a'', ''s'', ''c2'') = Some r \<and> operation r = ''flatten'' \<and>
    index_map rows (hex_key (''a'', ''s'', ''c2'')) = Some (r\<lparr>operation := ''place''\<rparr>)"
proof -
  obtain s1 s2 mi where s: "hot_scan open_journal = Inr s1" "commands s1 = scanned open_journal"
      "hot_scan resolving_tail = Inr s2" "commands s2 = scanned resolving_tail"
    and i: "iter_lines (OSError []) (concat (index_rows (scanned open_journal))) = (index_rows (scanned open_journal), None)"
      "index_map (index_rows (scanned open_journal)) = map_of (hexed (commands s1))"
    and f: "rows_fit (commands s1) (rebase_commands (int (length open_journal)) (commands s2))"
    and mi: "merged_tail open_journal resolving_tail = Inr mi"
    using samples_sealable(2) by (rule sealableE)
  have "scans (open_journal @ resolving_tail)" by code_simp
  then obtain st where st: "hot_scan (open_journal @ resolving_tail) = Inr st" by (rule scansE)
  have "map_option operation (map_of (scanned open_journal) (''a'', ''s'', ''c2'')) = Some ''flatten''" by code_simp
  then obtain p where p: "map_of (commands s1) (''a'', ''s'', ''c2'') = Some p" "operation p = ''flatten''"
    unfolding s(2) by auto
  let ?ev = "index_event ''execution_command_resolved'' ''c2'' ''accepted'' ''h2''"
  have e: "?ev \<in> set resolving_tail" "key_of ?ev = (''a'', ''s'', ''c2'')" "ambiguous_kind ?ev"
    "\<forall>e \<in> set resolving_tail. key_of e = (''a'', ''s'', ''c2'') \<longrightarrow> \<not> names_operation e"
    by code_simp+
  show ?thesis
    using merged_operation_diverges [OF s(1,3) st i f mi [folded s(4)] p(1) _ e, where y = "OSError []"] p(2) mi st by auto
qed

theorem uncertain_hash_conflict_rejected_witness:
  "\<exists>s1. hot_scan open_journal = Inr s1 \<and>
    project_hot (hot_replay s1 open_journal @ reusing_tail) = Inl (GenerationError ''OMS_GENERATION_COMMAND_HASH_CONFLICT'')"
proof -
  have "scans open_journal" "scans reusing_tail" by code_simp+
  then obtain s1 s2 where s: "hot_scan open_journal = Inr s1" "commands s1 = scanned open_journal"
    "hot_scan reusing_tail = Inr s2" "commands s2 = scanned reusing_tail" by (auto elim!: scansE)
  have "map_option (\<lambda>p. (status p, request_hash p)) (map_of (scanned open_journal) (''a'', ''s'', ''c1'')) = Some (''uncertain'', ''h1'')"
    "map_option request_hash (map_of (scanned reusing_tail) (''a'', ''s'', ''c1'')) = Some ''h9''" by code_simp+
  then obtain p u where p: "map_of (commands s1) (''a'', ''s'', ''c1'') = Some p" "status p = ''uncertain''" "request_hash p = ''h1''"
    and u: "map_of (commands s2) (''a'', ''s'', ''c1'') = Some u" "request_hash u = ''h9''"
    unfolding s(2,4) by auto
  show ?thesis using uncertain_hash_conflict_rejected [OF s(1,3) p(1) u(1) p(2)] p u s(1) by simp
qed

theorem settled_hash_conflict_merged_witness:
  "\<exists>s1 sh mi rows r. hot_scan settled_journal = Inr s1 \<and> hot_scan (hot_replay s1 settled_journal @ reusing_tail) = Inr sh \<and>
    merged_tail settled_journal reusing_tail = Inr mi \<and> iter_lines (OSError []) (mi_runtime mi) = (rows, None) \<and>
    index_map rows (hex_key (''a'', ''s'', ''c1'')) = Some r \<and> request_hash r = ''h9'' \<and>
    hot_scan (settled_journal @ reusing_tail) = Inl (GenerationError ''OMS_GENERATION_COMMAND_HASH_CONFLICT'')"
proof -
  obtain s1 s2 mi where s: "hot_scan settled_journal = Inr s1" "commands s1 = scanned settled_journal"
      "hot_scan reusing_tail = Inr s2" "commands s2 = scanned reusing_tail"
    and i: "iter_lines (OSError []) (concat (index_rows (scanned settled_journal))) = (index_rows (scanned settled_journal), None)"
      "index_map (index_rows (scanned settled_journal)) = map_of (hexed (commands s1))"
    and f: "rows_fit (commands s1) (rebase_commands (int (length settled_journal)) (commands s2))"
    and mi: "merged_tail settled_journal reusing_tail = Inr mi"
    using samples_sealable(3) by (rule sealableE)
  have "case hot_scan settled_journal of Inr s \<Rightarrow> scans (hot_replay s settled_journal @ reusing_tail) | Inl _ \<Rightarrow> False" by code_simp
  then obtain sh where sh: "hot_scan (hot_replay s1 settled_journal @ reusing_tail) = Inr sh"
    unfolding s(1) sum.case by (rule scansE)
  have "map_option request_hash (map_of (scanned settled_journal) (''a'', ''s'', ''c1'')) = Some ''h1''"
    "map_option request_hash (map_of (scanned reusing_tail) (''a'', ''s'', ''c1'')) = Some ''h9''" by code_simp+
  then obtain p u where p: "map_of (commands s1) (''a'', ''s'', ''c1'') = Some p" "request_hash p = ''h1''"
    and u: "map_of (commands s2) (''a'', ''s'', ''c1'') = Some u" "request_hash u = ''h9''"
    unfolding s(2,4) by auto
  show ?thesis
    using settled_hash_conflict_merged [OF s(1,3) sh i f mi [folded s(4)] p(1) u(1), where y = "OSError []"] p u s(1) sh mi by auto
qed

end
