(* ===== verification/Simulator.thy ===== *)
theory Simulator
  imports Projection
begin

section \<open>The simulator checkpoint\<close>

text \<open>
  Model of \<open>_simulator_checkpoint_from_hot\<close>, \<open>_apply_simulator_events\<close> and
  \<open>_simulator_state_projection\<close> of \<open>hepta_oms_lifecycle.py\<close>: the economic state of the
  simulator venue (highest order id, admitted orders, signed positions) is folded over the events
  of a journal segment, written as checkpoint rows at the end of the hot replay, and restored from
  them by the next seal.

  The events have been validated (theory \<open>Journal\<close>): their string fields are strings, their
  quantities and prices convert to finite floats.
\<close>

subsection \<open>State and rows\<close>

record sim_state =
  present :: bool
  max_order_id :: int
  admitted_orders :: int
  positions :: "(string \<times> pyfloat) list"

definition SIMULATOR_STATE_META :: string where "SIMULATOR_STATE_META = ''simulator_state_checkpoint''"
definition SIMULATOR_STATE_POSITION :: string where "SIMULATOR_STATE_POSITION = ''simulator_position_checkpoint''"
definition SIMULATOR_STATE_READY :: string where "SIMULATOR_STATE_READY = ''simulator_state_checkpoint_ready''"

definition empty_simulator_state :: sim_state where
  "empty_simulator_state = \<lparr>present = False, max_order_id = 999999, admitted_orders = 0, positions = []\<rparr>"

definition sim_row :: "event \<Rightarrow> bool" where
  "sim_row ev \<longleftrightarrow> dict_get ev ''venue'' = Some (JStr ''SIMULATOR'') \<and> dict_get ev ''account'' = Some (JStr ''SIM'')"

text \<open>A quantity or price: a number, not a \<open>bool\<close>, finite and positive.\<close>

definition positive_number :: "json \<Rightarrow> pyfloat option res" where
  "positive_number j =
     (case j of
        JInt _ \<Rightarrow> bind_res (to_float j) (\<lambda>x. Inr (if fl_isfinite x \<and> fl_less fl_zero x then Some x else None))
      | JFloat _ \<Rightarrow> bind_res (to_float j) (\<lambda>x. Inr (if fl_isfinite x \<and> fl_less fl_zero x then Some x else None))
      | _ \<Rightarrow> Inr None)"

definition signed :: "string \<Rightarrow> pyfloat \<Rightarrow> pyfloat" where
  "signed side q = (if side = ''BUY'' then q else fl_neg q)"

subsection \<open>Restoring the state from the hot replay\<close>

definition checkpoint_error :: "'a res" where
  "checkpoint_error = Inl (GenerationError ''OMS_SIMULATOR_CHECKPOINT_INVALID'')"

text \<open>The loop state: the state under construction and whether it is complete.\<close>

type_synonym restore = "sim_state option \<times> bool"

definition restore_step :: "restore \<Rightarrow> event \<Rightarrow> restore res" where
  "restore_step s ev =
     (let kind = event_kind ev; (state, ready) = s in
      if kind = SIMULATOR_STATE_META then
        if state \<noteq> None \<or> ready \<or> \<not> sim_row ev then checkpoint_error
        else
          (case (get_default ev ''order_id'' (JInt (- 1)), get_default ev ''broker_request_id'' (JInt (- 1))) of
             (JInt maximum, JInt admitted) \<Rightarrow>
               if maximum < 999999 \<or> admitted < 0 then checkpoint_error
               else Inr (Some \<lparr>present = True, max_order_id = maximum, admitted_orders = admitted, positions = []\<rparr>, ready)
           | _ \<Rightarrow> checkpoint_error)
      else if kind = SIMULATOR_STATE_POSITION then
        (case state of
           None \<Rightarrow> checkpoint_error
         | Some st \<Rightarrow>
             if ready \<or> \<not> sim_row ev then checkpoint_error
             else
               let instrument = str_field ev ''instrument''; side = str_field ev ''side'' in
               if instrument = [] \<or> map_of (positions st) instrument \<noteq> None \<or> side \<notin> {''BUY'', ''SELL''}
               then checkpoint_error
               else bind_res (positive_number (get_default ev ''qty'' (JFloat fl_zero))) (\<lambda>q.
                 case q of
                   None \<Rightarrow> checkpoint_error
                 | Some x \<Rightarrow>
                     Inr (Some (st\<lparr>positions := positions st @ [(instrument, signed side x)]\<rparr>), ready)))
      else if kind = SIMULATOR_STATE_READY then
        (case state of
           None \<Rightarrow> checkpoint_error
         | Some st \<Rightarrow>
             if ready \<or> \<not> sim_row ev then checkpoint_error
             else if dict_get ev ''order_id'' \<noteq> Some (JInt (max_order_id st)) \<or>
                 dict_get ev ''broker_request_id'' \<noteq> Some (JInt (admitted_orders st))
             then checkpoint_error
             else Inr (state, True))
      else Inr s)"

definition simulator_checkpoint_from_hot :: "event list \<Rightarrow> sim_state option res" where
  "simulator_checkpoint_from_hot events =
     bind_res (fold_res restore_step (None, False) events) (\<lambda>(state, ready).
     Inr (if ready then state else None))"

subsection \<open>Applying the events of a segment\<close>

record sim_run =
  run_state :: sim_state
  places :: "(int \<times> event) list"
  fills :: "(int \<times> event) list"

definition is_fill :: "event \<Rightarrow> bool" where
  "is_fill ev \<longleftrightarrow> event_kind ev = ''status'' \<and> str_field ev ''status'' = ''Filled''"

definition fl_field :: "event \<Rightarrow> string \<Rightarrow> pyfloat res" where
  "fl_field ev k = to_float (get_default ev k (JFloat fl_zero))"

text \<open>Equality of two float fields, as the tuples of the source compare them.\<close>

definition same_float :: "event \<Rightarrow> event \<Rightarrow> string \<Rightarrow> bool res" where
  "same_float ev prior k = bind_res (fl_field prior k) (\<lambda>y. bind_res (fl_field ev k) (\<lambda>x. Inr (fl_eq x y)))"

definition same_field :: "event \<Rightarrow> event \<Rightarrow> string \<Rightarrow> bool" where
  "same_field ev prior k \<longleftrightarrow> dict_get ev k = dict_get prior k"

definition sim_error :: "string \<Rightarrow> 'a res" where
  "sim_error m = Inl (GenerationError m)"

definition apply_place :: "bool \<Rightarrow> int \<Rightarrow> int \<Rightarrow> event \<Rightarrow> sim_run \<Rightarrow> sim_run res" where
  "apply_place require_new base_maximum oid ev run =
     (case map_of (places run) oid of
        Some prior \<Rightarrow>
          bind_res (same_float ev prior ''qty'') (\<lambda>same.
          if same_field ev prior ''instrument'' \<and> same_field ev prior ''side'' \<and> same \<and>
              same_field ev prior ''req_id'' \<and> same_field ev prior ''request_hash''
          then Inr run
          else sim_error ''OMS_SIMULATOR_STATE_PLACE_CONFLICT'')
      | None \<Rightarrow>
          if require_new \<and> oid \<le> base_maximum then sim_error ''OMS_SIMULATOR_STATE_ORDER_ID_REGRESSION''
          else Inr (run\<lparr>places := AList.update oid ev (places run),
                  run_state := (run_state run)\<lparr>admitted_orders := admitted_orders (run_state run) + 1\<rparr>\<rparr>))"

definition add_position :: "string \<Rightarrow> pyfloat \<Rightarrow> sim_state \<Rightarrow> sim_state res" where
  "add_position instrument q st =
     (let old = (case map_of (positions st) instrument of None \<Rightarrow> fl_zero | Some x \<Rightarrow> x); new = fl_add old q in
      if fl_isfinite new then Inr (st\<lparr>positions := AList.update instrument new (positions st)\<rparr>)
      else sim_error ''OMS_SIMULATOR_STATE_POSITION_OVERFLOW'')"

definition apply_fill :: "int \<Rightarrow> pyfloat \<Rightarrow> event \<Rightarrow> sim_run \<Rightarrow> sim_run res" where
  "apply_fill oid quantity ev run =
     (case map_of (places run) oid of
        None \<Rightarrow> sim_error ''OMS_SIMULATOR_STATE_FILL_CONFLICT''
      | Some owner \<Rightarrow>
          bind_res (positive_number (get_default ev ''price'' (JFloat fl_zero))) (\<lambda>price.
          bind_res (same_float ev owner ''qty'') (\<lambda>same.
          if price = None \<or> \<not> same_field ev owner ''instrument'' \<or> \<not> same_field ev owner ''side'' \<or> \<not> same
          then sim_error ''OMS_SIMULATOR_STATE_FILL_CONFLICT''
          else
            case map_of (fills run) oid of
              Some prior \<Rightarrow>
                bind_res (same_float ev prior ''qty'') (\<lambda>sq. bind_res (same_float ev prior ''price'') (\<lambda>sp.
                if same_field ev prior ''instrument'' \<and> same_field ev prior ''side'' \<and> sq \<and> sp then Inr run
                else sim_error ''OMS_SIMULATOR_STATE_FILL_CONFLICT''))
            | None \<Rightarrow>
                bind_res (add_position (str_field ev ''instrument'') (signed (str_field ev ''side'') quantity)
                  (run_state run)) (\<lambda>st.
                Inr (run\<lparr>fills := AList.update oid ev (fills run), run_state := st\<rparr>)))))"

definition sim_step :: "bool \<Rightarrow> int \<Rightarrow> sim_run \<Rightarrow> event \<Rightarrow> sim_run res" where
  "sim_step require_new base_maximum run0 ev =
     (if \<not> sim_row ev \<or> event_kind ev \<noteq> ''place_sent'' \<and> \<not> is_fill ev then Inr run0
      else
        let oid = get_default ev ''order_id'' (JInt (- 1));
            st0 = (run_state run0)\<lparr>present := True\<rparr>;
            st1 = (case oid of JInt i \<Rightarrow> st0\<lparr>max_order_id := max (max_order_id st0) i\<rparr> | _ \<Rightarrow> st0);
            run1 = run0\<lparr>run_state := st1\<rparr>
        in
        (case oid of
           JInt i \<Rightarrow>
             if i < 0 \<or> str_field ev ''instrument'' = [] \<or> str_field ev ''side'' \<notin> {''BUY'', ''SELL''}
             then sim_error ''OMS_SIMULATOR_STATE_EVENT_INVALID''
             else bind_res (positive_number (get_default ev ''qty'' (JFloat fl_zero))) (\<lambda>q.
               case q of
                 None \<Rightarrow> sim_error ''OMS_SIMULATOR_STATE_EVENT_INVALID''
               | Some quantity \<Rightarrow>
                   if event_kind ev = ''place_sent'' then apply_place require_new base_maximum i ev run1
                   else apply_fill i quantity ev run1)
         | _ \<Rightarrow> sim_error ''OMS_SIMULATOR_STATE_EVENT_INVALID''))"

definition apply_simulator_events :: "sim_state \<Rightarrow> event list \<Rightarrow> bool \<Rightarrow> sim_state res" where
  "apply_simulator_events state events require_new =
     bind_res (fold_res (sim_step require_new (max_order_id state))
       \<lparr>run_state = state, places = [], fills = []\<rparr> events) (\<lambda>run. Inr (run_state run))"

subsection \<open>Writing the checkpoint rows\<close>

definition base_row :: "string \<Rightarrow> event" where
  "base_row kind =
     [(''schema_version'', JInt 4), (''event'', JStr kind), (''ts_ms'', JInt 0), (''order_id'', JInt (- 1)),
      (''req_id'', JStr []), (''client_req_id'', JStr []), (''trace_id'', JStr []),
      (''event_id'', JStr (kind @ '':v1'')), (''risk_code'', JStr []), (''venue'', JStr ''SIMULATOR''),
      (''strategy'', JStr []), (''account'', JStr ''SIM''), (''execution_domain'', JStr ''SIM:checkpoint''),
      (''request_hash'', JStr []), (''venue_correlation_id'', JStr []), (''broker_callback_type'', JStr []),
      (''broker_service_epoch'', JStr []), (''broker_connection_epoch'', JInt 0),
      (''broker_request_id'', JInt 0), (''broker_error_code'', JInt 0), (''broker_message'', JStr []),
      (''broker_advanced_order_reject_json'', JStr []), (''broker_why_held'', JStr []),
      (''broker_execution_id'', JStr []), (''broker_remaining_quantity'', JFloat fl_zero),
      (''broker_market_cap_price'', JFloat fl_zero), (''instrument'', JStr []), (''side'', JStr []),
      (''qty'', JFloat fl_zero), (''price'', JFloat fl_zero), (''status'', JStr []), (''reason'', JStr []),
      (''source'', JStr [])]"

definition marker_row :: "string \<Rightarrow> sim_state \<Rightarrow> event" where
  "marker_row kind st =
     dict_set ''status'' (JStr ''complete'') (dict_set ''broker_request_id'' (JInt (admitted_orders st))
       (dict_set ''order_id'' (JInt (max_order_id st)) (base_row kind)))"

definition position_row :: "string \<Rightarrow> pyfloat \<Rightarrow> event" where
  "position_row instrument x =
     dict_set ''status'' (JStr ''complete'') (dict_set ''qty'' (JFloat (fl_abs x))
       (dict_set ''side'' (JStr (if fl_less fl_zero x then ''BUY'' else ''SELL''))
         (dict_set ''instrument'' (JStr instrument)
           (dict_set ''event_id'' (JStr (SIMULATOR_STATE_POSITION @ '':'' @ instrument))
             (base_row SIMULATOR_STATE_POSITION)))))"

definition position_rows :: "(string \<times> pyfloat) list \<Rightarrow> event list res" where
  "position_rows ps =
     fold_res (\<lambda>out (instrument, x).
       if \<not> fl_isfinite x then sim_error ''OMS_SIMULATOR_STATE_POSITION_OVERFLOW''
       else if fl_eq x fl_zero then Inr out
       else Inr (out @ [position_row instrument x])) [] ps"

definition simulator_state_projection :: "sim_state \<Rightarrow> event list res" where
  "simulator_state_projection st =
     (if \<not> present st then Inr []
      else bind_res (position_rows (sort_key fst (positions st))) (\<lambda>rows.
        Inr (marker_row SIMULATOR_STATE_META st # rows @ [marker_row SIMULATOR_STATE_READY st])))"

subsection \<open>The checkpoint round trip\<close>

definition valid_sim :: "sim_state \<Rightarrow> bool" where
  "valid_sim st \<longleftrightarrow> 999999 \<le> max_order_id st \<and> 0 \<le> admitted_orders st \<and> distinct (map fst (positions st)) \<and>
     (\<forall>p \<in> set (positions st). fst p \<noteq> [] \<and> fl_isfinite (snd p))"

text \<open>The positions a checkpoint keeps: sorted, the flat ones dropped.\<close>

definition open_positions :: "(string \<times> pyfloat) list \<Rightarrow> (string \<times> pyfloat) list" where
  "open_positions ps = filter (\<lambda>p. \<not> fl_eq (snd p) fl_zero) ps"

definition reduced :: "sim_state \<Rightarrow> sim_state" where
  "reduced st = st\<lparr>positions := open_positions (sort_key fst (positions st))\<rparr>"

lemma pow2_pos: "0 < pow2 k"
  by (simp add: pow2_def)

lemma mag_val_0 [simp]: "mag_val 0 e = 0"
  by (simp add: mag_val_def)

lemma mag_val_pos: "0 < mag_val m e \<longleftrightarrow> 0 < m" "mag_val m e = 0 \<longleftrightarrow> m = 0"
  using pow2_pos [of e] by (auto simp: mag_val_def zero_less_mult_iff)

lemma signed_abs:
  assumes "fl_isfinite x" and "\<not> fl_eq x fl_zero"
  shows "signed (if fl_less fl_zero x then ''BUY'' else ''SELL'') (fl_abs x) = x"
    and "positive_number (JFloat (fl_abs x)) = Inr (Some (fl_abs x))"
proof -
  obtain s m e where x: "x = Finite s m e" using assms(1) by (cases x) auto
  have m: "0 < m"
    using assms(2) by (cases "m = 0") (auto simp: x fl_zero_def split: if_splits)
  then have "fl_less fl_zero x \<longleftrightarrow> \<not> s" using mag_val_pos(1) [of m e]
    by (auto simp: x fl_zero_def mag_val_0)
  then show "signed (if fl_less fl_zero x then ''BUY'' else ''SELL'') (fl_abs x) = x"
    by (simp add: signed_def x)
  show "positive_number (JFloat (fl_abs x)) = Inr (Some (fl_abs x))"
    using m by (simp add: positive_number_def x fl_zero_def mag_val_pos mag_val_0)
qed

lemma get_set [simp]:
  "dict_get (dict_set k v d) k = Some v" "k \<noteq> k' \<Longrightarrow> dict_get (dict_set k v d) k' = dict_get d k'"
  by (simp_all add: update_conv')

lemma base_row_fields:
  "str_field (base_row kind) ''event'' = kind" "dict_get (base_row kind) ''venue'' = Some (JStr ''SIMULATOR'')"
  "dict_get (base_row kind) ''account'' = Some (JStr ''SIM'')"
  by (simp_all add: base_row_def str_field_def)

lemma marker_row_fields:
  "event_kind (marker_row kind st) = kind" "sim_row (marker_row kind st)"
  "dict_get (marker_row kind st) ''order_id'' = Some (JInt (max_order_id st))"
  "dict_get (marker_row kind st) ''broker_request_id'' = Some (JInt (admitted_orders st))"
  by (simp_all add: marker_row_def event_kind_def sim_row_def base_row_fields)

lemma position_row_fields:
  "event_kind (position_row i x) = SIMULATOR_STATE_POSITION" "sim_row (position_row i x)"
  "str_field (position_row i x) ''instrument'' = i"
  "str_field (position_row i x) ''side'' = (if fl_less fl_zero x then ''BUY'' else ''SELL'')"
  "dict_get (position_row i x) ''qty'' = Some (JFloat (fl_abs x))"
  by (simp_all add: position_row_def event_kind_def sim_row_def base_row_fields)

lemmas row_kinds = SIMULATOR_STATE_META_def SIMULATOR_STATE_POSITION_def SIMULATOR_STATE_READY_def

lemma position_rows_ok:
  assumes "\<forall>p \<in> set ps. fl_isfinite (snd p)"
  shows "position_rows ps = Inr (map (\<lambda>p. position_row (fst p) (snd p)) (open_positions ps))"
proof -
  have "fold_res (\<lambda>out (instrument, x).
       if \<not> fl_isfinite x then sim_error ''OMS_SIMULATOR_STATE_POSITION_OVERFLOW''
       else if fl_eq x fl_zero then Inr out
       else Inr (out @ [position_row instrument x])) acc ps =
     Inr (acc @ map (\<lambda>p. position_row (fst p) (snd p)) (open_positions ps))" for acc
    using assms by (induction ps arbitrary: acc) (auto simp: open_positions_def)
  then show ?thesis by (simp add: position_rows_def)
qed

lemma restore_positions:
  assumes "\<forall>p \<in> set ps. fst p \<noteq> [] \<and> fl_isfinite (snd p) \<and> \<not> fl_eq (snd p) fl_zero"
    and "distinct (map fst (positions st @ ps))"
  shows "fold_res restore_step (Some st, False) (map (\<lambda>p. position_row (fst p) (snd p)) ps) =
    Inr (Some (st\<lparr>positions := positions st @ ps\<rparr>), False)"
  using assms
proof (induction ps arbitrary: st)
  case (Cons p ps)
  obtain i x where p: "p = (i, x)" by (cases p)
  have x: "fl_isfinite x" "\<not> fl_eq x fl_zero" "i \<noteq> []" using Cons.prems(1) p by auto
  have new: "map_of (positions st) i = None" using Cons.prems(2) p by (auto simp: map_of_eq_None_iff)
  define side where "side = (if fl_less fl_zero x then ''BUY'' else ''SELL'')"
  have "restore_step (Some st, False) (position_row i x) =
      Inr (Some (st\<lparr>positions := positions st @ [(i, signed side (fl_abs x))]\<rparr>), False)"
    using x(3) new signed_abs(2) [OF x(1,2)]
    by (simp add: restore_step_def position_row_fields row_kinds get_default_def side_def)
  then have "restore_step (Some st, False) (position_row i x) =
      Inr (Some (st\<lparr>positions := positions st @ [(i, x)]\<rparr>), False)"
    using signed_abs(1) [OF x(1,2)] by (simp add: side_def)
  then show ?case using Cons.IH [of "st\<lparr>positions := positions st @ [(i, x)]\<rparr>"] Cons.prems p by simp
qed simp

lemma restore_other:
  assumes "\<forall>ev \<in> set hot. event_kind ev \<notin> {SIMULATOR_STATE_META, SIMULATOR_STATE_POSITION, SIMULATOR_STATE_READY}"
  shows "fold_res restore_step s hot = Inr s"
  using assms by (induction hot) (auto simp: restore_step_def Let_def split: prod.splits)

text \<open>C18. The simulator checkpoint round trip: the rows a seal appends to its hot replay are read
back by the next seal as the same state, whatever ordinary events come before them; flat positions
are dropped and the rest sorted.\<close>

theorem simulator_checkpoint_roundtrip:
  assumes "present st" and "valid_sim st"
    and "\<forall>ev \<in> set hot. event_kind ev \<notin> {SIMULATOR_STATE_META, SIMULATOR_STATE_POSITION, SIMULATOR_STATE_READY}"
  shows "\<exists>rows. simulator_state_projection st = Inr rows \<and>
    simulator_checkpoint_from_hot (hot @ rows) = Inr (Some (reduced st))"
proof -
  define ps where "ps = open_positions (sort_key fst (positions st))"
  have fin: "\<forall>p \<in> set (sort_key fst (positions st)). fl_isfinite (snd p)" using assms(2) by (simp add: valid_sim_def)
  define rows where "rows = marker_row SIMULATOR_STATE_META st # map (\<lambda>p. position_row (fst p) (snd p)) ps @
    [marker_row SIMULATOR_STATE_READY st]"
  have proj: "simulator_state_projection st = Inr rows"
    using assms(1) position_rows_ok [OF fin] by (simp add: simulator_state_projection_def rows_def ps_def)
  define st0 where "st0 = \<lparr>present = True, max_order_id = max_order_id st, admitted_orders = admitted_orders st, positions = []\<rparr>"
  have meta: "restore_step (None, False) (marker_row SIMULATOR_STATE_META st) = Inr (Some st0, False)"
    using assms(2) by (simp add: restore_step_def marker_row_fields row_kinds get_default_def st0_def valid_sim_def)
  have "distinct (map fst (sort_key fst (positions st)))"
  proof -
    have "mset (map fst (sort_key fst (positions st))) = mset (map fst (positions st))" by simp
    from mset_eq_imp_distinct_iff [OF this] show ?thesis using assms(2) by (simp add: valid_sim_def)
  qed
  then have "distinct (map fst ps)" unfolding ps_def open_positions_def by (rule distinct_map_filter)
  moreover have ok: "\<forall>p \<in> set ps. fst p \<noteq> [] \<and> fl_isfinite (snd p) \<and> \<not> fl_eq (snd p) fl_zero"
    using assms(2) by (auto simp: ps_def open_positions_def valid_sim_def)
  ultimately have pos: "fold_res restore_step (Some st0, False) (map (\<lambda>p. position_row (fst p) (snd p)) ps) =
      Inr (Some (st0\<lparr>positions := ps\<rparr>), False)"
    using restore_positions [OF ok, of st0] by (simp add: st0_def)
  have ready: "restore_step (Some (st0\<lparr>positions := ps\<rparr>), False) (marker_row SIMULATOR_STATE_READY st) =
      Inr (Some (st0\<lparr>positions := ps\<rparr>), True)"
    by (simp add: restore_step_def marker_row_fields row_kinds st0_def)
  have "reduced st = st0\<lparr>positions := ps\<rparr>"
    using assms(1) by (simp add: reduced_def st0_def ps_def)
  then have "simulator_checkpoint_from_hot (hot @ rows) = Inr (Some (reduced st))"
    using restore_other [OF assms(3)] meta pos ready
    by (simp add: simulator_checkpoint_from_hot_def rows_def fold_res_append)
  with proj show ?thesis by blast
qed

definition sample_sim :: sim_state where
  "sample_sim = \<lparr>present = True, max_order_id = 1000003, admitted_orders = 4,
     positions = [(''XAU'', Finite True 3 0), (''EUR'', fl_zero), (''BTC'', Finite False 1 2)]\<rparr>"

theorem simulator_checkpoint_roundtrip_witness:
  "present sample_sim \<and> valid_sim sample_sim \<and>
   (\<exists>rows. simulator_state_projection sample_sim = Inr rows \<and>
     simulator_checkpoint_from_hot rows = Inr (Some (reduced sample_sim)))"
proof -
  have p: "present sample_sim" "valid_sim sample_sim"
    by (simp_all add: sample_sim_def valid_sim_def fl_zero_def)
  show ?thesis using simulator_checkpoint_roundtrip [OF p, of "[]"] p by simp
qed

subsection \<open>Invariants of the simulator state\<close>

definition sim_grows :: "sim_state \<Rightarrow> sim_state \<Rightarrow> bool" where
  "sim_grows st st' \<longleftrightarrow> valid_sim st' \<and> max_order_id st \<le> max_order_id st' \<and> admitted_orders st \<le> admitted_orders st'"

lemma set_update_subset: "set (AList.update k v al) \<subseteq> insert (k, v) (set al)"
  by (induction al) auto

lemma add_position_valid:
  assumes "valid_sim st" and "add_position i q st = Inr st'" and "i \<noteq> []"
  shows "sim_grows st st'"
proof -
  obtain new where new: "fl_isfinite new" "st' = st\<lparr>positions := AList.update i new (positions st)\<rparr>"
    using assms(2) by (auto simp: add_position_def sim_error_def Let_def split: if_splits)
  have "fst p \<noteq> [] \<and> fl_isfinite (snd p)" if "p \<in> set (AList.update i new (positions st))" for p
    using that assms(1,3) new(1) set_update_subset [of i new "positions st"] by (auto simp: valid_sim_def)
  then show ?thesis using assms(1) new(2) by (auto simp: sim_grows_def valid_sim_def distinct_update)
qed

lemma sim_grows_trans: "sim_grows a b \<Longrightarrow> sim_grows b c \<Longrightarrow> sim_grows a c"
  by (simp add: sim_grows_def)

lemma apply_place_valid:
  assumes "valid_sim (run_state run)" and "apply_place r b oid ev run = Inr run'"
  shows "sim_grows (run_state run) (run_state run')"
  using assms
  by (auto simp: apply_place_def sim_error_def bind_res_Inr_iff sim_grows_def valid_sim_def split: option.splits if_splits)

lemma apply_fill_valid:
  assumes "valid_sim (run_state run)" and "apply_fill oid q ev run = Inr run'" and "str_field ev ''instrument'' \<noteq> []"
  shows "sim_grows (run_state run) (run_state run')"
proof -
  consider "run' = run" | st where "run_state run' = st"
      "add_position (str_field ev ''instrument'') (signed (str_field ev ''side'') q) (run_state run) = Inr st"
    using assms(2)
    by (auto simp: apply_fill_def sim_error_def bind_res_Inr_iff split: option.splits if_splits)
  then show ?thesis
  proof cases
    case 1
    then show ?thesis using assms(1) by (simp add: sim_grows_def)
  next
    case 2
    then show ?thesis using add_position_valid [OF assms(1) _ assms(3)] by blast
  qed
qed

lemma sim_step_valid:
  assumes v: "valid_sim (run_state run)" and s: "sim_step r b run ev = Inr run'"
  shows "sim_grows (run_state run) (run_state run')"
proof (cases "\<not> sim_row ev \<or> event_kind ev \<noteq> ''place_sent'' \<and> \<not> is_fill ev")
  case True
  then show ?thesis using v s by (auto simp: sim_step_def sim_grows_def)
next
  case False
  obtain i q where i: "get_default ev ''order_id'' (JInt (- 1)) = JInt i" and ins: "str_field ev ''instrument'' \<noteq> []"
    and q: "positive_number (get_default ev ''qty'' (JFloat fl_zero)) = Inr (Some q)"
    using s False by (auto simp: sim_step_def sim_error_def bind_res_Inr_iff Let_def split: json.splits if_splits option.splits)
  define run1 where "run1 = run\<lparr>run_state := (run_state run)\<lparr>present := True, max_order_id := max (max_order_id (run_state run)) i\<rparr>\<rparr>"
  have g: "sim_grows (run_state run) (run_state run1)" and v1: "valid_sim (run_state run1)"
    using v by (auto simp: run1_def sim_grows_def valid_sim_def)
  have "(if event_kind ev = ''place_sent'' then apply_place r b i ev run1 else apply_fill i q ev run1) = Inr run'"
    using s False i ins q by (auto simp: sim_step_def sim_error_def Let_def run1_def split: if_splits)
  then have "sim_grows (run_state run1) (run_state run')"
    using apply_place_valid [OF v1] apply_fill_valid [OF v1 _ ins] by (auto split: if_splits)
  then show ?thesis by (rule sim_grows_trans [OF g])
qed

text \<open>C19. Applying the events of a segment keeps the simulator state well formed: positions stay
finite with one entry per instrument, and the highest order id and the count of admitted orders
never decrease.\<close>

theorem simulator_state_invariant:
  assumes "valid_sim st" and "apply_simulator_events st events require_new = Inr st'"
  shows "valid_sim st' \<and> max_order_id st \<le> max_order_id st' \<and> admitted_orders st \<le> admitted_orders st'"
proof -
  define r0 where "r0 = \<lparr>run_state = st, places = [], fills = []\<rparr>"
  obtain run where run: "fold_res (sim_step require_new (max_order_id st)) r0 events = Inr run" "st' = run_state run"
    using assms(2) by (auto simp: apply_simulator_events_def bind_res_Inr_iff r0_def)
  have "sim_grows st (run_state run)"
  proof (rule fold_res_invariant [OF run(1), where I = "\<lambda>r. sim_grows st (run_state r)"])
    show "sim_grows st (run_state r0)" using assms(1) by (simp add: r0_def sim_grows_def)
    show "sim_grows st (run_state s')" if "sim_step require_new (max_order_id st) s ev = Inr s'" "sim_grows st (run_state s)"
      for s ev s'
      by (rule sim_grows_trans [OF that(2) sim_step_valid [OF _ that(1)]]) (use that(2) in \<open>simp add: sim_grows_def\<close>)
  qed
  then show ?thesis using run(2) by (simp add: sim_grows_def)
qed

text \<open>An order for 1.0 EUR that is placed and then filled.\<close>

definition sample_order :: "string \<Rightarrow> string \<Rightarrow> int \<Rightarrow> event" where
  "sample_order kind state i = [(''event'', JStr kind), (''status'', JStr state), (''venue'', JStr ''SIMULATOR''),
     (''account'', JStr ''SIM''), (''order_id'', JInt i), (''instrument'', JStr ''EUR''), (''side'', JStr ''BUY''),
     (''qty'', JFloat (Finite False 4503599627370496 (- 52))), (''price'', JFloat (Finite False 4503599627370496 (- 52)))]"

definition sample_segment :: "event list" where
  "sample_segment = [sample_order ''place_sent'' ''accepted'' 1000004, sample_order ''status'' ''Filled'' 1000004,
     sample_order ''place_sent'' ''accepted'' 1000005, sample_order ''status'' ''Filled'' 1000004]"

lemma sample_order_simps:
  "sim_row (sample_order k s i)" "event_kind (sample_order k s i) = k" "is_fill (sample_order k s i) \<longleftrightarrow> k = ''status'' \<and> s = ''Filled''"
  "get_default (sample_order k s i) ''order_id'' j = JInt i" "str_field (sample_order k s i) ''instrument'' = ''EUR''"
  "str_field (sample_order k s i) ''side'' = ''BUY''"
  "positive_number (get_default (sample_order k s i) ''qty'' (JFloat fl_zero)) = Inr (Some (Finite False 4503599627370496 (- 52)))"
  "positive_number (get_default (sample_order k s i) ''price'' (JFloat fl_zero)) = Inr (Some (Finite False 4503599627370496 (- 52)))"
  "same_float (sample_order k s i) (sample_order k' s' i') ''qty'' = Inr True"
  "same_float (sample_order k s i) (sample_order k' s' i') ''price'' = Inr True"
  "same_field (sample_order k s i) (sample_order k' s' i') ''instrument''" "same_field (sample_order k s i) (sample_order k' s' i') ''side''"
  by (simp_all add: sample_order_def sim_row_def event_kind_def is_fill_def str_field_def get_default_def positive_number_def
      same_float_def same_field_def fl_field_def fl_zero_def mag_val_def pow2_def)

lemma sample_segment_applied:
  "apply_simulator_events sample_sim sample_segment True = Inr \<lparr>present = True, max_order_id = 1000005, admitted_orders = 6,
     positions = [(''XAU'', Finite True 3 0), (''EUR'', Finite False 4503599627370496 (- 52)), (''BTC'', Finite False 1 2)]\<rparr>"
proof -
  have "fl_add fl_zero (Finite False 4503599627370496 (- 52)) = Finite False 4503599627370496 (- 52)"
    by (simp add: fl_zero_def mag_val_def pow2_def fl_round_def round_mag_def ilog2_def round_half_even_def bitlen_def
        compute_floorlog)
  then show ?thesis
    by (simp add: apply_simulator_events_def sample_segment_def sim_step_def sample_order_simps apply_place_def apply_fill_def
        add_position_def signed_def sample_sim_def)
qed

theorem simulator_state_invariant_witness:
  "valid_sim sample_sim \<and>
   (\<exists>st'. apply_simulator_events sample_sim sample_segment True = Inr st' \<and> valid_sim st' \<and>
      max_order_id sample_sim < max_order_id st' \<and> admitted_orders sample_sim < admitted_orders st' \<and>
      map_of (positions st') ''EUR'' \<noteq> map_of (positions sample_sim) ''EUR'')"
proof -
  have v: "valid_sim sample_sim" by (simp add: sample_sim_def valid_sim_def fl_zero_def)
  show ?thesis using simulator_state_invariant [OF v sample_segment_applied] v sample_segment_applied
    by (auto simp: sample_sim_def fl_zero_def)
qed

subsection \<open>Fills of orders the segment did not place\<close>

definition places_order :: "int \<Rightarrow> event \<Rightarrow> bool" where
  "places_order i ev \<longleftrightarrow> sim_row ev \<and> event_kind ev = ''place_sent'' \<and> get_default ev ''order_id'' (JInt (- 1)) = JInt i"

lemma apply_place_places:
  "apply_place r b j ev run = Inr run' \<Longrightarrow> j \<noteq> i \<Longrightarrow> map_of (places run') i = map_of (places run) i"
  by (auto simp: apply_place_def sim_error_def bind_res_Inr_iff update_conv' split: option.splits if_splits)

lemma apply_fill_places: "apply_fill j q ev run = Inr run' \<Longrightarrow> places run' = places run"
  by (auto simp: apply_fill_def sim_error_def bind_res_Inr_iff split: option.splits if_splits)

lemma sim_step_places:
  assumes s: "sim_step r b run ev = Inr run'" and p: "\<not> places_order i ev"
  shows "map_of (places run') i = map_of (places run) i"
proof (cases "\<not> sim_row ev \<or> event_kind ev \<noteq> ''place_sent'' \<and> \<not> is_fill ev")
  case True
  then show ?thesis using s by (auto simp: sim_step_def)
next
  case False
  obtain j q run1 where j: "get_default ev ''order_id'' (JInt (- 1)) = JInt j" and run1: "places run1 = places run"
    and d: "(if event_kind ev = ''place_sent'' then apply_place r b j ev run1 else apply_fill j q ev run1) = Inr run'"
    using s False by (fastforce simp: sim_step_def sim_error_def bind_res_Inr_iff Let_def split: json.splits if_splits option.splits)
  show ?thesis
  proof (cases "event_kind ev = ''place_sent''")
    case True
    then have "j \<noteq> i" using p j False by (auto simp: places_order_def)
    then show ?thesis using apply_place_places [of r b j ev run1 run'] d True run1 by simp
  next
    case False
    then show ?thesis using apply_fill_places [of j q ev run1 run'] d run1 by simp
  qed
qed

text \<open>C20. A fill is accepted only after a placement of its order in the same segment: wherever a
well-formed fill of an order stands in a segment, if no event before it placed the order, the
segment is rejected, as a fill conflict unless an earlier event is rejected already; so in every
state, whatever other orders were placed and filled before and whatever follows.\<close>

theorem orphan_fill_rejected:
  assumes "\<forall>e \<in> set earlier. \<not> places_order i e"
    and "sim_row ev" and "is_fill ev" and "get_default ev ''order_id'' (JInt (- 1)) = JInt i" and "0 \<le> i"
    and "str_field ev ''instrument'' \<noteq> []" and "str_field ev ''side'' \<in> {''BUY'', ''SELL''}"
    and "positive_number (get_default ev ''qty'' (JFloat fl_zero)) = Inr (Some q)"
  shows "apply_simulator_events st (earlier @ ev # later) require_new =
    (case apply_simulator_events st earlier require_new of
       Inl e \<Rightarrow> Inl e
     | Inr _ \<Rightarrow> Inl (GenerationError ''OMS_SIMULATOR_STATE_FILL_CONFLICT''))"
proof -
  define r0 where "r0 = \<lparr>run_state = st, places = [], fills = []\<rparr>"
  show ?thesis
  proof (cases "fold_res (sim_step require_new (max_order_id st)) r0 earlier")
    case (Inl e)
    then show ?thesis by (simp add: apply_simulator_events_def fold_res_append r0_def)
  next
    case (Inr run)
    have "map_of (places run) i = None"
      by (rule fold_res_invariant [OF Inr, where I = "\<lambda>r. map_of (places r) i = None"])
        (use assms(1) in \<open>auto simp: r0_def sim_step_places\<close>)
    moreover have "event_kind ev \<noteq> ''place_sent''" using assms(3) by (simp add: is_fill_def)
    ultimately have "sim_step require_new (max_order_id st) run ev = Inl (GenerationError ''OMS_SIMULATOR_STATE_FILL_CONFLICT'')"
      using assms(2-) by (simp add: sim_step_def Let_def apply_fill_def sim_error_def)
    then show ?thesis using Inr by (simp add: apply_simulator_events_def fold_res_append r0_def)
  qed
qed

theorem orphan_fill_rejected_witness:
  "apply_simulator_events sample_sim
      (sample_segment @ sample_order ''status'' ''Filled'' 1000006 # [sample_order ''place_sent'' ''accepted'' 1000006]) True =
    Inl (GenerationError ''OMS_SIMULATOR_STATE_FILL_CONFLICT'')"
proof -
  have "\<forall>e \<in> set sample_segment. \<not> places_order 1000006 e"
    by (simp add: sample_segment_def places_order_def sample_order_simps)
  from orphan_fill_rejected [OF this, of "sample_order ''status'' ''Filled'' 1000006" _ sample_sim
      "[sample_order ''place_sent'' ''accepted'' 1000006]" True]
  show ?thesis by (simp add: sample_order_simps sample_segment_applied)
qed

end
