(* ===== verification/Strict_Records.thy ===== *)
theory Strict_Records
  imports Journal Send_Index
begin

section \<open>The sealer's strict record reader\<close>

text \<open>
  Model of \<open>_strict_records\<close>, \<open>_read_hot\<close> and \<open>_read_generation_segment\<close> of
  \<open>hepta_oms_lifecycle.py\<close>. The bytes between two offsets of a file are cut at newlines and
  every line must be a valid record. The reader is shown to agree with the replay verifier of
  theory \<open>Journal\<close> on every plain file within the byte budget: what one accepts the other accepts,
  with the same records. The verifier also reads gzip files, which this reader does not.
\<close>

definition strict_failure :: "exn \<Rightarrow> bool" where
  "strict_failure e \<longleftrightarrow> decode_failure e \<or> (case e of JournalError m \<Rightarrow> True | _ \<Rightarrow> False)"

type_synonym strict_state = "string list \<times> event list"

definition emit_strict :: "budgets \<Rightarrow> strict_state \<Rightarrow> string \<Rightarrow> strict_state res" where
  "emit_strict b s raw =
     (case s of (raws, evs) \<Rightarrow>
        bind_res (guard_res (raw \<noteq> []) (GenerationError ''OMS_REPLAY_EMPTY_RECORD'')) (\<lambda>_.
        bind_res (guard_res (length evs < records_budget b) (GenerationError ''OMS_REPLAY_RECORD_COUNT_LIMIT'')) (\<lambda>_.
        bind_res (catch_res strict_failure
            (bind_res (loads journal_hooks raw) (\<lambda>v. validate_event v (length evs + 1)))
            (GenerationError ''OMS_REPLAY_INVALID_RECORD'')) (\<lambda>ev.
        Inr (raws @ [raw @ [LF]], evs @ [dict_pop ''_line'' ev])))))"

text \<open>\<open>data\<close> is the content of the file; a file shorter than \<open>stop\<close> ends with an empty read.\<close>

definition strict_records :: "string \<Rightarrow> nat \<Rightarrow> nat \<Rightarrow> budgets \<Rightarrow> strict_state res" where
  "strict_records data start stop b =
     (if stop < start \<or> bytes_budget b < stop - start then Inl (GenerationError ''OMS_REPLAY_BYTE_LIMIT'')
      else
        let avail = take (stop - start) (drop start data) in
        case frame_chunks (emit_strict b) (record_bytes_budget b) (GenerationError ''OMS_REPLAY_RECORD_BYTE_LIMIT'')
            [] ([], []) (blocks BLOCK avail) of
          (pending, s, Some e) \<Rightarrow> Inl e
        | (pending, s, None) \<Rightarrow>
            if length avail < stop - start then Inl (GenerationError ''OMS_REPLAY_IO_FAILURE'')
            else if pending \<noteq> [] then Inl (GenerationError ''OMS_REPLAY_TORN_RECORD'')
            else Inr s)"

text \<open>Both readers of a generation file check that it is private; only the error differs.\<close>

definition read_private_events :: "nat \<Rightarrow> exn \<Rightarrow> budgets \<Rightarrow> observation \<Rightarrow> event list res" where
  "read_private_events euid e b ob =
     bind_res (guard_res (private_regular euid (ob_before ob)) e) (\<lambda>_.
     bind_res (strict_records (ob_data ob) 0 (st_size (ob_before ob)) b) (\<lambda>(raws, evs). Inr evs))"

definition read_hot :: "nat \<Rightarrow> budgets \<Rightarrow> observation \<Rightarrow> event list res" where
  "read_hot euid b ob = read_private_events euid (GenerationError ''OMS_GENERATION_UNSAFE_HOT_REPLAY'') b ob"

definition read_generation_segment :: "nat \<Rightarrow> budgets \<Rightarrow> observation \<Rightarrow> event list res" where
  "read_generation_segment euid b ob =
     read_private_events euid (GenerationError ''OMS_GENERATION_UNSAFE_SEGMENT'') b ob"

subsection \<open>Agreement with the replay verifier\<close>

lemma emit_strict_Inr_iff:
  "emit_strict b (raws, evs) raw = Inr s' \<longleftrightarrow>
     (\<exists>v ev. raw \<noteq> [] \<and> length evs < records_budget b \<and> loads journal_hooks raw = Inr v \<and>
        validate_event v (Suc (length evs)) = Inr ev \<and>
        s' = (raws @ [raw @ [LF]], evs @ [dict_pop ''_line'' ev]))"
  by (auto simp: emit_strict_def bind_res_Inr_iff catch_res_def split: sum.splits if_splits)

definition strict_of :: "reader \<Rightarrow> strict_state" where
  "strict_of rd = (map fst (rd_yielded rd), map (dict_pop ''_line'' \<circ> snd) (rd_yielded rd))"

lemma emit_agree:
  assumes "rd_records rd = length (rd_yielded rd)"
  shows "emit_strict b (strict_of rd) raw = Inr s' \<longleftrightarrow>
    (\<exists>rd'. emit_record b rd raw = Inr rd' \<and> s' = strict_of rd')"
  using assms by (auto simp: emit_strict_Inr_iff emit_record_Inr_iff strict_of_def)

lemma emit_records_count:
  "emit_record b rd raw = Inr rd' \<Longrightarrow> rd_records rd = length (rd_yielded rd) \<Longrightarrow>
    rd_records rd' = length (rd_yielded rd')"
  by (auto simp: emit_record_Inr_iff)

lemma fold_agree:
  assumes "rd_records rd = length (rd_yielded rd)"
  shows "fold_res (emit_strict b) (strict_of rd) ls = Inr s' \<longleftrightarrow>
    (\<exists>rd'. fold_res (emit_record b) rd ls = Inr rd' \<and> s' = strict_of rd')"
  using assms
proof (induction ls arbitrary: rd)
  case (Cons l ls)
  show ?case (is "?L \<longleftrightarrow> ?R")
  proof
    assume ?L
    then obtain s1 where s1: "emit_strict b (strict_of rd) l = Inr s1" "fold_res (emit_strict b) s1 ls = Inr s'"
      by (auto simp: bind_res_Inr_iff)
    then obtain rd1 where rd1: "emit_record b rd l = Inr rd1" "s1 = strict_of rd1"
      using emit_agree [OF Cons.prems] by blast
    with Cons.IH [OF emit_records_count [OF rd1(1) Cons.prems]] s1(2) show ?R by auto
  next
    assume ?R
    then obtain rd1 rd' where rd1: "emit_record b rd l = Inr rd1" "fold_res (emit_record b) rd1 ls = Inr rd'"
        "s' = strict_of rd'"
      by (auto simp: bind_res_Inr_iff)
    then have "emit_strict b (strict_of rd) l = Inr (strict_of rd1)" using emit_agree [OF Cons.prems] by blast
    with Cons.IH [OF emit_records_count [OF rd1(1) Cons.prems]] rd1(2,3) show ?L by auto
  qed
qed auto

lemma strict_records_frame:
  assumes "stop \<le> length data" and "start \<le> stop" and "stop - start \<le> bytes_budget b"
  shows "strict_records data start stop b = Inr s \<longleftrightarrow>
    frame_file (emit_strict b) (record_bytes_budget b) (GenerationError ''OMS_REPLAY_RECORD_BYTE_LIMIT'')
      (GenerationError ''OMS_REPLAY_TORN_RECORD'') ([], []) (blocks BLOCK (take (stop - start) (drop start data))) =
    (s, None)"
  using assms by (auto simp: strict_records_def frame_file_def Let_def split: prod.splits option.splits if_splits)

text \<open>The lines of an accepted range.\<close>

lemma strict_records_Inr_iff:
  assumes "stop \<le> length data" and "start \<le> stop" and "stop - start \<le> bytes_budget b"
  shows "strict_records data start stop b = Inr s \<longleftrightarrow>
    (\<exists>ls. take (stop - start) (drop start data) = unlines ls \<and>
       (\<forall>l \<in> set ls. LF \<notin> set l \<and> length l \<le> record_bytes_budget b) \<and>
       fold_res (emit_strict b) ([], []) ls = Inr s)"
  unfolding strict_records_frame [OF assms] frame_file_None_iff by (simp add: concat_blocks BLOCK_def)

text \<open>C21. The sealer and the replay verifier accept the same journals: on a plain file within the
byte budget, the strict reader returns records exactly if the verifier reads the file to its end,
and they are the verifier's raw lines and its events without the line number.\<close>

theorem strict_records_agree:
  assumes "\<not> gzip_magic data" and "length data \<le> bytes_budget b" and "budgets_ok b = Inr ()"
  shows "strict_records data 0 (length data) b = Inr (raws, evs) \<longleftrightarrow>
    (\<exists>rd. validated_raw_records z data (length data) b = (rd, None) \<and> raws = map fst (rd_yielded rd) \<and>
       evs = map (dict_pop ''_line'' \<circ> snd) (rd_yielded rd))"
proof -
  have v: "validated_raw_records z data (length data) b = (rd, None) \<longleftrightarrow>
      (\<exists>ls. data = unlines ls \<and> (\<forall>l \<in> set ls. LF \<notin> set l \<and> length l \<le> record_bytes_budget b) \<and>
        fold_res (emit_record b) init_reader ls = Inr rd)" for rd
    unfolding validated_raw_records_blocks [OF assms] frame_file_None_iff by (simp add: concat_blocks CHUNK_def)
  have i: "strict_of init_reader = ([], [])" "rd_records init_reader = length (rd_yielded init_reader)"
    by (simp_all add: strict_of_def init_reader_def)
  have "strict_records data 0 (length data) b = Inr (raws, evs) \<longleftrightarrow>
      (\<exists>ls. data = unlines ls \<and> (\<forall>l \<in> set ls. LF \<notin> set l \<and> length l \<le> record_bytes_budget b) \<and>
        fold_res (emit_strict b) ([], []) ls = Inr (raws, evs))"
    using assms(2) by (simp add: strict_records_Inr_iff)
  also have "\<dots> \<longleftrightarrow> (\<exists>rd. validated_raw_records z data (length data) b = (rd, None) \<and> strict_of rd = (raws, evs))"
    unfolding v using fold_agree [OF i(2), of b] i(1) by auto
  finally show ?thesis by (auto simp: strict_of_def)
qed

theorem strict_records_agree_witness:
  "\<not> gzip_magic sample_journal \<and> length sample_journal \<le> bytes_budget default_budgets \<and>
   budgets_ok default_budgets = Inr () \<and>
   (\<forall>raws evs. strict_records sample_journal 0 (length sample_journal) default_budgets = Inr (raws, evs) \<longleftrightarrow>
    (\<exists>rd. validated_raw_records no_zlib sample_journal (length sample_journal) default_budgets = (rd, None) \<and>
       raws = map fst (rd_yielded rd) \<and> evs = map (dict_pop ''_line'' \<circ> snd) (rd_yielded rd)))"
proof -
  have "length sample_journal \<le> bytes_budget default_budgets"
    by (simp add: sample_journal_plain default_budgets_def DEFAULT_MAX_BYTES_def)
  then have h: "\<not> gzip_magic sample_journal" "length sample_journal \<le> bytes_budget default_budgets"
      "budgets_ok default_budgets = Inr ()"
    by (simp_all add: sample_journal_plain default_budgets_ok)
  show ?thesis using h strict_records_agree [OF h] by blast
qed

end
