(* ===== verification/Generation_V2.thy ===== *)
theory Generation_V2
  imports Generation_V1 Command_Index Simulator Strict_Records
begin

section \<open>Sealing, verifying, rebasing and exporting v2 generations\<close>

text \<open>
  Model of the stopped-state operations of \<open>hepta_oms_lifecycle.py\<close>. A v2 generation holds the
  segment that was sealed, the cumulative indexes and the bounded hot replay; the active journal
  is replaced by a sentinel that names the generation.

  The rows of the cumulative indexes are computed by theories \<open>Send_Index\<close> and
  \<open>Command_Index\<close> and then written; the temporary files of the external sort are not in the
  file system model. The test hook between phases is the default one.
\<close>

definition SCHEMA_V2 :: string where "SCHEMA_V2 = ''heptatrader.oms-generation.v2''"
definition RUNTIME_MANIFEST_HEADER_V2 :: string where
  "RUNTIME_MANIFEST_HEADER_V2 = ''HEPTA_OMS_RUNTIME_GENERATION_V2''"
definition SEND_INDEX_ORDER :: string where "SEND_INDEX_ORDER = ''account-domain-time-v1''"

subsection \<open>Reading generation files\<close>

text \<open>\<open>_iter_private_lines\<close>: the lines and the error that ends them.\<close>

definition private_lines :: "string \<Rightarrow> string \<Rightarrow> line_gen io" where
  "private_lines limit_error p =
     bind_io (try_io (bind_io (open_read p) (\<lambda>fd. bind_io (fstat fd) (\<lambda>prior.
       then_io (require_private prior (GenerationError ''OMS_GENERATION_UNSAFE_INDEX''))
       (bind_io (read_fd fd) (\<lambda>data. return_io (fd, prior, data))))))) (\<lambda>r.
     case r of
       Inl e \<Rightarrow> return_io ([], Some e)
     | Inr (fd, prior, data) \<Rightarrow>
         (case iter_lines (GenerationError limit_error) data of
            (ls, Some e) \<Rightarrow> return_io (ls, Some e)
          | (ls, None) \<Rightarrow>
              bind_io (try_io (check_identity prior fd p (GenerationError ''OMS_GENERATION_INDEX_CHANGED''))) (\<lambda>c.
              return_io (ls, case c of Inl e \<Rightarrow> Some e | Inr _ \<Rightarrow> None))))"

definition read_events :: "exn \<Rightarrow> budgets \<Rightarrow> string \<Rightarrow> event list io" where
  "read_events unsafe b p =
     bind_io (open_read p) (\<lambda>fd. bind_io (fstat fd) (\<lambda>info.
     then_io (require_private info unsafe)
     (bind_io (read_fd fd) (\<lambda>data.
      bind_io (lift_io (strict_records data 0 (st_size info) b)) (\<lambda>(raws, evs). return_io evs)))))"

definition read_hot_file :: "budgets \<Rightarrow> string \<Rightarrow> event list io" where
  "read_hot_file b gdir =
     read_events (GenerationError ''OMS_GENERATION_UNSAFE_HOT_REPLAY'') b (path_join gdir ''hot-replay.jsonl'')"

definition read_segment_file :: "budgets \<Rightarrow> string \<Rightarrow> event list io" where
  "read_segment_file b gdir =
     read_events (GenerationError ''OMS_GENERATION_UNSAFE_SEGMENT'') b (path_join gdir SEGMENT)"

definition manifest_for :: "string \<Rightarrow> string \<Rightarrow> dict io" where
  "manifest_for store generation =
     bind_io (load_json_private (path_join (path_join store generation) ''manifest.json'')) (\<lambda>v.
     case v of
       JDict m \<Rightarrow>
         then_io (guard_io (py_eq (get_default m ''generation'' JNull) (JStr generation))
           (GenerationError ''OMS_GENERATION_MANIFEST_INVALID'')) (return_io m)
     | _ \<Rightarrow> raise_io (GenerationError ''OMS_GENERATION_MANIFEST_INVALID''))"

definition parent_send_index_sorted :: "string \<Rightarrow> bool io" where
  "parent_send_index_sorted parent_dir =
     bind_io (try_io (bind_io (read_private_bytes (Some MAX_METADATA) (path_join parent_dir ''runtime-manifest.txt''))
       (\<lambda>raw. lift_io (parse_line_manifest raw RUNTIME_MANIFEST_HEADER_V2)))) (\<lambda>r.
     case r of
       Inr fs \<Rightarrow> return_io (map_of fs ''send_attempt_index_order'' = Some SEND_INDEX_ORDER)
     | Inl e \<Rightarrow> if os_error e \<or> value_error e then return_io False else raise_io e)"

subsection \<open>Verifying\<close>

definition REQUIRED_LEGACY :: "string list" where
  "REQUIRED_LEGACY =
     [''generation'', ''parent_generation'', ''parent_manifest_sha256'', ''history_records'', ''segment_records'',
      ''command_records'', ''send_attempt_records'', ''hot_replay_records'', ''segment_sha256'', ''checkpoint_sha256'',
      ''command_index_sha256'', ''runtime_command_index_sha256'', ''send_attempt_index_sha256'', ''hot_replay_sha256'',
      ''active_tail_header_bytes'', ''active_tail_header_sha256'', ''authorization_effect'', ''paper_authorized'',
      ''live_authorized'']"

definition COUNT_MEMBERS :: "string list" where
  "COUNT_MEMBERS =
     [''history_records'', ''segment_records'', ''command_records'', ''send_attempt_records'', ''hot_replay_records'']"

definition runtime_is :: "line_fields \<Rightarrow> string \<Rightarrow> json \<Rightarrow> bool" where
  "runtime_is rt k v = (case map_of rt k of None \<Rightarrow> False | Some x \<Rightarrow> py_eq (JStr x) v)"

definition sorted_send_index :: "line_fields \<Rightarrow> bool" where
  "sorted_send_index rt \<longleftrightarrow> set (map fst rt) = set (''send_attempt_index_order'' # REQUIRED_LEGACY)"

definition check_runtime_fields :: "string \<Rightarrow> line_fields \<Rightarrow> unit res" where
  "check_runtime_fields generation rt =
     guard_res
       ((set (map fst rt) = set REQUIRED_LEGACY \<or> sorted_send_index rt) \<and>
        (sorted_send_index rt \<longrightarrow> runtime_is rt ''send_attempt_index_order'' (JStr SEND_INDEX_ORDER)) \<and>
        runtime_is rt ''generation'' (JStr generation) \<and> runtime_is rt ''authorization_effect'' (JStr ''NONE'') \<and>
        runtime_is rt ''paper_authorized'' (JStr ''0'') \<and> runtime_is rt ''live_authorized'' (JStr ''0''))
       (GenerationError ''OMS_GENERATION_RUNTIME_MANIFEST_INVALID'')"

definition RUNTIME_MISMATCH :: exn where
  "RUNTIME_MISMATCH = GenerationError ''OMS_GENERATION_RUNTIME_MANIFEST_MISMATCH''"

definition check_count :: "dict \<Rightarrow> line_fields \<Rightarrow> string \<Rightarrow> unit res" where
  "check_count m rt k =
     guard_res (case get_default m k JNull of JInt i \<Rightarrow> runtime_is rt k (JStr (str_of_int i)) | _ \<Rightarrow> False)
       RUNTIME_MISMATCH"

definition check_digest :: "dict \<Rightarrow> line_fields \<Rightarrow> string \<times> string \<Rightarrow> unit res" where
  "check_digest fs rt kn =
     bind_res (py_item (JDict fs) (snd kn)) (\<lambda>f. bind_res (py_item f ''sha256'') (\<lambda>h.
     guard_res (runtime_is rt (fst kn) h) RUNTIME_MISMATCH))"

definition manifest_parent :: "dict \<Rightarrow> json" where
  "manifest_parent m = py_or (get_default m ''parent_generation'' JNull) (JStr [])"

definition manifest_parent_sha :: "dict \<Rightarrow> json" where
  "manifest_parent_sha m = py_or (get_default m ''parent_manifest_sha256'' JNull) (JStr [])"

definition check_runtime_v2 :: "string \<Rightarrow> dict \<Rightarrow> dict \<Rightarrow> string \<Rightarrow> line_fields res" where
  "check_runtime_v2 generation m fs raw =
     bind_res (parse_line_manifest raw RUNTIME_MANIFEST_HEADER_V2) (\<lambda>rt.
     bind_res (check_runtime_fields generation rt) (\<lambda>_.
     bind_res (tail_header generation) (\<lambda>mark.
     bind_res (map_res (check_count m rt) COUNT_MEMBERS) (\<lambda>_.
     let parent = manifest_parent m in
     bind_res (guard_res
       (runtime_is rt ''parent_generation'' (py_or parent (JStr ''-'')) \<and>
        runtime_is rt ''parent_manifest_sha256'' (if truthy parent then manifest_parent_sha m else JStr ''-'') \<and>
        runtime_is rt ''active_tail_header_bytes'' (JStr (str_nat (length mark))) \<and>
        runtime_is rt ''active_tail_header_sha256'' (JStr (sha256 mark))) RUNTIME_MISMATCH) (\<lambda>_.
     bind_res (map_res (check_digest fs rt) (INDEX_DIGESTS @ [HOT_DIGEST])) (\<lambda>_.
     bind_res (guard_res (py_eq (JStr (sha256 raw)) (get_default m ''runtime_manifest_sha256'' JNull)) RUNTIME_MISMATCH) (\<lambda>_.
     Inr rt)))))))"

definition row_key_of :: "string \<Rightarrow> ckey res" where
  "row_key_of line = bind_res (runtime_row line) (\<lambda>(k, _, _). Inr k)"

text \<open>A loop over the lines of an index that checks every key and the count.\<close>

definition check_rows :: "('k list \<Rightarrow> string \<Rightarrow> 'k list res) \<Rightarrow> exn \<Rightarrow> json \<Rightarrow> line_gen \<Rightarrow> unit res" where
  "check_rows step mismatch expected g =
     bind_res (fold_res step [] (fst g)) (\<lambda>ks.
     bind_res (raise_end (snd g) ()) (\<lambda>_.
     guard_res (py_eq (JInt (int (length ks))) expected) mismatch))"

definition unordered_keys :: "(string \<Rightarrow> 'k res) \<Rightarrow> 'k list \<Rightarrow> string \<Rightarrow> 'k list res" where
  "unordered_keys key seen line = bind_res (key line) (\<lambda>k. Inr (seen @ [k]))"

definition verify_runtime_current :: "string \<Rightarrow> string \<Rightarrow> string \<Rightarrow> json \<Rightarrow> unit io" where
  "verify_runtime_current store generation manifest_digest runtime_digest =
     bind_io (read_private_bytes (Some MAX_METADATA) (path_join store ''CURRENT'')) (\<lambda>current_raw.
     bind_io (load_json_private (path_join store ''CURRENT'')) (\<lambda>current.
     then_io (guard_io (py_eq current (JDict
         [(''schema'', JStr GENERATION_CURRENT_SCHEMA), (''generation'', JStr generation),
          (''manifest_sha256'', JStr manifest_digest), (''runtime_manifest_sha256'', runtime_digest)]))
       (GenerationError ''OMS_GENERATION_CURRENT_DIGEST_MISMATCH''))
     (bind_io (read_private_bytes (Some MAX_METADATA) (path_join store ''CURRENT.runtime'')) (\<lambda>raw.
      bind_io (lift_io (parse_line_manifest raw RUNTIME_CURRENT_HEADER)) (\<lambda>fs.
      guard_io (py_eq (fields_json fs) (JDict
         [(''generation'', JStr generation), (''current_sha256'', JStr (sha256 current_raw)),
          (''manifest_sha256'', JStr manifest_digest), (''runtime_manifest_sha256'', runtime_digest)]))
       (GenerationError ''OMS_GENERATION_RUNTIME_CURRENT_MISMATCH''))))))"

definition tail_of_journal :: "string \<Rightarrow> (stat \<times> (string \<times> nat) option) io" where
  "tail_of_journal journal =
     bind_io (open_read journal) (\<lambda>fd. bind_io (fstat fd) (\<lambda>info.
     then_io (require_private info (GenerationError ''OMS_GENERATION_UNSAFE_JOURNAL''))
     (bind_io (read_fd fd) (\<lambda>data.
      bind_io (lift_io (parse_tail_header data (st_size info))) (\<lambda>parsed. return_io (info, parsed))))))"

definition verify_selected :: "string \<Rightarrow> string \<Rightarrow> dict \<Rightarrow> string option \<Rightarrow> unit io" where
  "verify_selected store generation m journal =
     bind_io (sha256_file (path_join (path_join store generation) ''manifest.json'')) (\<lambda>(_, digest).
     bind_io (lift_io (py_item (JDict m) ''runtime_manifest_sha256'')) (\<lambda>runtime_digest.
     then_io (verify_runtime_current store generation digest runtime_digest)
     (case journal of
        None \<Rightarrow> return_io ()
      | Some j \<Rightarrow>
          bind_io (tail_of_journal j) (\<lambda>(_, parsed).
          bind_io (lift_io (tail_header generation)) (\<lambda>mark.
          guard_io (parsed = Some (generation, length mark))
            (GenerationError ''OMS_ACTIVE_TAIL_LINEAGE_MISMATCH''))))))"

definition verify_parent_v2 :: "string \<Rightarrow> dict \<Rightarrow> unit io" where
  "verify_parent_v2 store m =
     (let parent = manifest_parent m in
      if \<not> truthy parent then return_io ()
      else case parent of
        JStr p \<Rightarrow>
          bind_io (manifest_for store p) (\<lambda>pm.
          bind_io (sha256_file (path_join (path_join store p) ''manifest.json'')) (\<lambda>(_, h).
          guard_io (py_eq (get_default pm ''generation'' JNull) parent \<and> py_eq (JStr h) (manifest_parent_sha m))
            (GenerationError ''OMS_GENERATION_PARENT_INVALID'')))
      | _ \<Rightarrow> raise_io (TypeError ''unsupported operand type(s) for /''))"

definition verify_files_v2 :: "string \<Rightarrow> dict \<Rightarrow> dict io" where
  "verify_files_v2 gdir m =
     (case get_default m ''files'' JNull of
        JDict fs \<Rightarrow>
          then_io (guard_io (fs \<noteq> []) INVENTORY_INVALID)
          (then_io (map_io (verify_file (\<lambda>n. SLASH \<notin> set n) gdir) fs) (return_io fs))
      | _ \<Rightarrow> raise_io INVENTORY_INVALID)"

definition verify_indexes_v2 :: "string \<Rightarrow> dict \<Rightarrow> line_fields \<Rightarrow> unit io" where
  "verify_indexes_v2 gdir m rt =
     bind_io (private_lines ''OMS_GENERATION_RUNTIME_INDEX_LINE_LIMIT'' (path_join gdir ''runtime-command-index.tsv'')) (\<lambda>g.
     then_io (lift_io (check_rows
         (ordered_keys (GenerationError ''OMS_GENERATION_RUNTIME_INDEX_ORDER_INVALID'') row_key_of)
         (GenerationError ''OMS_GENERATION_RUNTIME_INDEX_COUNT_MISMATCH'') (get_default m ''command_records'' JNull) g))
     (bind_io (private_lines SEND_INVALID (path_join gdir ''send-attempt-index.tsv'')) (\<lambda>sg.
      lift_io (check_rows
         (if sorted_send_index rt
          then ordered_keys (GenerationError ''OMS_GENERATION_SEND_INDEX_ORDER_INVALID'') send_key
          else unordered_keys send_key)
         (GenerationError ''OMS_GENERATION_SEND_INDEX_COUNT_MISMATCH'') (get_default m ''send_attempt_records'' JNull) sg))))"

definition verify_manifest_v2 :: "string \<Rightarrow> string \<Rightarrow> dict option \<Rightarrow> string option \<Rightarrow> dict \<Rightarrow> dict io" where
  "verify_manifest_v2 store generation current journal m =
     (let gdir = path_join store generation in
      bind_io (lstat gdir) (\<lambda>gst.
      then_io (require_private_directory gst (GenerationError ''OMS_GENERATION_DIRECTORY_INVALID''))
      (bind_io (verify_files_v2 gdir m) (\<lambda>fs.
      bind_io (read_private_bytes (Some MAX_METADATA) (path_join gdir ''runtime-manifest.txt'')) (\<lambda>raw.
      bind_io (lift_io (check_runtime_v2 generation m fs raw)) (\<lambda>rt.
      then_io (verify_indexes_v2 gdir m rt)
      (then_io (case current of
          None \<Rightarrow> return_io ()
        | Some d \<Rightarrow> if current_generation d = generation then verify_selected store generation m journal
                    else return_io ())
      (then_io (verify_parent_v2 store m)
      (bind_io (lift_io (verification_result COUNT_MEMBERS m)) (\<lambda>r.
      return_io ([(''schema'', JStr SCHEMA_V2), (''result'', JStr ''PASS''), (''generation'', JStr generation)] @ r @
        [(''authorization_effect'', JStr ''NONE'')])))))))))))"

definition verify_generation_v2 :: "string \<Rightarrow> string option \<Rightarrow> string option \<Rightarrow> dict io" where
  "verify_generation_v2 store requested journal =
     bind_io (lstat store) (\<lambda>st.
     then_io (require_private_directory st (GenerationError ''OMS_GENERATION_PRIVATE_STORE_REQUIRED''))
     (bind_io (read_current store) (\<lambda>current.
     bind_io (lift_io (selected_generation current requested)) (\<lambda>generation.
     bind_io (manifest_for store generation) (\<lambda>m.
     let schema = get_default m ''schema'' JNull in
     if py_eq schema (JStr SCHEMA_V1) then
       bind_io (verify_generation_v1 store (Some generation)) (\<lambda>r.
       bind_io (lift_io (py_item (JDict m) ''journal_records'')) (\<lambda>n.
       return_io (dict_update r [(''schema'', JStr SCHEMA_V1), (''history_records'', n)])))
     else if \<not> py_eq schema (JStr SCHEMA_V2) then raise_io (GenerationError ''OMS_GENERATION_MANIFEST_INVALID'')
     else verify_manifest_v2 store generation current journal m)))))"

subsection \<open>The generation chain\<close>

type_synonym chain = "(string \<times> dict) list"

text \<open>
  The loop over the parents, the newest generation first. Without other processes it visits
  every generation directory at most once, so the number of names in the file system is enough
  fuel, as theory \<open>Store_Walk\<close> shows.
\<close>

fun chain_loop :: "nat \<Rightarrow> string \<Rightarrow> string list \<Rightarrow> string \<Rightarrow> chain io" where
  "chain_loop 0 store seen generation = (if generation = [] then return_io [] else raise_io FuelExhausted)"
| "chain_loop (Suc n) store seen generation =
     (if generation = [] then return_io []
      else
        then_io (guard_io (generation \<notin> set seen) (GenerationError ''OMS_GENERATION_PARENT_CHAIN_INVALID''))
        (bind_io (manifest_for store generation) (\<lambda>m.
         case manifest_parent m of
           JStr parent \<Rightarrow>
             bind_io (chain_loop n store (generation # seen) parent) (\<lambda>rest. return_io ((generation, m) # rest))
         | _ \<Rightarrow> raise_io (GenerationError ''OMS_GENERATION_PARENT_INVALID''))))"

definition generation_chain :: "string \<Rightarrow> string \<Rightarrow> chain io" where
  "generation_chain store generation os w =
     (case chain_loop (Suc (length (names (w_fs w)))) store [] generation os w of
        (Inl e, w') \<Rightarrow> (Inl e, w')
      | (Inr c, w') \<Rightarrow> (Inr (rev c), w'))"

definition is_v1 :: "dict \<Rightarrow> bool" where
  "is_v1 m = py_eq (get_default m ''schema'' JNull) (JStr SCHEMA_V1)"

text \<open>\<open>chain[base_index:]\<close>: from the last v1 generation on, which holds the whole journal up to it.\<close>

definition selected_chain :: "chain \<Rightarrow> chain" where
  "selected_chain c =
     (if list_ex (is_v1 \<circ> snd) c
      then drop (length c - Suc (length (takeWhile (\<lambda>x. \<not> is_v1 (snd x)) (rev c)))) c
      else c)"

definition reconstruct_simulator_state :: "string \<Rightarrow> string \<Rightarrow> budgets \<Rightarrow> sim_state io" where
  "reconstruct_simulator_state store generation b =
     bind_io (generation_chain store generation) (\<lambda>c.
     bind_io (fold_io (\<lambda>(state, applied) (g, _).
         bind_io (read_segment_file b (path_join store g)) (\<lambda>evs.
         bind_io (lift_io (apply_simulator_events state evs applied)) (\<lambda>state'. return_io (state', True))))
       (empty_simulator_state, False) (selected_chain c)) (\<lambda>(state, _). return_io state))"

subsection \<open>Sealing\<close>

record parent_info =
  pi_generation :: string
  pi_start :: nat
  pi_history :: int
  pi_hot :: "event list"
  pi_dir :: "string option"

definition no_parent :: parent_info where
  "no_parent = \<lparr>pi_generation = [], pi_start = 0, pi_history = 0, pi_hot = [], pi_dir = None\<rparr>"

definition parent_prefix :: "dict \<Rightarrow> nat \<Rightarrow> string \<Rightarrow> (nat \<times> int) res" where
  "parent_prefix m journal_size data =
     (case (get_default m ''journal_prefix_bytes'' JNull, get_default m ''journal_records'' JNull) of
        (JInt pfx, JInt history) \<Rightarrow>
          if 0 \<le> pfx \<and> pfx \<le> int journal_size then
            let raw = take (nat pfx) data in
            if length raw < nat pfx then Inl (GenerationError ''OMS_GENERATION_PARENT_PREFIX_IO_FAILURE'')
            else if \<not> py_eq (JStr (sha256 raw)) (get_default m ''journal_logical_sha256'' JNull)
            then Inl (GenerationError ''OMS_GENERATION_PARENT_PREFIX_MISMATCH'')
            else Inr (nat pfx, history)
          else Inl (GenerationError ''OMS_GENERATION_PARENT_RANGE_INVALID'')
      | _ \<Rightarrow> Inl (GenerationError ''OMS_GENERATION_PARENT_RANGE_INVALID''))"

definition parent_state :: "string \<Rightarrow> dict option \<Rightarrow> nat \<Rightarrow> nat \<Rightarrow> budgets \<Rightarrow> parent_info io" where
  "parent_state store current journal_fd journal_size b =
     (case current of
        None \<Rightarrow> return_io no_parent
      | Some d \<Rightarrow>
          let generation = current_generation d; gdir = path_join store generation in
          bind_io (manifest_for store generation) (\<lambda>m.
          let schema = get_default m ''schema'' JNull in
          if py_eq schema (JStr SCHEMA_V1) then
            then_io (verify_generation_v1 store (Some generation))
            (bind_io (read_fd journal_fd) (\<lambda>data.
             bind_io (lift_io (parent_prefix m journal_size data)) (\<lambda>(pfx, history).
             bind_io (read_hot_file b gdir) (\<lambda>hot.
             return_io \<lparr>pi_generation = generation, pi_start = pfx, pi_history = history, pi_hot = hot,
                        pi_dir = Some gdir\<rparr>))))
          else if \<not> py_eq schema (JStr SCHEMA_V2)
          then raise_io (GenerationError ''OMS_GENERATION_PARENT_SCHEMA_UNSUPPORTED'')
          else
            bind_io (verify_generation_v2 store (Some generation) None) (\<lambda>verified.
            bind_io (read_fd journal_fd) (\<lambda>data.
            bind_io (lift_io (parse_tail_header data journal_size)) (\<lambda>parsed.
            case parsed of
              Some (g, n) \<Rightarrow>
                then_io (guard_io (g = generation) (GenerationError ''OMS_ACTIVE_TAIL_LINEAGE_MISMATCH''))
                (bind_io (read_hot_file b gdir) (\<lambda>hot.
                 return_io \<lparr>pi_generation = generation, pi_start = n,
                   pi_history = int_field verified ''history_records'' 0, pi_hot = hot, pi_dir = Some gdir\<rparr>))
            | None \<Rightarrow> raise_io (GenerationError ''OMS_ACTIVE_TAIL_LINEAGE_MISMATCH''))))))"

text \<open>The parent's rows, as \<open>_write_merged_indexes\<close> reads them. The source creates the two index files
  before it reads them and writes row by row; here the rows are read and merged first and each file
  is written at once. The files end with the same bytes; a seal that fails while reading the parent
  leaves no unfinished index file in its new directory here.\<close>

definition parent_rows :: "string option \<Rightarrow> (line_gen \<times> line_gen \<times> bool) option io" where
  "parent_rows parent_dir =
     (case parent_dir of
        None \<Rightarrow> return_io None
      | Some d \<Rightarrow>
          bind_io (private_lines ''OMS_GENERATION_RUNTIME_INDEX_LINE_LIMIT'' (path_join d ''runtime-command-index.tsv'')) (\<lambda>g.
          bind_io (parent_send_index_sorted d) (\<lambda>sorted_parent.
          bind_io (private_lines SEND_INVALID (path_join d ''send-attempt-index.tsv'')) (\<lambda>sg.
          return_io (Some (g, sg, sorted_parent))))))"

definition write_index_files :: "string \<Rightarrow> merged_indexes \<Rightarrow> unit io" where
  "write_index_files gdir mi =
     bind_io (create_excl (path_join gdir ''runtime-command-index.tsv'')) (\<lambda>runtime_fd.
     bind_io (create_excl (path_join gdir ''command-index.tsv'')) (\<lambda>legacy_fd.
     then_io (write_all runtime_fd (mi_runtime mi)) (then_io (write_all legacy_fd (mi_legacy mi))
     (then_io (fsync runtime_fd) (then_io (fsync legacy_fd)
     (create_synced (path_join gdir ''send-attempt-index.tsv'') (\<lambda>fd. write_all fd (mi_send mi))))))))"

record counts_v2 =
  k_history :: int
  k_segment :: int
  k_commands :: int
  k_attempts :: int
  k_hot :: int

definition runtime_manifest_bytes_v2 :: "string \<Rightarrow> string \<Rightarrow> string \<Rightarrow> counts_v2 \<Rightarrow> string \<Rightarrow> digests \<Rightarrow> string res" where
  "runtime_manifest_bytes_v2 generation parent parent_sha c mark ds =
     bind_res (map_res (digest_item ds) INDEX_DIGESTS) (\<lambda>hs.
     bind_res (digest_item ds HOT_DIGEST) (\<lambda>hot.
     manifest_text
       ([RUNTIME_MANIFEST_HEADER_V2,
         key_value ''generation'' generation,
         key_value ''parent_generation'' (or_str parent ''-''),
         key_value ''parent_manifest_sha256'' (if parent \<noteq> [] then parent_sha else ''-''),
         key_value ''history_records'' (str_of_int (k_history c)),
         key_value ''segment_records'' (str_of_int (k_segment c)),
         key_value ''command_records'' (str_of_int (k_commands c)),
         key_value ''send_attempt_records'' (str_of_int (k_attempts c)),
         key_value ''hot_replay_records'' (str_of_int (k_hot c))] @ hs @
        [key_value ''send_attempt_index_order'' SEND_INDEX_ORDER, hot,
         key_value ''active_tail_header_bytes'' (str_nat (length mark)),
         key_value ''active_tail_header_sha256'' (sha256 mark)] @ NO_AUTHORITY)))"

definition manifest_v2 ::
  "string \<Rightarrow> string \<Rightarrow> string \<Rightarrow> counts_v2 \<Rightarrow> string \<Rightarrow> string \<Rightarrow> inventory \<Rightarrow> dict \<Rightarrow> dict"
where
  "manifest_v2 generation parent parent_sha c mark runtime_digest items extra =
     [(''schema'', JStr SCHEMA_V2), (''generation'', JStr generation), (''parent_generation'', JStr parent),
      (''parent_manifest_sha256'', JStr parent_sha), (''history_records'', JInt (k_history c)),
      (''segment_records'', JInt (k_segment c)), (''command_records'', JInt (k_commands c)),
      (''send_attempt_records'', JInt (k_attempts c)), (''hot_replay_records'', JInt (k_hot c)),
      (''active_tail_header_bytes'', JInt (int (length mark))),
      (''active_tail_header_sha256'', JStr (sha256 mark)),
      (''runtime_manifest_sha256'', JStr runtime_digest), (''files'', files_json items)] @ extra @
     [(''authorization_effect'', JStr ''NONE''), (''paper_authorized'', JBool False), (''live_authorized'', JBool False)]"

definition write_manifests_v2 ::
  "string \<Rightarrow> string \<Rightarrow> string \<Rightarrow> string \<Rightarrow> counts_v2 \<Rightarrow> string \<Rightarrow> dict \<Rightarrow> (dict \<times> string) io"
where
  "write_manifests_v2 gdir generation parent parent_sha c mark extra =
     bind_io (file_digests gdir PRELIMINARY) (\<lambda>items.
     bind_io (lift_io (runtime_manifest_bytes_v2 generation parent parent_sha c mark (digests_of items))) (\<lambda>text.
     then_io (atomic_bytes (path_join gdir ''runtime-manifest.txt'') text)
     (bind_io (sha256_file (path_join gdir ''runtime-manifest.txt'')) (\<lambda>(sz, h).
     let m = manifest_v2 generation parent parent_sha c mark h (items @ [(''runtime-manifest.txt'', sz, h)]) extra in
     then_io (atomic_json (path_join gdir ''manifest.json'') (JDict m))
     (then_io (durable_directory gdir) (return_io (m, h)))))))"

definition checkpoint_v2 :: "string \<Rightarrow> counts_v2 \<Rightarrow> dict" where
  "checkpoint_v2 parent c =
     [(''schema'', JStr CHECKPOINT_SCHEMA), (''last_sequence'', JInt (k_history c)),
      (''history_records'', JInt (k_history c)), (''parent_generation'', JStr parent),
      (''segment_records'', JInt (k_segment c)), (''hot_replay_records'', JInt (k_hot c)),
      (''send_attempt_records'', JInt (k_attempts c)), (''paper_authorized'', JBool False),
      (''live_authorized'', JBool False)]"

definition simulator_base :: "string \<Rightarrow> parent_info \<Rightarrow> budgets \<Rightarrow> sim_state io" where
  "simulator_base store pst b =
     bind_io (lift_io (simulator_checkpoint_from_hot (pi_hot pst))) (\<lambda>s.
     case s of
       Some st \<Rightarrow> return_io st
     | None \<Rightarrow> if pi_generation pst \<noteq> [] then reconstruct_simulator_state store (pi_generation pst) b
               else return_io empty_simulator_state)"

text \<open>The files of the new generation, up to its durable manifest.\<close>

definition seal_files :: "string \<Rightarrow> string \<Rightarrow> parent_info \<Rightarrow> string list \<Rightarrow> event list \<Rightarrow> budgets \<Rightarrow> (dict \<times> string) io" where
  "seal_files store generation pst raw_tail tail_events b =
     (let gdir = path_join store generation in
      then_io (write_rows Inr (path_join gdir SEGMENT) raw_tail)
      (bind_io (lift_io (project_hot (pi_hot pst @ tail_events))) (\<lambda>pr.
      bind_io (simulator_base store pst b) (\<lambda>base.
      bind_io (lift_io (apply_simulator_events base tail_events (pi_generation pst \<noteq> []))) (\<lambda>sim.
      bind_io (lift_io (simulator_state_projection sim)) (\<lambda>sim_rows.
      let replay = pr_hot_replay pr @ sim_rows in
      bind_io (lift_io (project_hot tail_events)) (\<lambda>tail_pr.
      bind_io (parent_rows (pi_dir pst)) (\<lambda>rows.
      bind_io (lift_io (write_merged_indexes SEND_SORT_CHUNK_ROWS rows
          (rebase_commands (pi_history pst) (pr_commands tail_pr)) (pr_attempts tail_pr) (pi_history pst))) (\<lambda>mi.
      then_io (write_index_files gdir mi)
      (let c = \<lparr>k_history = pi_history pst + int (length tail_events), k_segment = int (length tail_events),
              k_commands = int (mi_commands mi), k_attempts = int (mi_attempts mi), k_hot = int (length replay)\<rparr> in
      then_io (atomic_json (path_join gdir ''checkpoint.json'')
        (JDict (dict_update (pr_checkpoint pr) (checkpoint_v2 (pi_generation pst) c))))
      (then_io (atomic_json (path_join gdir ''command-index.json'') (index_meta_json (mi_commands mi)))
      (then_io (write_hot_replay (record_bytes_budget b) (path_join gdir ''hot-replay.jsonl'') replay)
      (bind_io (lift_io (tail_header generation)) (\<lambda>mark.
      bind_io (if pi_generation pst \<noteq> []
          then bind_io (sha256_file (path_join (path_join store (pi_generation pst)) ''manifest.json'')) (\<lambda>(_, h). return_io h)
          else return_io []) (\<lambda>parent_sha.
      write_manifests_v2 gdir generation (pi_generation pst) parent_sha c mark [])))))))))))))))"

text \<open>The sentinel takes the place of the journal; a temporary file that was not renamed is
  removed whatever happened.\<close>

definition drop_temp :: "string \<Rightarrow> unit io" where
  "drop_temp temp = catch_io (\<lambda>e. e = not_found) (os_unlink temp) (return_io ())"

definition publish_tail :: "string \<Rightarrow> string \<Rightarrow> string \<Rightarrow> unit io" where
  "publish_tail journal ext mark =
     bind_io uuid4 (\<lambda>u.
     let temp = with_name journal (CHR ''.'' # path_name journal @ CHR ''.'' # u @ ext) in
     then_io (on_error_io
       (then_io (create_synced temp (\<lambda>fd. write_all fd mark))
       (then_io (durable_directory (path_parent journal))
       (os_replace temp journal))) (drop_temp temp))
     (durable_directory (path_parent journal)))"

definition store_path_ok :: "string \<Rightarrow> string \<Rightarrow> unit io" where
  "store_path_ok journal store =
     guard_io (store = journal @ ''.generations'') (GenerationError ''OMS_GENERATION_STORE_PATH_MISMATCH'')"

definition seal_from :: "string \<Rightarrow> string \<Rightarrow> string \<Rightarrow> dict option \<Rightarrow> budgets \<Rightarrow> nat \<Rightarrow> dict io" where
  "seal_from journal store generation current b journal_fd =
     bind_io (fstat journal_fd) (\<lambda>prior.
     then_io (require_private prior (GenerationError ''OMS_GENERATION_UNSAFE_JOURNAL''))
     (then_io (flock journal_fd)
     (bind_io (parent_state store current journal_fd (st_size prior) b) (\<lambda>pst.
     bind_io (read_fd journal_fd) (\<lambda>data.
     bind_io (lift_io (strict_records data (pi_start pst) (st_size prior) b)) (\<lambda>(raw_tail, tail_events).
     then_io (check_identity prior journal_fd journal (GenerationError ''OMS_GENERATION_JOURNAL_CHANGED''))
     (bind_io (seal_files store generation pst raw_tail tail_events b) (\<lambda>(m, runtime_digest).
     bind_io (sha256_file (path_join (path_join store generation) ''manifest.json'')) (\<lambda>(_, manifest_digest).
     bind_io (lift_io (tail_header generation)) (\<lambda>mark.
     then_io (publish_tail journal ''.tail.tmp'' mark)
     (then_io (publish_current store generation manifest_digest runtime_digest)
     (return_io m))))))))))))"

definition seal_generation :: "string \<Rightarrow> string \<Rightarrow> bool \<Rightarrow> budgets \<Rightarrow> dict io" where
  "seal_generation journal0 store0 stopped b =
     then_io (guard_io stopped (GenerationError ''OMS_GENERATION_STOP_ALL_WRITERS_REQUIRED''))
     (bind_io (resolve journal0) (\<lambda>journal. bind_io (resolve store0) (\<lambda>store.
     then_io (store_path_ok journal store)
     (then_io (mkdir_exist_ok store)
     (bind_io (lstat store) (\<lambda>st.
     then_io (require_private_directory st (GenerationError ''OMS_GENERATION_PRIVATE_STORE_REQUIRED''))
     (bind_io (read_current store) (\<lambda>current.
     bind_io (new_generation ''g'') (\<lambda>generation.
     then_io (mkdir (path_join store generation))
     (bind_io (open_read journal) (seal_from journal store generation current b)))))))))))"

subsection \<open>Rebasing\<close>

text \<open>The copy loops read blocks of one MiB and write each before the next.\<close>

definition copy_blocks :: "nat \<Rightarrow> exn \<Rightarrow> string \<Rightarrow> nat \<Rightarrow> unit io" where
  "copy_blocks fd short data sz =
     then_io (fold_io (\<lambda>_ block. write_all fd block) () (blocks BLOCK (take sz data)))
       (guard_io (sz \<le> length data) short)"

definition copy_private_file :: "string \<Rightarrow> string \<Rightarrow> unit io" where
  "copy_private_file source destination =
     bind_io (open_read source) (\<lambda>source_fd. bind_io (fstat source_fd) (\<lambda>prior.
     then_io (require_private prior (GenerationError ''OMS_GENERATION_REBASE_SOURCE_UNSAFE''))
     (bind_io (create_excl destination) (\<lambda>destination_fd.
      bind_io (read_fd source_fd) (\<lambda>data.
      then_io (copy_blocks destination_fd (GenerationError ''OMS_GENERATION_REBASE_SOURCE_IO_FAILURE'') data (st_size prior))
      (then_io (fsync destination_fd)
      (check_identity prior source_fd source (GenerationError ''OMS_GENERATION_REBASE_SOURCE_CHANGED''))))))))"

definition copy_generation_segment :: "string \<Rightarrow> nat \<Rightarrow> int \<Rightarrow> (nat \<times> nat) io" where
  "copy_generation_segment source destination_fd expected_records =
     bind_io (open_read source) (\<lambda>source_fd. bind_io (fstat source_fd) (\<lambda>prior.
     then_io (require_private prior (GenerationError ''OMS_GENERATION_REBASE_SEGMENT_UNSAFE''))
     (bind_io (read_fd source_fd) (\<lambda>data.
      then_io (copy_blocks destination_fd (GenerationError ''OMS_GENERATION_REBASE_SEGMENT_IO_FAILURE'') data (st_size prior))
      (then_io (check_identity prior source_fd source (GenerationError ''OMS_GENERATION_REBASE_SEGMENT_CHANGED''))
      (let copied = take (st_size prior) data; records = count_list copied LF in
       then_io (guard_io (int records = expected_records) (GenerationError ''OMS_GENERATION_REBASE_RECORD_MISMATCH''))
       (return_io (records, length copied))))))))"

definition prune_entry :: "string \<Rightarrow> string \<Rightarrow> unit io" where
  "prune_entry gdir n =
     bind_io (lstat (path_join gdir n)) (\<lambda>info.
     then_io (require_private info (GenerationError ''OMS_GENERATION_REBASE_PRUNE_UNSAFE''))
     (os_unlink (path_join gdir n)))"

definition prune_generation :: "string \<Rightarrow> nat \<Rightarrow> string \<Rightarrow> unit io" where
  "prune_generation store store_fd generation =
     (let gdir = path_join store generation in
      then_io (lift_io (tail_header generation))
      (bind_io (open_dir gdir) (\<lambda>fd. bind_io (fstat fd) (\<lambda>prior.
      then_io (require_private_directory prior (GenerationError ''OMS_GENERATION_REBASE_PRUNE_UNSAFE''))
      (bind_io (os_listdir fd) (\<lambda>ns.
      then_io (map_io (prune_entry gdir) ns)
      (then_io (os_fsync fd)
      (bind_io (lstat gdir) (\<lambda>named.
      then_io (guard_io (directory_identity prior = directory_identity named)
        (GenerationError ''OMS_GENERATION_REBASE_PRUNE_CHANGED''))
      (then_io (os_rmdir gdir) (os_fsync store_fd)))))))))))"

definition prune_generation_chain :: "string \<Rightarrow> string list \<Rightarrow> unit io" where
  "prune_generation_chain store generations =
     bind_io (open_dir store) (\<lambda>store_fd. bind_io (fstat store_fd) (\<lambda>info.
     then_io (require_private_directory info (GenerationError ''OMS_GENERATION_PRIVATE_STORE_REQUIRED''))
     (then_io (map_io (prune_generation store store_fd) generations) (return_io ()))))"

definition expected_records :: "dict \<Rightarrow> int res" where
  "expected_records m =
     (case get_default m (if is_v1 m then ''journal_records'' else ''segment_records'') JNull of
        JInt n \<Rightarrow> if n < 0 then Inl (GenerationError ''OMS_GENERATION_REBASE_RECORD_MISMATCH'') else Inr n
      | _ \<Rightarrow> Inl (GenerationError ''OMS_GENERATION_REBASE_RECORD_MISMATCH''))"

text \<open>The segments of the lineage, one after the other.\<close>

definition rebase_segment :: "string \<Rightarrow> string \<Rightarrow> chain \<Rightarrow> nat io" where
  "rebase_segment store gdir selected =
     bind_io (create_excl (path_join gdir SEGMENT)) (\<lambda>fd.
     bind_io (fold_io (\<lambda>records (g, m).
         then_io (verify_generation_v2 store (Some g) None)
         (bind_io (lift_io (expected_records m)) (\<lambda>n.
          bind_io (copy_generation_segment (path_join (path_join store g) SEGMENT) fd n) (\<lambda>(added, _).
          return_io (records + added))))) 0 selected) (\<lambda>records.
     then_io (fsync fd) (return_io records)))"

definition COPIED_FILES :: "string list" where
  "COPIED_FILES =
     [''command-index.tsv'', ''command-index.json'', ''runtime-command-index.tsv'', ''send-attempt-index.tsv'',
      ''hot-replay.jsonl'']"

definition chain_digest :: "string \<Rightarrow> chain \<Rightarrow> string io" where
  "chain_digest store c =
     bind_io (map_io (\<lambda>(g, _).
       bind_io (sha256_file (path_join (path_join store g) ''manifest.json'')) (\<lambda>(_, h).
       lift_io (encode_ascii (g @ TAB # h @ [LF])))) c) (\<lambda>ls.
     return_io (sha256 (concat ls)))"

definition rebase_files ::
  "string \<Rightarrow> string \<Rightarrow> string \<Rightarrow> dict \<Rightarrow> chain \<Rightarrow> string \<Rightarrow> string \<Rightarrow> (dict \<times> string) io"
where
  "rebase_files store generation source verified c lineage_digest mark =
     (let gdir = path_join store generation; source_dir = path_join store source;
          count_of = (\<lambda>k. int_field verified k 0); history = count_of ''history_records'' in
      bind_io (rebase_segment store gdir (selected_chain c)) (\<lambda>records.
      then_io (guard_io (int records = history) (GenerationError ''OMS_GENERATION_REBASE_RECORD_MISMATCH''))
      (then_io (map_io (\<lambda>n. copy_private_file (path_join source_dir n) (path_join gdir n)) COPIED_FILES)
      (bind_io (load_json_private (path_join source_dir ''checkpoint.json'')) (\<lambda>v.
       case v of
         JDict checkpoint \<Rightarrow>
           let k = \<lparr>k_history = history, k_segment = history, k_commands = count_of ''command_records'',
                    k_attempts = count_of ''send_attempt_records'', k_hot = count_of ''hot_replay_records''\<rparr> in
           then_io (atomic_json (path_join gdir ''checkpoint.json'') (JDict (dict_update checkpoint (checkpoint_v2 [] k))))
           (write_manifests_v2 gdir generation [] [] k mark
             [(''rebase_source_generation'', JStr source), (''rebase_source_generations'', JInt (int (length c))),
              (''rebase_source_chain_sha256'', JStr lineage_digest)])
       | _ \<Rightarrow> raise_io (GenerationError ''OMS_GENERATION_REBASE_CHECKPOINT_INVALID''))))))"

definition rebase_from :: "string \<Rightarrow> string \<Rightarrow> string \<Rightarrow> bool \<Rightarrow> dict io" where
  "rebase_from journal store source prune_ancestors =
     bind_io (verify_generation_v2 store (Some source) (Some journal)) (\<lambda>verified.
     bind_io (manifest_for store source) (\<lambda>sm.
     then_io (guard_io (py_eq (get_default sm ''schema'' JNull) (JStr SCHEMA_V2))
       (GenerationError ''OMS_GENERATION_REBASE_V2_REQUIRED''))
     (bind_io (tail_of_journal journal) (\<lambda>(info, parsed).
     then_io (guard_io (parsed = Some (source, st_size info)) (GenerationError ''OMS_GENERATION_REBASE_ACTIVE_TAIL_NOT_EMPTY''))
     (bind_io (generation_chain store source) (\<lambda>c.
     bind_io (chain_digest store c) (\<lambda>lineage_digest.
     bind_io (new_generation ''r'') (\<lambda>generation.
     then_io (mkdir (path_join store generation))
     (bind_io (lift_io (tail_header generation)) (\<lambda>mark.
     bind_io (rebase_files store generation source verified c lineage_digest mark) (\<lambda>(m, runtime_digest).
     bind_io (sha256_file (path_join (path_join store generation) ''manifest.json'')) (\<lambda>(_, manifest_digest).
     then_io (publish_tail journal ''.rebase-tail.tmp'' mark)
     (then_io (publish_current store generation manifest_digest runtime_digest)
     (then_io (verify_generation_v2 store (Some generation) (Some journal))
     (then_io (if prune_ancestors then prune_generation_chain store (map fst c) else return_io ())
     (return_io (m @ [(''result'', JStr ''PASS''),
        (''pruned_generations'', JInt (if prune_ancestors then int (length c) else 0))])))))))))))))))))"

definition rebase_generation :: "string \<Rightarrow> string \<Rightarrow> bool \<Rightarrow> bool \<Rightarrow> budgets \<Rightarrow> dict io" where
  "rebase_generation journal0 store0 stopped prune_ancestors b =
     then_io (guard_io stopped (GenerationError ''OMS_GENERATION_STOP_ALL_WRITERS_REQUIRED''))
     (bind_io (resolve journal0) (\<lambda>journal. bind_io (resolve store0) (\<lambda>store.
     then_io (store_path_ok journal store)
     (then_io (seal_generation journal store True b)
     (bind_io (read_current store) (\<lambda>current.
      case current of
        None \<Rightarrow> raise_io (GenerationError ''OMS_GENERATION_CURRENT_MISSING'')
      | Some d \<Rightarrow> rebase_from journal store (current_generation d) prune_ancestors))))))"

subsection \<open>Exporting\<close>

text \<open>\<open>path.mkdir(parents=True, exist_ok=True)\<close>; missing ancestors get mode \<open>0o777\<close>.\<close>

definition MODE_0777 :: nat where "MODE_0777 = 511"

lemma path_parent_shorter: "p \<noteq> [] \<Longrightarrow> length (path_parent p) < length p"
proof -
  assume "p \<noteq> []"
  have "length (dropWhile (\<lambda>c. c \<noteq> SLASH) (rev p)) \<le> length p"
    using length_dropWhile_le [of "\<lambda>c. c \<noteq> SLASH" "rev p"] by simp
  then have "length (drop 1 (dropWhile (\<lambda>c. c \<noteq> SLASH) (rev p))) \<le> length p - 1" by simp
  then show ?thesis using \<open>p \<noteq> []\<close> by (cases p) (auto simp: path_parent_def)
qed

function make_dirs :: "nat \<Rightarrow> string \<Rightarrow> unit io" where
  "make_dirs mode p os w =
     (let attempt = (\<lambda>w. case create_node (S_IFDIR + mode) 2 p os w of
            (Inl e, w') \<Rightarrow>
              if os_error e then
                (case path_is_dir p os w' of
                   (Inl e', w'') \<Rightarrow> (Inl e', w'')
                 | (Inr d, w'') \<Rightarrow> (if d then Inr () else Inl e, w''))
              else (Inl e, w')
          | (Inr _, w') \<Rightarrow> (Inr (), w'))
      in
      case create_node (S_IFDIR + mode) 2 p os w of
        (Inl e, w') \<Rightarrow>
          if e = not_found \<and> p \<noteq> [] then
            (case make_dirs MODE_0777 (path_parent p) os w' of
               (Inl e', w'') \<Rightarrow> (Inl e', w'')
             | (Inr _, w'') \<Rightarrow> attempt w'')
          else if os_error e then
            (case path_is_dir p os w' of
               (Inl e', w'') \<Rightarrow> (Inl e', w'')
             | (Inr d, w'') \<Rightarrow> (if d then Inr () else Inl e, w''))
          else (Inl e, w')
      | (Inr _, w') \<Rightarrow> (Inr (), w'))"
  by pat_completeness auto
termination
  by (relation "measure (\<lambda>(mode, p, os, w). length p)") (auto simp: path_parent_shorter)

declare make_dirs.simps [simp del]

definition py_int :: "json \<Rightarrow> int res" where
  "py_int v =
     (case v of
        JInt i \<Rightarrow> Inr i
      | JBool b \<Rightarrow> Inr (if b then 1 else 0)
      | JStr s \<Rightarrow> int_of_str s
      | JFloat (Finite s m e) \<Rightarrow> Inr (if s then - \<lfloor>mag_val m e\<rfloor> else \<lfloor>mag_val m e\<rfloor>)
      | JFloat NaN \<Rightarrow> Inl (ValueError ''cannot convert float NaN to integer'')
      | JFloat (Infinite _) \<Rightarrow> Inl (OverflowError ''cannot convert float infinity to integer'')
      | _ \<Rightarrow> Inl (TypeError ''int() argument must be a string or a number''))"

text \<open>Copying from an offset to the end; the records and bytes written.\<close>

definition export_range :: "nat \<Rightarrow> nat \<times> nat \<Rightarrow> string \<Rightarrow> nat \<Rightarrow> nat \<Rightarrow> (nat \<times> nat) io" where
  "export_range fd totals data offset sz =
     (let part = take (sz - offset) (drop offset data) in
      then_io (copy_blocks fd (GenerationError ''OMS_GENERATION_EXPORT_IO_FAILURE'') (drop offset data) (sz - offset))
      (return_io (fst totals + count_list part LF, snd totals + length part)))"

definition export_segment :: "string \<Rightarrow> nat \<Rightarrow> nat \<times> nat \<Rightarrow> string \<times> dict \<Rightarrow> (nat \<times> nat) io" where
  "export_segment store fd totals gm =
     then_io (verify_generation_v2 store (Some (fst gm)) None)
     (bind_io (open_read (path_join (path_join store (fst gm)) SEGMENT)) (\<lambda>source.
      bind_io (fstat source) (\<lambda>info.
      then_io (require_private info (GenerationError ''OMS_GENERATION_UNSAFE_SEGMENT''))
      (bind_io (read_fd source) (\<lambda>data. export_range fd totals data 0 (st_size info))))))"

definition tail_offset :: "string \<Rightarrow> dict \<Rightarrow> string \<Rightarrow> nat \<Rightarrow> int res" where
  "tail_offset generation m data sz =
     (if py_eq (get_default m ''schema'' JNull) (JStr SCHEMA_V2) then
        bind_res (parse_tail_header data sz) (\<lambda>parsed.
        case parsed of
          Some (g, n) \<Rightarrow> if g = generation then Inr (int n) else Inl (GenerationError ''OMS_ACTIVE_TAIL_LINEAGE_MISMATCH'')
        | None \<Rightarrow> Inl (GenerationError ''OMS_ACTIVE_TAIL_LINEAGE_MISMATCH''))
      else bind_res (py_item (JDict m) ''journal_prefix_bytes'') py_int)"

definition export_active :: "string \<Rightarrow> string \<Rightarrow> dict \<Rightarrow> nat \<Rightarrow> nat \<times> nat \<Rightarrow> (nat \<times> nat) io" where
  "export_active journal generation m fd totals =
     bind_io (open_read journal) (\<lambda>active. bind_io (fstat active) (\<lambda>info.
     then_io (require_private info (GenerationError ''OMS_GENERATION_UNSAFE_JOURNAL''))
     (bind_io (read_fd active) (\<lambda>data.
      bind_io (lift_io (tail_offset generation m data (st_size info))) (\<lambda>offset.
      then_io (guard_io (0 \<le> offset \<or> int (st_size info) \<le> offset) (OSError ''OSError''))
      (export_range fd totals data (nat offset) (st_size info)))))))"

definition check_export :: "'d zlib \<Rightarrow> string \<Rightarrow> nat \<times> nat \<Rightarrow> unit io" where
  "check_export z output totals =
     bind_io (open_read output) (\<lambda>check. bind_io (fstat check) (\<lambda>info.
     then_io (require_private info (GenerationError ''OMS_GENERATION_EXPORT_UNSAFE_OUTPUT''))
     (bind_io (read_fd check) (\<lambda>data.
      case validated_raw_records z data (st_size info)
          \<lparr>bytes_budget = max (snd totals) 1, records_budget = max (fst totals) 1, record_bytes_budget = 1024 * 1024\<rparr> of
        (rd, Some e) \<Rightarrow> raise_io e
      | (rd, None) \<Rightarrow>
          guard_io (length (rd_yielded rd) = fst totals) (GenerationError ''OMS_GENERATION_EXPORT_RECORD_MISMATCH'')))))"

definition export_legacy :: "'d zlib \<Rightarrow> string \<Rightarrow> string \<Rightarrow> string \<Rightarrow> dict io" where
  "export_legacy z journal store output =
     bind_io (read_current store) (\<lambda>current.
     case current of
       None \<Rightarrow> raise_io (GenerationError ''OMS_GENERATION_CURRENT_MISSING'')
     | Some d \<Rightarrow>
         let generation = current_generation d in
         bind_io (manifest_for store generation) (\<lambda>cm.
         then_io (verify_generation_v2 store (Some generation)
           (if py_eq (get_default cm ''schema'' JNull) (JStr SCHEMA_V2) then Some journal else None))
         (bind_io (generation_chain store generation) (\<lambda>c.
         bind_io (resolve (path_parent output)) (\<lambda>output_parent.
         then_io (make_dirs MODE_0700 output_parent)
         (bind_io (lstat output_parent) (\<lambda>st.
         then_io (require_private_directory st (GenerationError ''OMS_GENERATION_EXPORT_PRIVATE_DIRECTORY_REQUIRED''))
         (bind_io (create_excl output) (\<lambda>fd.
         bind_io (on_error_io
           (bind_io (fold_io (export_segment store fd) (0, 0) (selected_chain c)) (\<lambda>totals.
            bind_io (export_active journal generation (snd (last c)) fd totals) (\<lambda>totals'.
            then_io (fsync fd) (return_io totals'))))
           (drop_temp output)) (\<lambda>totals.
         then_io (durable_directory output_parent)
         (then_io (check_export z output totals)
         (return_io [(''schema'', JStr ''heptatrader.oms-downgrade-export.v1''), (''result'', JStr ''PASS''),
            (''generation'', JStr generation), (''records'', JInt (int (fst totals))),
            (''bytes'', JInt (int (snd totals))), (''authorization_effect'', JStr ''NONE'')]))))))))))))"

subsection \<open>Command line\<close>

datatype lifecycle_args =
    Seal string string bool
  | VerifyStore "string option" string "string option"
  | Rebase string string bool bool
  | Export string string string

fun lifecycle_main :: "'d zlib \<Rightarrow> lifecycle_args \<Rightarrow> (nat \<times> json) io" where
  "lifecycle_main z (Seal journal store stopped) = report_main (seal_generation journal store stopped default_budgets)"
| "lifecycle_main z (VerifyStore journal store generation) =
     report_main (verify_generation_v2 store generation journal)"
| "lifecycle_main z (Rebase journal store stopped prune) =
     report_main (rebase_generation journal store stopped prune default_budgets)"
| "lifecycle_main z (Export journal store output) = report_main (export_legacy z journal store output)"

end
