(* ===== verification/Seal_Safety.thy ===== *)
theory Seal_Safety
  imports File_Safety Generation_V2
begin

section \<open>Sealing a journal is safe at every interruption\<close>

text \<open>
  Verification, lookup and the walk over the generation chain only read. A seal writes into the
  directory of its new generation, then replaces the journal by the sentinel of that generation,
  then \<open>CURRENT\<close> and \<open>CURRENT.runtime\<close>. Whatever call fails, the records of the journal are
  in the journal or in the synced segment of the generation that the journal names.
\<close>

subsection \<open>Operations that only read\<close>

lemma reads_v1 [reads_calls]:
  "reads (verify_file ok gdir entry)" "reads (verify_index_files gdir m)" "reads (verify_checkpoint gdir m lines)"
  "reads (verify_replays gdir m)" "reads (verify_current_v1 store g c m h)" "reads (verify_parent_v1 store v)"
  unfolding verify_file_def verify_index_files_def verify_checkpoint_def verify_replays_def verify_current_v1_def
    verify_parent_v1_def Let_def
  by (intro reads_rules reads_calls)+

lemma reads_verify_manifest_v1 [reads_calls]: "reads (verify_manifest_v1 store g c m fs)"
  unfolding verify_manifest_v1_def Let_def by (intro reads_rules reads_calls)

lemma reads_verify_generation_v1 [reads_calls]: "reads (verify_generation_v1 store requested)"
  unfolding verify_generation_v1_def Let_def by (intro reads_rules reads_calls)

lemma reads_v2 [reads_calls]:
  "reads (private_lines limit p)" "reads (read_events e b p)" "reads (manifest_for store g)"
  "reads (parent_send_index_sorted d)" "reads (verify_runtime_current store g md rdg)" "reads (tail_of_journal j)"
  "reads (verify_files_v2 gdir m)"
  unfolding private_lines_def read_events_def manifest_for_def parent_send_index_sorted_def verify_runtime_current_def
    tail_of_journal_def verify_files_v2_def Let_def
  by (intro reads_rules reads_calls)+

lemma reads_v2_files [reads_calls]:
  "reads (read_hot_file b gdir)" "reads (read_segment_file b gdir)" "reads (verify_selected store g m j)"
  "reads (verify_parent_v2 store m)" "reads (verify_indexes_v2 gdir m rt)" "reads (parent_rows d)"
  unfolding read_hot_file_def read_segment_file_def verify_selected_def verify_parent_v2_def verify_indexes_v2_def
    parent_rows_def Let_def
  by (intro reads_rules reads_calls)+

lemma reads_verify_manifest_v2 [reads_calls]: "reads (verify_manifest_v2 store g c j m)"
  unfolding verify_manifest_v2_def Let_def by (intro reads_rules reads_calls)

lemma reads_verify_generation_v2 [reads_calls]: "reads (verify_generation_v2 store requested j)"
  unfolding verify_generation_v2_def Let_def by (intro reads_rules reads_calls)

lemma reads_chain_loop [reads_calls]: "reads (chain_loop n store seen g)"
proof (induction n arbitrary: seen g)
  case (Suc n)
  then show ?case by (simp only: chain_loop.simps) (intro reads_rules reads_calls)
qed (simp only: chain_loop.simps, intro reads_rules)

lemma reads_generation_chain [reads_calls]: "reads (generation_chain store g)"
proof (rule runsI)
  fix os w assume q: "quiet os"
  obtain r w' where c: "chain_loop (Suc (length (names (w_fs w)))) store [] g os w = (r, w')" by force
  have "w_fs w' = w_fs w" using reads_chain_loop q c by (rule readsD)
  then show "w_fs w = w_fs (snd (generation_chain store g os w))"
    using c by (cases r) (simp_all add: generation_chain_def)
qed

lemma reads_lookup_command: "reads (lookup_command store wanted h)"
  unfolding lookup_command_def Let_def by (intro reads_rules reads_calls)

subsection \<open>Values that are read\<close>

lemma open_read_InrE:
  assumes "open_read p os w = (Inr fd, w')" and "quiet os"
  shows "\<exists>nd. lookup_node (w_fs w) p = Some (fd, nd)"
  using assms unfolding open_read_def open_node_def
  by (cases rule: sysc_cases) (auto split: option.splits if_splits)

lemma read_fd_InrE:
  assumes "read_fd fd os w = (Inr d, w')" and "quiet os"
  shows "\<exists>nd. map_of (nodes (w_fs w)) fd = Some nd \<and> d = n_data nd"
  using assms unfolding read_fd_def
  by (cases rule: sysc_cases) (auto split: option.splits if_splits)

lemma fstat_InrE:
  assumes "fstat fd os w = (Inr st, w')" and "quiet os"
  shows "\<exists>nd. map_of (nodes (w_fs w)) fd = Some nd \<and> st = node_stat nd"
  using assms unfolding fstat_def
  by (cases rule: sysc_cases) (auto split: option.splits)

lemma require_private_InrE:
  "require_private st e os w = (Inr x, w') \<Longrightarrow> S_ISREG (st_mode st) \<and> w' = w"
  by (auto simp: require_private_def ask_def bind_io_def guard_io_def lift_io_def guard_res_def private_regular_def
      split: if_splits)

lemma sha256_file_InrE:
  assumes r: "sha256_file p os w = (Inr (k, h), w')" and q: "quiet os"
  shows "\<exists>i nd. lookup_node (w_fs w) p = Some (i, nd) \<and> k = length (n_data nd) \<and> h = sha256 (n_data nd)"
proof -
  from r obtain fd w1 st w2 u w3 d w4 v w5 where o: "open_read p os w = (Inr fd, w1)"
    and f: "fstat fd os w1 = (Inr st, w2)" and rp: "require_private st (GenerationError ''OMS_GENERATION_UNSAFE_FILE'') os w2 = (Inr u, w3)"
    and rd: "read_fd fd os w3 = (Inr d, w4)"
    and c: "check_identity st fd p (GenerationError ''OMS_GENERATION_FILE_CHANGED'') os w4 = (Inr v, w5)"
    and e: "return_io (length d, sha256 d) os w5 = (Inr (k, h), w')"
    unfolding sha256_file_def by (elim bind_io_InrE then_io_InrE)
  have "w_fs w3 = w_fs w"
    using readsD [OF reads_syscalls(1) q o] readsD [OF reads_syscalls(3) q f] require_private_InrE [OF rp] by simp
  moreover obtain nd where "lookup_node (w_fs w) p = Some (fd, nd)" using open_read_InrE [OF o q] by blast
  moreover obtain nd' where "map_of (nodes (w_fs w3)) fd = Some nd'" "d = n_data nd'" using read_fd_InrE [OF rd q] by blast
  ultimately show ?thesis using e lookup_nodeD by (auto simp: return_io_def)
qed

lemma sha256_file_stored:
  "sha256_file p os w = (Inr (k, h), w') \<Longrightarrow> quiet os \<Longrightarrow> stored (w_fs w) p d \<Longrightarrow> k = length d \<and> h = sha256 d"
  by (drule (1) sha256_file_InrE) (auto elim!: storedE)

text \<open>The manifest a generation has in the file system.\<close>

definition manifest_at :: "fs \<Rightarrow> string \<Rightarrow> string \<Rightarrow> dict option" where
  "manifest_at s store g =
     (case lookup_node s (path_join (path_join store g) ''manifest.json'') of
        None \<Rightarrow> None
      | Some (i, nd) \<Rightarrow> (case loads default_hooks (n_data nd) of Inr (JDict m) \<Rightarrow> Some m | _ \<Rightarrow> None))"

lemma load_json_private_InrE:
  assumes r: "load_json_private p os w = (Inr v, w')" and q: "quiet os"
  shows "\<exists>i nd. lookup_node (w_fs w) p = Some (i, nd) \<and> loads default_hooks (n_data nd) = Inr v"
proof -
  from r obtain fd w1 st w2 u w3 u' w4 d w5 u'' w6 v' w7 st' w8 u3 w9 where o: "open_read p os w = (Inr fd, w1)"
    and f: "fstat fd os w1 = (Inr st, w2)" and rp: "require_private st UNSAFE_METADATA os w2 = (Inr u, w3)"
    and g1: "guard_io (st_size st \<le> MAX_METADATA) UNSAFE_METADATA os w3 = (Inr u', w4)"
    and rd: "read_fd fd os w4 = (Inr d, w5)"
    and g2: "guard_io (length (take (Suc (st_size st)) d) = st_size st) METADATA_CHANGED os w5 = (Inr u'', w6)"
    and l: "lift_io (catch_res decode_failure (loads default_hooks (take (Suc (st_size st)) d))
         (GenerationError ''OMS_GENERATION_METADATA_INVALID'')) os w6 = (Inr v', w7)"
    and f2: "fstat fd os w7 = (Inr st', w8)" and g3: "guard_io (identity st = identity st') METADATA_CHANGED os w8 = (Inr u3, w9)"
    and e: "return_io v' os w9 = (Inr v, w')"
    unfolding load_json_private_def Let_def by (elim bind_io_InrE then_io_InrE)
  have w4: "w_fs w4 = w_fs w"
    using readsD [OF reads_syscalls(1) q o] readsD [OF reads_syscalls(3) q f] require_private_InrE [OF rp] g1
    by (auto simp: guard_io_def lift_io_def)
  obtain nd where nd: "lookup_node (w_fs w) p = Some (fd, nd)" using open_read_InrE [OF o q] by blast
  have "d = n_data nd" using read_fd_InrE [OF rd q] w4 nd by (auto dest: lookup_nodeD)
  moreover have "take (Suc (st_size st)) d = d"
    using g2 by (auto simp: guard_io_def lift_io_def guard_res_def split: if_splits)
  moreover have "loads default_hooks (take (Suc (st_size st)) d) = Inr v"
    using l e by (auto simp: lift_io_def return_io_def catch_res_def split: sum.splits if_splits)
  ultimately show ?thesis using nd by auto
qed

lemma manifest_for_InrE:
  assumes r: "manifest_for store g os w = (Inr m, w')" and q: "quiet os"
  shows "manifest_at (w_fs w) store g = Some m \<and> py_eq (get_default m ''generation'' JNull) (JStr g)"
proof -
  from r obtain v w1 where l: "load_json_private (path_join (path_join store g) ''manifest.json'') os w = (Inr v, w1)"
    and c: "(case v of JDict m \<Rightarrow>
         then_io (guard_io (py_eq (get_default m ''generation'' JNull) (JStr g))
           (GenerationError ''OMS_GENERATION_MANIFEST_INVALID'')) (return_io m)
     | _ \<Rightarrow> raise_io (GenerationError ''OMS_GENERATION_MANIFEST_INVALID'')) os w1 = (Inr m, w')"
    unfolding manifest_for_def by (rule bind_io_InrE)
  have v: "v = JDict m \<and> py_eq (get_default m ''generation'' JNull) (JStr g)"
    using c by (cases v) (auto simp: raise_io_def then_io_def bind_io_def guard_io_def lift_io_def guard_res_def
        return_io_def split: if_splits)
  then show ?thesis using load_json_private_InrE [OF l q] by (auto simp: manifest_at_def)
qed

text \<open>The inventory lists every file with its length and digest.\<close>

definition inventory_of :: "(string \<rightharpoonup> string) \<Rightarrow> string list \<Rightarrow> inventory" where
  "inventory_of C ns = map (\<lambda>n. (n, length (the (C n)), sha256 (the (C n)))) ns"

lemma file_digests_filled:
  assumes "file_digests gdir ns os w = (Inr items, w')" and q: "quiet os" and "filled (w_fs w) gdir C" and "set ns \<subseteq> dom C"
  shows "items = inventory_of C ns"
  using assms(1,3,4) unfolding file_digests_def
proof (induction ns arbitrary: items w w')
  case Nil
  then show ?case by (simp add: return_io_def inventory_of_def)
next
  case (Cons n ns)
  from Cons.prems(1) obtain k h w1 ys w2 where d: "sha256_file (path_join gdir n) os w = (Inr (k, h), w1)"
    and m: "map_io (\<lambda>n. bind_io (sha256_file (path_join gdir n)) (\<lambda>d. return_io (n, d))) ns os w1 = (Inr ys, w2)"
    and items: "items = (n, k, h) # ys"
    by (fastforce simp: return_io_def [of "(n, _)"] return_io_def [of "_ # _"] elim!: bind_io_InrE)
  obtain d where c: "C n = Some d" using Cons.prems(3) by auto
  have "w_fs w1 = w_fs w" using reads_readers(4) q d by (rule readsD)
  moreover have "k = length d \<and> h = sha256 d"
    using sha256_file_stored [OF d q] c Cons.prems(2) by (simp add: filled_def)
  ultimately show ?case using Cons.IH [OF m] Cons.prems(2,3) items c by (simp add: inventory_of_def)
qed

subsection \<open>The files of a new generation\<close>

lemma keeps_write_index_files: "leaves A F (write_index_files gdir mi)"
  unfolding write_index_files_def
  by (intro keeps_create_excl keeps_rules keeps_fsync keeps_create_synced) simp_all

lemma write_index_files_filled:
  assumes f: "filled (w_fs w) gdir C" and r: "write_index_files gdir mi os w = (Inr x, w')" and q: "quiet os"
  shows "filled (w_fs w') gdir (C(''runtime-command-index.tsv'' \<mapsto> mi_runtime mi, ''command-index.tsv'' \<mapsto> mi_legacy mi,
    ''send-attempt-index.tsv'' \<mapsto> mi_send mi))"
proof -
  let ?p = "path_join gdir ''runtime-command-index.tsv''" and ?l = "path_join gdir ''command-index.tsv''"
  from r obtain i w1 j w2 u3 w3 u4 w4 u5 w5 u6 w6 where
    c1: "create_excl ?p os w = (Inr i, w1)" and c2: "create_excl ?l os w1 = (Inr j, w2)"
    and a1: "write_all i (mi_runtime mi) os w2 = (Inr u3, w3)" and a2: "write_all j (mi_legacy mi) os w3 = (Inr u4, w4)"
    and s1: "fsync i os w4 = (Inr u5, w5)" and s2: "fsync j os w5 = (Inr u6, w6)"
    and c3: "create_synced (path_join gdir ''send-attempt-index.tsv'') (\<lambda>fd. write_all fd (mi_send mi)) os w6 = (Inr x, w')"
    unfolding write_index_files_def by (elim bind_io_InrE then_io_InrE)
  have p2: "placed (w_fs w2) ?p i [] \<and> i \<noteq> j" using placed_create(2) [OF c2 q placed_create(1) [OF c1 q]] .
  have l2: "placed (w_fs w2) ?l j []" using placed_create(1) [OF c2 q] .
  have p4: "placed (w_fs w4) ?p i (mi_runtime mi)"
    using placed_write(2) [OF a2 q placed_write(1) [OF a1 q, of ?p "[]"]] p2 by simp
  have l4: "placed (w_fs w4) ?l j (mi_legacy mi)"
    using placed_write(1) [OF a2 q placed_write(2) [OF a1 q l2]] p2 by simp
  have k6: "kept {} {} (w_fs w5) (w_fs w6)" using keeps_fsync q s2 by (rule runsD)
  have p6: "stored (w_fs w6) ?p (mi_runtime mi)" using stored_kept [OF placed_fsync(1) [OF s1 q p4] k6] by simp
  have l6: "stored (w_fs w6) ?l (mi_legacy mi)" using placed_fsync(1) [OF s2 q placed_fsync(2) [OF s1 q l4]] .
  have "leaves {} {} (bind_io (create_excl ?p) (\<lambda>i. bind_io (create_excl ?l) (\<lambda>j.
      then_io (write_all i (mi_runtime mi)) (then_io (write_all j (mi_legacy mi)) (then_io (fsync i) (fsync j))))))"
    by (intro keeps_create_excl keeps_rules keeps_fsync) simp_all
  moreover have "bind_io (create_excl ?p) (\<lambda>i. bind_io (create_excl ?l) (\<lambda>j.
      then_io (write_all i (mi_runtime mi)) (then_io (write_all j (mi_legacy mi)) (then_io (fsync i) (fsync j))))) os w =
      (Inr u6, w6)"
    using c1 c2 a1 a2 s1 s2 by (simp add: bind_io_def then_io_def)
  ultimately have "kept {} {} (w_fs w) (w_fs w6)" using q runsD by blast
  then have "filled (w_fs w6) gdir C" using f filled_kept by blast
  then have "filled (w_fs w6) gdir (C(''runtime-command-index.tsv'' \<mapsto> mi_runtime mi, ''command-index.tsv'' \<mapsto> mi_legacy mi))"
    using p6 l6 by (intro filledI_update) (simp_all add: SLASH_def)
  then show ?thesis
    by (rule filled_create [OF _ c3 q _ appends_write_all]) (simp_all add: SLASH_def keeps_write_all)
qed

lemma write_rows_filled:
  assumes "filled (w_fs w) gdir C" and "write_rows Inr (path_join gdir n) rows os w = (Inr x, w')" and "quiet os" and "SLASH \<notin> set n"
  shows "filled (w_fs w') gdir (C(n \<mapsto> concat rows))"
proof -
  have "appends (\<lambda>fd. fold_io (\<lambda>_ r. bind_io (lift_io (Inr r)) (write_all fd)) () rows) (concat (map (\<lambda>r. r) rows))"
    by (rule appends_rows) simp
  moreover have "leaves {} {fd} (fold_io (\<lambda>_ r. bind_io (lift_io (Inr r)) (write_all fd)) () rows)" for fd
    by (intro keeps_rules) simp
  ultimately show ?thesis
    using filled_create [OF assms(1) assms(2) [unfolded write_rows_def] assms(3,4)] by simp
qed

lemma write_hot_replay_filled:
  assumes "filled (w_fs w) gdir C" and "write_hot_replay k (path_join gdir n) rows os w = (Inr x, w')" and "quiet os" and "SLASH \<notin> set n"
  shows "filled (w_fs w') gdir (C(n \<mapsto> concat (map (json_line \<circ> JDict) rows)))"
proof (rule filled_create [OF assms(1) assms(2) [unfolded write_hot_replay_def Let_def] assms(3,4)])
  have g: "appends (\<lambda>fd. guard_io b e) []" for b e
    by (auto simp: appends_def guard_io_def lift_io_def guard_res_def split: if_splits)
  show "appends (\<lambda>fd. fold_io (\<lambda>_ row. then_io (guard_io (length (json_line (JDict row)) \<le> k)
      (GenerationError ''OMS_GENERATION_HOT_RECORD_LIMIT'')) (write_all fd (json_line (JDict row)))) () rows)
    (concat (map (json_line \<circ> JDict) rows))"
  proof (rule appends_fold)
    fix row
    show "appends (\<lambda>fd. then_io (guard_io (length (json_line (JDict row)) \<le> k)
      (GenerationError ''OMS_GENERATION_HOT_RECORD_LIMIT'')) (write_all fd (json_line (JDict row)))) ((json_line \<circ> JDict) row)"
      using appends_then [OF g appends_write_all] by simp
  qed
qed (intro keeps_rules, simp)

abbreviation in_dir :: "string \<Rightarrow> string set" where
  "in_dir d \<equiv> {p. path_parent p = d}"

lemma in_dir_join: "SLASH \<notin> set n \<Longrightarrow> path_join d n \<in> in_dir d"
  by (simp add: path_parent_join)

lemmas write_keeps =
  keeps_write_rows keeps_write_hot_replay keeps_write_index_files keeps_atomic_json keeps_atomic_bytes
  keeps_durable_directory keeps_mkdir keeps_mkdir_exist_ok keeps_fsync keeps_create_excl keeps_create_synced

lemma keeps_write_manifests_v2: "leaves (in_dir gdir) F (write_manifests_v2 gdir g parent sha c mark extra)"
  unfolding write_manifests_v2_def Let_def
  by (intro keeps_rules write_keeps reads_calls [THEN reads_keeps] in_dir_join) (simp_all add: SLASH_def)

lemma reads_reconstruct [reads_calls]: "reads (reconstruct_simulator_state store g b)"
  unfolding reconstruct_simulator_state_def by (intro reads_rules reads_calls)

lemma reads_simulator_base [reads_calls]: "reads (simulator_base store pst b)"
  unfolding simulator_base_def by (intro reads_rules reads_calls)

lemma reads_parent_state [reads_calls]: "reads (parent_state store current fd sz b)"
  unfolding parent_state_def Let_def by (intro reads_rules reads_calls)

lemma keeps_seal_files: "leaves (in_dir (path_join store g)) F (seal_files store g pst raw evs b)"
  unfolding seal_files_def Let_def
  by (intro keeps_rules write_keeps keeps_write_manifests_v2 reads_calls [THEN reads_keeps] in_dir_join)
    (simp_all add: SLASH_def)

definition GENERATION_FILES :: "string list" where
  "GENERATION_FILES = PRELIMINARY @ [''runtime-manifest.txt'', ''manifest.json'']"

text \<open>All files of the directory are stored with content \<open>C\<close> and their names are durable.\<close>

definition complete :: "fs \<Rightarrow> string \<Rightarrow> (string \<rightharpoonup> string) \<Rightarrow> bool" where
  "complete s gdir C \<longleftrightarrow> filled s gdir C \<and> dom C = set GENERATION_FILES \<and>
     (\<forall>n \<in> dom C. path_join gdir n \<in> set (durable s))"

lemma GENERATION_FILES_plain: "n \<in> set GENERATION_FILES \<Longrightarrow> SLASH \<notin> set n"
  by (auto simp: GENERATION_FILES_def PRELIMINARY_def SLASH_def)

lemma write_manifests_v2_complete:
  assumes f: "filled (w_fs w) gdir C" and d: "dom C = set PRELIMINARY" and q: "quiet os"
    and r: "write_manifests_v2 gdir g parent sha c mark extra os w = (Inr (m, h), w')"
  shows "\<exists>rt. h = sha256 rt \<and>
    runtime_manifest_bytes_v2 g parent sha c mark (digests_of (inventory_of C PRELIMINARY)) = Inr rt \<and>
    m = manifest_v2 g parent sha c mark h (inventory_of (C(''runtime-manifest.txt'' \<mapsto> rt)) (PRELIMINARY @ [''runtime-manifest.txt''])) extra \<and>
    complete (w_fs w') gdir (C(''runtime-manifest.txt'' \<mapsto> rt, ''manifest.json'' \<mapsto> json_line (JDict m)))"
proof -
  from r obtain items w1 rt w2 u3 w3 k h' w4 m' u5 w5 u6 w6 where
    i: "file_digests gdir PRELIMINARY os w = (Inr items, w1)"
    and t: "lift_io (runtime_manifest_bytes_v2 g parent sha c mark (digests_of items)) os w1 = (Inr rt, w2)"
    and a: "atomic_bytes (path_join gdir ''runtime-manifest.txt'') rt os w2 = (Inr u3, w3)"
    and s: "sha256_file (path_join gdir ''runtime-manifest.txt'') os w3 = (Inr (k, h'), w4)"
    and m': "m' = manifest_v2 g parent sha c mark h' (items @ [(''runtime-manifest.txt'', k, h')]) extra"
    and j: "atomic_json (path_join gdir ''manifest.json'') (JDict m') os w4 = (Inr u5, w5)"
    and dd: "durable_directory gdir os w5 = (Inr u6, w6)" and e: "return_io (m', h') os w6 = (Inr (m, h), w')"
    unfolding write_manifests_v2_def Let_def by (elim bind_io_InrE then_io_InrE) (auto elim!: bind_io_InrE then_io_InrE)
  have e': "m = m'" "h = h'" "w' = w6" using e by (auto simp: return_io_def)
  have w2: "w_fs w2 = w_fs w" and t': "runtime_manifest_bytes_v2 g parent sha c mark (digests_of items) = Inr rt"
    using reads_readers(10) [THEN readsD, OF q i] t by (auto simp: lift_io_def)
  let ?C = "C(''runtime-manifest.txt'' \<mapsto> rt)"
  have items: "items = inventory_of C PRELIMINARY" using file_digests_filled [OF i q f] d by simp
  have f3: "filled (w_fs w3) gdir ?C"
    using filled_atomic [OF _ a q] f w2 by (simp add: SLASH_def)
  have kh: "k = length rt \<and> h' = sha256 rt"
    using sha256_file_stored [OF s q] f3 by (simp add: filled_def)
  have "filled (w_fs w4) gdir ?C" using f3 reads_readers(4) [THEN readsD, OF q s] by simp
  then have f5: "filled (w_fs w5) gdir (?C(''manifest.json'' \<mapsto> json_line (JDict m)))"
    using filled_atomic_json [OF _ j q] by (simp add: SLASH_def e')
  have "kept {} {} (w_fs w5) (w_fs w6)" using keeps_durable_directory q dd by (rule runsD)
  then have f6: "filled (w_fs w6) gdir (?C(''manifest.json'' \<mapsto> json_line (JDict m)))" using f5 filled_kept by blast
  have dom: "dom (?C(''manifest.json'' \<mapsto> json_line (JDict m))) = set GENERATION_FILES"
    using d by (auto simp: GENERATION_FILES_def)
  have "path_join gdir n \<in> set (durable (w_fs w6))" if n: "n \<in> set GENERATION_FILES" for n
  proof -
    obtain x where "stored (w_fs w5) (path_join gdir n) x" using f5 n dom unfolding filled_def by blast
    then obtain i where "map_of (names (w_fs w5)) (path_join gdir n) = Some i" by (auto elim!: storedE dest!: lookup_nodeD)
    then show ?thesis using durable_directory_entries [OF dd q] path_parent_join GENERATION_FILES_plain [OF n] by blast
  qed
  then have "complete (w_fs w') gdir (?C(''manifest.json'' \<mapsto> json_line (JDict m)))"
    using f6 dom e' by (simp add: complete_def)
  moreover have "m = manifest_v2 g parent sha c mark h (inventory_of ?C (PRELIMINARY @ [''runtime-manifest.txt''])) extra"
    using e' m' kh items by (simp add: inventory_of_def PRELIMINARY_def)
  ultimately show ?thesis using kh t' items e' by blast
qed

lemma seal_files_complete:
  assumes r: "seal_files store g pst raw evs b os w = (Inr (m, h), w')" and q: "quiet os"
  shows "\<exists>C. complete (w_fs w') (path_join store g) C \<and> C SEGMENT = Some (concat raw) \<and>
    C ''manifest.json'' = Some (json_line (JDict m)) \<and> h = sha256 (the (C ''runtime-manifest.txt'')) \<and>
    (\<exists>parent sha c mark. m = manifest_v2 g parent sha c mark h (inventory_of C (PRELIMINARY @ [''runtime-manifest.txt''])) [])"
proof -
  let ?g = "path_join store g"
  let ?q = "\<lambda>n. SLASH \<notin> set n"
  from r obtain u1 w1 pr w2 base w3 sim w4 rows w5 tpr w6 prows w7 mi w8 u9 w9 u10 w10 u11 w11 u12 w12 mark w13 sha w14 c replay where
    1: "write_rows Inr (path_join ?g SEGMENT) raw os w = (Inr u1, w1)"
    and 2: "lift_io (project_hot (pi_hot pst @ evs)) os w1 = (Inr pr, w2)"
    and 3: "simulator_base store pst b os w2 = (Inr base, w3)"
    and 4: "lift_io (apply_simulator_events base evs (pi_generation pst \<noteq> [])) os w3 = (Inr sim, w4)"
    and 5: "lift_io (simulator_state_projection sim) os w4 = (Inr rows, w5)"
    and 6: "lift_io (project_hot evs) os w5 = (Inr tpr, w6)"
    and 7: "parent_rows (pi_dir pst) os w6 = (Inr prows, w7)"
    and 8: "lift_io (write_merged_indexes SEND_SORT_CHUNK_ROWS prows (rebase_commands (pi_history pst) (pr_commands tpr))
       (pr_attempts tpr) (pi_history pst)) os w7 = (Inr mi, w8)"
    and 9: "write_index_files ?g mi os w8 = (Inr u9, w9)"
    and 10: "atomic_json (path_join ?g ''checkpoint.json'')
        (JDict (dict_update (pr_checkpoint pr) (checkpoint_v2 (pi_generation pst) c))) os w9 = (Inr u10, w10)"
    and 11: "atomic_json (path_join ?g ''command-index.json'') (index_meta_json (mi_commands mi)) os w10 = (Inr u11, w11)"
    and 12: "write_hot_replay (record_bytes_budget b) (path_join ?g ''hot-replay.jsonl'') replay os w11 = (Inr u12, w12)"
    and 13: "lift_io (tail_header g) os w12 = (Inr mark, w13)"
    and 14: "(if pi_generation pst \<noteq> []
          then bind_io (sha256_file (path_join (path_join store (pi_generation pst)) ''manifest.json'')) (\<lambda>(_, h). return_io h)
          else return_io []) os w13 = (Inr sha, w14)"
    and 15: "write_manifests_v2 ?g g (pi_generation pst) sha c mark [] os w14 = (Inr (m, h), w')"
    unfolding seal_files_def Let_def by (elim bind_io_InrE then_io_InrE)
  have s1: "w_fs w8 = w_fs w1"
    using 2 4 5 6 8 readsD [OF reads_simulator_base q 3] readsD [OF reads_v2_files(6) q 7] by (auto simp: lift_io_def)
  have "reads (if pi_generation pst \<noteq> []
          then bind_io (sha256_file (path_join (path_join store (pi_generation pst)) ''manifest.json'')) (\<lambda>(_, h). return_io h)
          else return_io [])"
    by (intro reads_rules reads_calls)
  then have "w_fs w14 = w_fs w13" using q 14 by (rule readsD)
  then have s14: "w_fs w14 = w_fs w12" using 13 by (auto simp: lift_io_def)
  have f0: "filled (w_fs w) ?g Map.empty" by (simp add: filled_def)
  have f1: "filled (w_fs w8) ?g [SEGMENT \<mapsto> concat raw]"
    using write_rows_filled [OF f0 1 q] s1 by (simp add: SEGMENT_def SLASH_def)
  have f10: "filled (w_fs w10) ?g ([SEGMENT \<mapsto> concat raw, ''runtime-command-index.tsv'' \<mapsto> mi_runtime mi,
      ''command-index.tsv'' \<mapsto> mi_legacy mi, ''send-attempt-index.tsv'' \<mapsto> mi_send mi,
      ''checkpoint.json'' \<mapsto> json_line (JDict (dict_update (pr_checkpoint pr) (checkpoint_v2 (pi_generation pst) c)))])"
    by (rule filled_atomic_json [OF write_index_files_filled [OF f1 9 q] 10 q]) (simp add: SLASH_def)
  have f11: "filled (w_fs w11) ?g ([SEGMENT \<mapsto> concat raw, ''runtime-command-index.tsv'' \<mapsto> mi_runtime mi,
      ''command-index.tsv'' \<mapsto> mi_legacy mi, ''send-attempt-index.tsv'' \<mapsto> mi_send mi,
      ''checkpoint.json'' \<mapsto> json_line (JDict (dict_update (pr_checkpoint pr) (checkpoint_v2 (pi_generation pst) c))),
      ''command-index.json'' \<mapsto> json_line (index_meta_json (mi_commands mi))])"
    by (rule filled_atomic_json [OF f10 11 q]) (simp add: SLASH_def)
  let ?C = "[SEGMENT \<mapsto> concat raw, ''runtime-command-index.tsv'' \<mapsto> mi_runtime mi,
      ''command-index.tsv'' \<mapsto> mi_legacy mi, ''send-attempt-index.tsv'' \<mapsto> mi_send mi,
      ''checkpoint.json'' \<mapsto> json_line (JDict (dict_update (pr_checkpoint pr) (checkpoint_v2 (pi_generation pst) c))),
      ''command-index.json'' \<mapsto> json_line (index_meta_json (mi_commands mi)),
      ''hot-replay.jsonl'' \<mapsto> concat (map (json_line \<circ> JDict) replay)]"
  have f12: "filled (w_fs w14) ?g ?C"
    unfolding s14 by (rule write_hot_replay_filled [OF f11 12 q]) (simp add: SLASH_def)
  have "dom ?C = set PRELIMINARY" by (auto simp: PRELIMINARY_def SEGMENT_def)
  from write_manifests_v2_complete [OF f12 this q 15] obtain rt where
    rt: "h = sha256 rt"
      "m = manifest_v2 g (pi_generation pst) sha c mark h (inventory_of (?C(''runtime-manifest.txt'' \<mapsto> rt)) (PRELIMINARY @ [''runtime-manifest.txt''])) []"
      "complete (w_fs w') ?g (?C(''runtime-manifest.txt'' \<mapsto> rt, ''manifest.json'' \<mapsto> json_line (JDict m)))"
    by blast
  have "inventory_of (?C(''runtime-manifest.txt'' \<mapsto> rt, ''manifest.json'' \<mapsto> json_line (JDict m))) (PRELIMINARY @ [''runtime-manifest.txt'']) =
    inventory_of (?C(''runtime-manifest.txt'' \<mapsto> rt)) (PRELIMINARY @ [''runtime-manifest.txt''])"
    by (simp add: inventory_of_def PRELIMINARY_def)
  then show ?thesis
    using rt by (intro exI [of _ "?C(''runtime-manifest.txt'' \<mapsto> rt, ''manifest.json'' \<mapsto> json_line (JDict m))"]) (auto simp: SEGMENT_def)
qed

subsection \<open>Publishing\<close>

lemma create_synced_valid:
  assumes q: "quiet os" and f: "appends body d" and k: "\<And>fd. leaves {} {fd} (body fd)"
  shows "valid os ((=) s0) (create_synced p body)
    (\<lambda>_ s. kept {} {} s0 s \<and> stored s p d \<and> map_of (names s0) p = None) (kept {} {} s0)"
proof (rule validI)
  have k': "leaves {} {} (create_synced p body)" by (rule keeps_create_synced) (rule keeps_mono [OF k], auto)
  fix w e w' assume "s0 = w_fs w" "create_synced p body os w = (Inl e, w')"
  then show "kept {} {} s0 (w_fs w')" using runsD [OF k' q] by simp
next
  have k': "leaves {} {} (create_synced p body)" by (rule keeps_create_synced) (rule keeps_mono [OF k], auto)
  fix w x w' assume s0: "s0 = w_fs w" and c: "create_synced p body os w = (Inr x, w')"
  from c obtain fd w1 where "create_excl p os w = (Inr fd, w1)" unfolding create_synced_def by (rule bind_io_InrE)
  then have "map_of (names s0) p = None" using q s0 by (cases rule: create_excl_cases) auto
  then show "kept {} {} s0 (w_fs w') \<and> stored (w_fs w') p d \<and> map_of (names s0) p = None"
    using runsD [OF k' q c] create_synced_stored [OF c q f k] s0 by simp
qed

lemma keeps_drop_temp: "t \<in> A \<Longrightarrow> leaves A F (drop_temp t)"
  unfolding drop_temp_def by (intro keeps_rules)

text \<open>The sentinel replaces the journal in one step.\<close>

lemma swap_valid:
  assumes q: "quiet os" and ne: "t \<noteq> journal"
  shows "valid os ((=) s0) (then_io (create_synced t (\<lambda>fd. write_all fd mark))
       (then_io (durable_directory d) (os_replace t journal)))
     (\<lambda>_ s. stored s journal mark \<and> kept {journal} {} s0 s) (kept {} {} s0)"
proof (rule valid_then)
  show "valid os ((=) s0) (create_synced t (\<lambda>fd. write_all fd mark))
    (\<lambda>_ s. kept {} {} s0 s \<and> stored s t mark \<and> map_of (names s0) t = None) (kept {} {} s0)"
    by (rule create_synced_valid [OF q appends_write_all]) (intro keeps_rules, simp)
  show "valid os (\<lambda>s. kept {} {} s0 s \<and> stored s t mark \<and> map_of (names s0) t = None)
     (then_io (durable_directory d) (os_replace t journal))
     (\<lambda>_ s. stored s journal mark \<and> kept {journal} {} s0 s) (kept {} {} s0)"
  proof (rule valid_then)
    show "valid os (\<lambda>s. kept {} {} s0 s \<and> stored s t mark \<and> map_of (names s0) t = None) (durable_directory d)
      (\<lambda>_ s. kept {} {} s0 s \<and> stored s t mark \<and> map_of (names s0) t = None) (kept {} {} s0)"
      by (rule valid_runs [OF keeps_durable_directory [of "{}" "{}"] q]) (auto intro: kept_trans stored_kept)
    show "valid os (\<lambda>s. kept {} {} s0 s \<and> stored s t mark \<and> map_of (names s0) t = None) (os_replace t journal)
      (\<lambda>_ s. stored s journal mark \<and> kept {journal} {} s0 s) (kept {} {} s0)"
    proof (rule validI)
      fix w e w'
      assume "kept {} {} s0 (w_fs w) \<and> stored (w_fs w) t mark \<and> map_of (names s0) t = None"
        and r: "os_replace t journal os w = (Inl e, w')"
      then show "kept {} {} s0 (w_fs w')" using q by (cases rule: os_replace_cases [OF r q]) auto
    next
      fix w x w'
      assume h: "kept {} {} s0 (w_fs w) \<and> stored (w_fs w) t mark \<and> map_of (names s0) t = None"
        and r: "os_replace t journal os w = (Inr x, w')"
      have "kept {t, journal} {} (w_fs w) (w_fs w')" by (rule runsD [OF keeps_os_replace q r]) simp_all
      moreover have "kept {t, journal} {} s0 (w_fs w)" using h kept_mono by blast
      ultimately have "kept {t, journal} {} s0 (w_fs w')" by (rule kept_trans [rotated])
      then have "kept {journal} {} s0 (w_fs w')" using h kept_new_name by blast
      then show "stored (w_fs w') journal mark \<and> kept {journal} {} s0 (w_fs w')"
        using replace_stored [OF r q] h ne by auto
    qed
  qed
qed

lemma publish_tail_outcome:
  assumes r: "publish_tail journal ext mark os w = (r, w')" and q: "quiet os"
  shows "(\<exists>t e. r = Inl e \<and> t \<noteq> journal \<and> (\<exists>p. t = p @ ext) \<and> kept {t} {} (w_fs w) (w_fs w')) \<or>
    (stored (w_fs w') journal mark \<and> kept {journal} {} (w_fs w) (w_fs w'))"
proof -
  obtain ru w1 where u: "uuid4 os w = (ru, w1)" by force
  have w1: "w_fs w1 = w_fs w" using reads_syscalls(11) q u by (rule readsD)
  show ?thesis
  proof (cases ru)
    case (Inl e)
    then have "r = Inl e" "w' = w1" using r u by (simp_all add: publish_tail_def bind_io_def)
    moreover have "path_parent journal @ SLASH # CHR ''.'' # path_name journal @ CHR ''.'' # ext \<noteq> journal"
      using with_name_longer [of journal "CHR ''.'' # path_name journal @ CHR ''.'' # ext"] by (simp add: with_name_def)
    moreover have "kept {path_parent journal @ SLASH # CHR ''.'' # path_name journal @ CHR ''.'' # ext} {} (w_fs w) (w_fs w1)"
      unfolding w1 by (rule kept_refl)
    moreover have "path_parent journal @ SLASH # CHR ''.'' # path_name journal @ CHR ''.'' # ext =
      (path_parent journal @ SLASH # CHR ''.'' # path_name journal @ [CHR ''.'']) @ ext"
      by simp
    ultimately show ?thesis by blast
  next
    case (Inr v)
    let ?t = "with_name journal (CHR ''.'' # path_name journal @ CHR ''.'' # v @ ext)"
    let ?m = "then_io (create_synced ?t (\<lambda>fd. write_all fd mark))
       (then_io (durable_directory (path_parent journal)) (os_replace ?t journal))"
    have ne: "?t \<noteq> journal" by (rule with_name_longer) simp
    have e: "\<exists>p. ?t = p @ ext" by (rule exI [of _ "path_parent journal @ SLASH # CHR ''.'' # path_name journal @ CHR ''.'' # v"]) (simp add: with_name_def)
    have run: "then_io (on_error_io ?m (drop_temp ?t)) (durable_directory (path_parent journal)) os w1 = (r, w')"
      using r u Inr by (simp add: publish_tail_def bind_io_def Let_def)
    obtain rm w2 where m: "?m os w1 = (rm, w2)" by force
    show ?thesis
    proof (cases rm)
      case (Inl x)
      obtain rd w3 where d: "drop_temp ?t os w2 = (rd, w3)" by force
      have "kept {} {} (w_fs w1) (w_fs w2)" using valid_Inl [OF swap_valid [OF q ne] refl] m Inl by simp
      then have "kept {?t} {} (w_fs w1) (w_fs w2)" using kept_mono by blast
      moreover have "kept {?t} {} (w_fs w2) (w_fs w3)" using keeps_drop_temp q d by (rule runsD) simp
      ultimately have "kept {?t} {} (w_fs w) (w_fs w3)" unfolding w1 by (rule kept_trans)
      moreover have "\<exists>e. r = Inl e" "w' = w3"
        using run m Inl d by (auto simp: then_io_def bind_io_def on_error_io_def split: sum.splits)
      ultimately show ?thesis using ne e by blast
    next
      case (Inr x)
      have s: "stored (w_fs w2) journal mark \<and> kept {journal} {} (w_fs w1) (w_fs w2)"
        using valid_Inr [OF swap_valid [OF q ne] refl] m Inr by simp
      have "durable_directory (path_parent journal) os w2 = (r, w')"
        using run m Inr by (simp add: then_io_def bind_io_def on_error_io_def)
      then have "kept {} {} (w_fs w2) (w_fs w')" using runsD [OF keeps_durable_directory q] by blast
      then have k: "kept {} {} (w_fs w2) (w_fs w')" "kept {journal} {} (w_fs w2) (w_fs w')" using kept_mono by blast+
      have "stored (w_fs w') journal mark" using s stored_kept [OF _ k(1)] by blast
      moreover have "kept {journal} {} (w_fs w) (w_fs w')" using kept_trans [OF _ k(2)] s w1 by simp
      ultimately show ?thesis by blast
    qed
  qed
qed

end
