(* ===== verification/Crash_Safety.thy ===== *)
theory Crash_Safety
  imports Seal_Safety
begin

section \<open>No record is lost when a seal is interrupted\<close>

text \<open>
  The outcome of \<open>seal_generation\<close> for every schedule of failing calls: either every file that
  existed is as it was, or the journal is the sentinel of a complete generation whose segment
  holds the records that were in the journal.
\<close>

subsection \<open>What the sealer reads\<close>

lemma strict_records_concat:
  assumes "strict_records data start stop b = Inr (raws, evs)"
  shows "concat raws = take (stop - start) (drop start data) \<and> start \<le> stop \<and>
    length (take (stop - start) (drop start data)) = stop - start"
proof -
  let ?avail = "take (stop - start) (drop start data)"
  have a: "start \<le> stop" "stop - start \<le> bytes_budget b" "length ?avail = stop - start"
    using assms by (auto simp: strict_records_def Let_def split: if_splits prod.splits option.splits)
  have "stop \<le> length data \<or> stop = start" using a by auto
  then obtain ls where ls: "?avail = unlines ls" "fold_res (emit_strict b) ([], []) ls = Inr (raws, evs)"
  proof
    assume "stop \<le> length data"
    then show thesis using that assms strict_records_Inr_iff [OF _ a(1,2)] by blast
  next
    assume s: "stop = start"
    then have "(raws, evs) = ([], [])"
      using assms by (simp add: strict_records_def Let_def blocks.simps)
    then show thesis using that [of "[]"] s by (simp add: unlines_def)
  qed
  have "fold_res (emit_strict b) (rs, es) ls = Inr (raws, evs) \<Longrightarrow> concat raws = concat rs @ unlines ls" for rs es
  proof (induction ls arbitrary: rs es)
    case (Cons l ls)
    from Cons.prems obtain ev where "fold_res (emit_strict b) (rs @ [l @ [LF]], es @ [dict_pop ''_line'' ev]) ls = Inr (raws, evs)"
      by (auto simp: bind_res_Inr_iff emit_strict_Inr_iff)
    then show ?case using Cons.IH by (fastforce simp: unlines_def)
  qed (simp add: unlines_def)
  from this [OF ls(2)] show ?thesis using a ls by simp
qed

text \<open>The first \<open>k\<close> bytes of a journal need not be sealed again: there are none, or they are the
  sentinel of the parent, or the v1 parent's manifest has their length and digest.\<close>

definition covered :: "fs \<Rightarrow> string \<Rightarrow> string \<Rightarrow> nat \<Rightarrow> bool" where
  "covered s store data k \<longleftrightarrow> k = 0 \<or> (\<exists>g. parse_tail_header data (length data) = Inr (Some (g, k))) \<or>
     (\<exists>g m h. manifest_at s store g = Some m \<and> parent_prefix m (length data) data = Inr (k, h))"

lemma parent_state_covered:
  assumes r: "parent_state store current fd (length data) b os w = (Inr pst, w')" and q: "quiet os"
    and nd: "map_of (nodes (w_fs w)) fd = Some nd" "n_data nd = data"
  shows "covered (w_fs w) store data (pi_start pst)"
proof (cases current)
  case None
  then show ?thesis using r by (auto simp: parent_state_def return_io_def no_parent_def covered_def)
next
  case (Some d)
  let ?g = "current_generation d"
  from r obtain m w1 where m: "manifest_for store ?g os w = (Inr m, w1)"
    and k: "(if py_eq (get_default m ''schema'' JNull) (JStr SCHEMA_V1) then
            then_io (verify_generation_v1 store (Some ?g))
            (bind_io (read_fd fd) (\<lambda>data'.
             bind_io (lift_io (parent_prefix m (length data) data')) (\<lambda>(pfx, history).
             bind_io (read_hot_file b (path_join store ?g)) (\<lambda>hot.
             return_io \<lparr>pi_generation = ?g, pi_start = pfx, pi_history = history, pi_hot = hot,
                        pi_dir = Some (path_join store ?g)\<rparr>))))
          else if \<not> py_eq (get_default m ''schema'' JNull) (JStr SCHEMA_V2)
          then raise_io (GenerationError ''OMS_GENERATION_PARENT_SCHEMA_UNSUPPORTED'')
          else
            bind_io (verify_generation_v2 store (Some ?g) None) (\<lambda>verified.
            bind_io (read_fd fd) (\<lambda>data'.
            bind_io (lift_io (parse_tail_header data' (length data))) (\<lambda>parsed.
            case parsed of
              Some (g, n) \<Rightarrow>
                then_io (guard_io (g = ?g) (GenerationError ''OMS_ACTIVE_TAIL_LINEAGE_MISMATCH''))
                (bind_io (read_hot_file b (path_join store ?g)) (\<lambda>hot.
                 return_io \<lparr>pi_generation = ?g, pi_start = n,
                   pi_history = int_field verified ''history_records'' 0, pi_hot = hot, pi_dir = Some (path_join store ?g)\<rparr>))
            | None \<Rightarrow> raise_io (GenerationError ''OMS_ACTIVE_TAIL_LINEAGE_MISMATCH''))))) os w1 = (Inr pst, w')"
    unfolding parent_state_def Some Let_def option.case by (rule bind_io_InrE)
  have w1: "w_fs w1 = w_fs w" using reads_v2(3) q m by (rule readsD)
  show ?thesis
  proof (cases "py_eq (get_default m ''schema'' JNull) (JStr SCHEMA_V1)")
    case True
    with k obtain u w2 data' w3 pfx history w4 hot w5 where v: "verify_generation_v1 store (Some ?g) os w1 = (Inr u, w2)"
      and rd: "read_fd fd os w2 = (Inr data', w3)"
      and p: "lift_io (parent_prefix m (length data) data') os w3 = (Inr (pfx, history), w4)"
      and e: "return_io \<lparr>pi_generation = ?g, pi_start = pfx, pi_history = history, pi_hot = hot,
                        pi_dir = Some (path_join store ?g)\<rparr> os w5 = (Inr pst, w')"
      by (auto elim!: bind_io_InrE then_io_InrE)
    have "w_fs w2 = w_fs w" using readsD [OF reads_verify_generation_v1 q v] w1 by simp
    then have "data' = data" using read_fd_InrE [OF rd q] nd by auto
    then show ?thesis
      using p e manifest_for_InrE [OF m q] by (auto simp: covered_def lift_io_def return_io_def)
  next
    case False
    with k obtain u w2 data' w3 g n w4 w5 hot w6 where v: "verify_generation_v2 store (Some ?g) None os w1 = (Inr u, w2)"
      and rd: "read_fd fd os w2 = (Inr data', w3)"
      and p: "lift_io (parse_tail_header data' (length data)) os w3 = (Inr (Some (g, n)), w4)"
      and e: "return_io \<lparr>pi_generation = ?g, pi_start = n,
                   pi_history = int_field u ''history_records'' 0, pi_hot = hot, pi_dir = Some (path_join store ?g)\<rparr> os w6 = (Inr pst, w')"
      by (auto simp: raise_io_def elim!: bind_io_InrE then_io_InrE split: if_splits option.splits)
    have "w_fs w2 = w_fs w" using readsD [OF reads_verify_generation_v2 q v] w1 by simp
    then have "data' = data" using read_fd_InrE [OF rd q] nd by auto
    then show ?thesis using p e by (auto simp: covered_def lift_io_def return_io_def)
  qed
qed

subsection \<open>The outcome of a seal\<close>

lemma kept_via:
  assumes "kept A {} s t" and "kept B {} t u" and "A \<subseteq> C" and "B \<subseteq> C"
  shows "kept C {} s u"
  using kept_mono [OF assms(1,3) subset_refl] kept_mono [OF assms(2,4) subset_refl] by (rule kept_trans)

text \<open>A complete generation whose segment is \<open>seg\<close> and whose manifest describes its files.\<close>

definition generation_at :: "fs \<Rightarrow> string \<Rightarrow> string \<Rightarrow> string \<Rightarrow> bool" where
  "generation_at s store g seg \<longleftrightarrow>
     (\<exists>C m. complete s (path_join store g) C \<and> C SEGMENT = Some seg \<and> C ''manifest.json'' = Some (json_line (JDict m)) \<and>
       (\<exists>parent sha c mark h. m = manifest_v2 g parent sha c mark h (inventory_of C (PRELIMINARY @ [''runtime-manifest.txt''])) []))"

definition sealed_as :: "fs \<Rightarrow> string \<Rightarrow> string \<Rightarrow> string \<Rightarrow> string \<Rightarrow> bool" where
  "sealed_as s journal store g seg \<longleftrightarrow>
     (\<exists>mark. tail_header g = Inr mark \<and> stored s journal mark) \<and> generation_at s store g seg"

definition pointers :: "string \<Rightarrow> string set" where
  "pointers store = {path_join store ''CURRENT'', path_join store ''CURRENT.runtime''}"

lemma complete_kept:
  assumes c: "complete s gdir C" and k: "kept A {} s t" and A: "\<And>n. n \<in> set GENERATION_FILES \<Longrightarrow> path_join gdir n \<notin> A"
  shows "complete t gdir C"
  unfolding complete_def
proof (intro conjI ballI)
  show "filled t gdir C"
    by (rule filled_kept [OF _ k]) (use c A in \<open>auto simp: complete_def\<close>)
  show "dom C = set GENERATION_FILES" using c by (simp add: complete_def)
  fix n assume n: "n \<in> dom C"
  then obtain d where "stored s (path_join gdir n) d" using c unfolding complete_def filled_def by blast
  then obtain i where "map_of (names s) (path_join gdir n) = Some i" by (auto elim!: storedE dest!: lookup_nodeD)
  then show "path_join gdir n \<in> set (durable t)"
    using kept_durable [OF k A] c n by (simp add: complete_def)
qed

lemma generation_at_kept:
  "generation_at s store g seg \<Longrightarrow> kept A {} s t \<Longrightarrow>
   (\<And>n. n \<in> set GENERATION_FILES \<Longrightarrow> path_join (path_join store g) n \<notin> A) \<Longrightarrow> generation_at t store g seg"
  unfolding generation_at_def using complete_kept by blast

text \<open>The paths of a seal are different.\<close>

lemma generation_file_path:
  assumes "n \<in> set GENERATION_FILES"
  shows "path_parent (path_join gdir n) = gdir" "\<not> (\<exists>p. path_join gdir n = p @ ''.tail.tmp'')"
proof -
  show "path_parent (path_join gdir n) = gdir" using assms GENERATION_FILES_plain path_parent_join by blast
  have "last (path_join gdir n) = last n \<and> last n \<in> {CHR ''l'', CHR ''n'', CHR ''v'', CHR ''t''}"
    using assms by (auto simp: GENERATION_FILES_def PRELIMINARY_def path_join_def SLASH_def)
  then have l: "last (path_join gdir n) \<noteq> CHR ''p''" by auto
  show "\<not> (\<exists>p. path_join gdir n = p @ ''.tail.tmp'')"
  proof
    assume "\<exists>p. path_join gdir n = p @ ''.tail.tmp''"
    then obtain p where "path_join gdir n = p @ ''.tail.tmp''" by blast
    then have "last (path_join gdir n) = CHR ''p''" by simp
    then show False using l by simp
  qed
qed

text \<open>The state in which \<open>seal_from\<close> may end, started in \<open>s\<close> on the journal \<open>data\<close>.\<close>

definition seal_end :: "fs \<Rightarrow> string \<Rightarrow> string \<Rightarrow> string \<Rightarrow> string \<Rightarrow> fs \<Rightarrow> bool" where
  "seal_end s journal store g data t \<longleftrightarrow>
     (\<exists>tmp. tmp \<noteq> journal \<and> (\<exists>p. tmp = p @ ''.tail.tmp'') \<and> kept (insert tmp (in_dir (path_join store g))) {} s t) \<or>
     (kept (insert journal (pointers store \<union> in_dir (path_join store g))) {} s t \<and>
       (\<exists>k. covered s store data k \<and> sealed_as t journal store g (drop k data)))"

lemma seal_end_early: "kept (in_dir (path_join store g)) {} s t \<Longrightarrow> seal_end s journal store g data t"
proof -
  assume k: "kept (in_dir (path_join store g)) {} s t"
  have "journal @ ''x.tail.tmp'' \<noteq> journal" by simp
  moreover have "\<exists>p. journal @ ''x.tail.tmp'' = p @ ''.tail.tmp''" by (rule exI [of _ "journal @ ''x''"]) simp
  moreover have "kept (insert (journal @ ''x.tail.tmp'') (in_dir (path_join store g))) {} s t"
    using k kept_mono by blast
  ultimately show ?thesis unfolding seal_end_def by blast
qed

text \<open>From a complete generation on: the sentinel, then the pointers.\<close>

lemma publish_end:
  assumes q: "quiet os" and c: "covered s store data k" and mk: "tail_header g = Inr mark"
    and store: "store = journal @ ''.generations''" and g: "take 1 g \<noteq> [SLASH]"
  shows "valid os (\<lambda>t. kept (in_dir (path_join store g)) {} s t \<and> generation_at t store g (drop k data))
     (then_io (publish_tail journal ''.tail.tmp'' mark) (publish_current store g md rdg))
     (\<lambda>_ t. kept (insert journal (pointers store \<union> in_dir (path_join store g))) {} s t \<and> sealed_as t journal store g (drop k data))
     (seal_end s journal store g data)"
proof -
  let ?G = "in_dir (path_join store g)"
  let ?mid = "\<lambda>t. kept (insert journal ?G) {} s t \<and> stored t journal mark \<and> generation_at t store g (drop k data)"
  let ?fin = "\<lambda>t. kept (insert journal (pointers store \<union> ?G)) {} s t \<and> sealed_as t journal store g (drop k data)"
  have len: "length journal < length (path_join store g)" "length store < length (path_join store g)"
    using g store by (auto simp: path_join_def)
  have notin: "path_join (path_join store g) n \<notin> insert journal (pointers store)" if n: "n \<in> set GENERATION_FILES" for n
  proof
    assume "path_join (path_join store g) n \<in> insert journal (pointers store)"
    then consider "path_join (path_join store g) n = journal"
      | "path_parent (path_join (path_join store g) n) = store"
      by (auto simp: pointers_def path_parent_join SLASH_def)
    then show False
    proof cases
      case 1
      then have "length (path_join (path_join store g) n) = length journal" by simp
      moreover have "length (path_join store g) < length (path_join (path_join store g) n)"
        using GENERATION_FILES_plain [OF n] by (cases n) (auto simp: path_join_def)
      ultimately show False using len by simp
    qed (use generation_file_path(1) [OF n] len in simp)
  qed
  have jp: "journal \<notin> pointers store"
    using store by (auto simp: pointers_def path_join_def SLASH_def dest!: arg_cong [where f = length])
  show ?thesis
  proof (rule valid_then)
    show "valid os (\<lambda>t. kept ?G {} s t \<and> generation_at t store g (drop k data)) (publish_tail journal ''.tail.tmp'' mark)
      (\<lambda>_. ?mid) (seal_end s journal store g data)"
    proof (rule validI)
      fix w x w' assume t: "kept ?G {} s (w_fs w) \<and> generation_at (w_fs w) store g (drop k data)"
        and r: "publish_tail journal ''.tail.tmp'' mark os w = (Inr x, w')"
      then have p: "stored (w_fs w') journal mark \<and> kept {journal} {} (w_fs w) (w_fs w')"
        using publish_tail_outcome [OF r q] by blast
      then have "kept (insert journal ?G) {} s (w_fs w')"
        by (intro kept_via [OF conjunct1 [OF t] conjunct2 [OF p]]) auto
      then show "?mid (w_fs w')" using p t generation_at_kept [of _ _ _ _ "{journal}"] notin by blast
    next
      fix w e w' assume t: "kept ?G {} s (w_fs w) \<and> generation_at (w_fs w) store g (drop k data)"
        and r: "publish_tail journal ''.tail.tmp'' mark os w = (Inl e, w')"
      from publish_tail_outcome [OF r q] show "seal_end s journal store g data (w_fs w')"
      proof
        assume "\<exists>tmp e'. Inl e = Inl e' \<and> tmp \<noteq> journal \<and> (\<exists>p. tmp = p @ ''.tail.tmp'') \<and> kept {tmp} {} (w_fs w) (w_fs w')"
        then obtain tmp where tmp: "tmp \<noteq> journal" "\<exists>p. tmp = p @ ''.tail.tmp''" "kept {tmp} {} (w_fs w) (w_fs w')" by blast
        then have "kept (insert tmp ?G) {} s (w_fs w')"
          by (intro kept_via [OF conjunct1 [OF t] tmp(3)]) auto
        then show ?thesis using tmp unfolding seal_end_def by blast
      next
        assume p: "stored (w_fs w') journal mark \<and> kept {journal} {} (w_fs w) (w_fs w')"
        then have "kept (insert journal (pointers store \<union> ?G)) {} s (w_fs w')"
          by (intro kept_via [OF conjunct1 [OF t] conjunct2 [OF p]]) auto
        moreover have "generation_at (w_fs w') store g (drop k data)" using p t generation_at_kept [of _ _ _ _ "{journal}"] notin by blast
        ultimately show ?thesis using p c mk unfolding seal_end_def sealed_as_def by blast
      qed
    qed
    show "valid os ?mid (publish_current store g md rdg) (\<lambda>_. ?fin) (seal_end s journal store g data)"
    proof (rule valid_runs [OF keeps_publish_current [of store "pointers store"] q])
      fix t u assume t: "?mid t" and k: "kept (pointers store) {} t u"
      have "kept (insert journal (pointers store \<union> ?G)) {} s u"
        by (rule kept_via [OF conjunct1 [OF t] k]) auto
      moreover have "stored u journal mark" using t k jp stored_kept by blast
      moreover have "generation_at u store g (drop k data)"
        using t generation_at_kept [OF _ k] notin by blast
      ultimately show "?fin u" using mk by (auto simp: sealed_as_def)
    next
      fix t assume "?fin t"
      then show "seal_end s journal store g data t" unfolding seal_end_def using c by blast
    qed (simp_all add: pointers_def)
  qed
qed

lemma seal_files_valid:
  assumes q: "quiet os"
  shows "valid os ((=) s) (seal_files store g pst raw evs b)
    (\<lambda>_ t. kept (in_dir (path_join store g)) {} s t \<and> generation_at t store g (concat raw))
    (kept (in_dir (path_join store g)) {} s)"
proof (rule validI)
  fix w e w' assume "s = w_fs w" "seal_files store g pst raw evs b os w = (Inl e, w')"
  then show "kept (in_dir (path_join store g)) {} s (w_fs w')" using runsD [OF keeps_seal_files q] by simp
next
  fix w x w' assume s: "s = w_fs w" and r: "seal_files store g pst raw evs b os w = (Inr x, w')"
  obtain m h where x: "x = (m, h)" by force
  have "generation_at (w_fs w') store g (concat raw)"
    using seal_files_complete [OF r [unfolded x] q] unfolding generation_at_def by blast
  then show "kept (in_dir (path_join store g)) {} s (w_fs w') \<and> generation_at (w_fs w') store g (concat raw)"
    using runsD [OF keeps_seal_files q r] s by blast
qed

lemma seal_publish_valid:
  assumes q: "quiet os" and c: "covered s store data k" and store: "store = journal @ ''.generations''" and g: "take 1 g \<noteq> [SLASH]"
  shows "valid os (\<lambda>t. kept (in_dir (path_join store g)) {} s t \<and> generation_at t store g (drop k data))
     (bind_io (sha256_file (path_join (path_join store g) ''manifest.json'')) (\<lambda>(_, md).
      bind_io (lift_io (tail_header g)) (\<lambda>mark.
      then_io (publish_tail journal ''.tail.tmp'' mark) (then_io (publish_current store g md rdg) (return_io m)))))
     (\<lambda>_ t. kept (insert journal (pointers store \<union> in_dir (path_join store g))) {} s t \<and>
       (\<exists>k. covered s store data k \<and> sealed_as t journal store g (drop k data)))
     (seal_end s journal store g data)"
proof (rule valid_bind [where Q = "\<lambda>_ t. kept (in_dir (path_join store g)) {} s t \<and> generation_at t store g (drop k data)"], goal_cases)
  case 1
  show ?case by (rule valid_read [OF reads_readers(4) q]) (use seal_end_early in blast)
next
  case (2 x)
  show ?case
    unfolding case_prod_beta
  proof (rule valid_bind [where Q = "\<lambda>mark t. tail_header g = Inr mark \<and> kept (in_dir (path_join store g)) {} s t \<and> generation_at t store g (drop k data)"], goal_cases)
    case 1
    show ?case by (rule valid_lift) (use seal_end_early in auto)
  next
    case (2 mark)
    have assoc: "then_io a (then_io b k) = then_io (then_io a b) k" for a b k
      by (simp add: then_io_def bind_assoc)
    show ?case
      unfolding assoc
      by (rule valid_pure, rule valid_then [OF publish_end [OF q c _ store g]], assumption, rule valid_return) (use c in blast)
  qed
qed

lemma seal_from_end:
  assumes q: "quiet os" and j: "map_of (nodes s) j = Some nd" and data: "n_data nd = data"
    and store: "store = journal @ ''.generations''" and g: "take 1 g \<noteq> [SLASH]"
  shows "valid os ((=) s) (seal_from journal store g current b j)
    (\<lambda>_ t. kept (insert journal (pointers store \<union> in_dir (path_join store g))) {} s t \<and>
       (\<exists>k. covered s store data k \<and> sealed_as t journal store g (drop k data)))
    (seal_end s journal store g data)"
  unfolding seal_from_def
proof ((rule valid_reads_bind valid_reads_then, rule reads_calls rd.runs_lift, rule q, rule seal_end_early, rule kept_refl)+, goal_cases)
  case (1 w1 prior w1' w2 u2 w2' w3 u3 w3' w4 pst w4' w5 data' w5' w6 re w6')
  obtain raws evs where re: "re = (raws, evs)" by force
  have prior: "prior = node_stat nd" using fstat_InrE [OF 1(1) q] 1(2) j by auto
  then have sz: "st_size prior = length data"
    using require_private_InrE [OF 1(3)] data by (auto simp: node_stat_def split: if_splits)
  have c: "covered s store data (pi_start pst)"
    using parent_state_covered [OF 1(7) [unfolded sz] q] 1(8) j data by simp
  have "data' = data" using read_fd_InrE [OF 1(9) q] 1(10) j data by auto
  then have raws: "concat raws = drop (pi_start pst) data"
    using 1(11) re sz strict_records_concat [of data "pi_start pst" "length data" b raws evs] by (simp add: lift_io_def)
  have files: "valid os ((=) s) (seal_files store g pst raws evs b)
    (\<lambda>_ t. kept (in_dir (path_join store g)) {} s t \<and> generation_at t store g (drop (pi_start pst) data))
    (seal_end s journal store g data)"
    by (rule valid_conseq [OF seal_files_valid [OF q]]) (use raws seal_end_early in auto)
  show ?case
    unfolding re prod.case
    by (rule valid_reads_then [OF reads_readers(3) q seal_end_early [OF kept_refl]], rule valid_bind [OF files])
      (unfold case_prod_beta, rule seal_publish_valid [OF q c store g, unfolded case_prod_beta])
qed

subsection \<open>Sealing as a whole\<close>

text \<open>Until the new directory exists only empty nodes are added.\<close>

definition grown :: "fs \<Rightarrow> fs \<Rightarrow> bool" where
  "grown s t \<longleftrightarrow> kept {} {} s t \<and>
     (\<forall>p i nd. lookup_node t p = Some (i, nd) \<longrightarrow> n_data nd \<noteq> [] \<longrightarrow> lookup_node s p = Some (i, nd))"

interpretation gr: io_relation grown
proof
  show "grown s s" for s by (simp add: grown_def kept_refl)
  show "grown s u" if "grown s t" "grown t u" for s t u
    using that kept_trans [of "{}" "{}" s t u] unfolding grown_def by blast
qed

lemma grown_create: "runs grown (create_node mode links p)"
  unfolding create_node_def
proof (rule gr.runs_sysc)
  fix os n s
  have "lookup_node s q = Some (i, nd)" if "lookup_node (add_node p \<lparr>n_stat = st, n_data = [], n_synced = False\<rparr> s) q = Some (i, nd)"
    "n_data nd \<noteq> []" for q i nd st
    using that fresh_node_name [of s q] by (auto simp: lookup_node_def add_node_def split: if_splits option.splits)
  then show "grown s (snd (if map_of (names s) p \<noteq> None then (Inl (OSError ''FileExistsError''), s)
     else if \<not> is_dir_at s (path_parent p) then (Inl not_found, s)
     else (Inr (fresh_node s), add_node p \<lparr>n_stat = new_stat os n (fresh_node s) mode links, n_data = [], n_synced = False\<rparr> s)))"
    by (auto simp: grown_def kept_refl add_node_kept)
qed

lemma grown_mkdir: "runs grown (mkdir p)"
  unfolding mkdir_def by (intro gr.runs_rules grown_create)

lemma grown_mkdir_exist_ok: "runs grown (mkdir_exist_ok p)"
proof (rule runsI)
  fix os w assume q: "quiet os"
  obtain r w1 where m: "mkdir p os w = (r, w1)" by force
  obtain r2 w2 where d: "path_is_dir p os w1 = (r2, w2)" by force
  have "grown (w_fs w) (w_fs w1)" using grown_mkdir q m by (rule runsD)
  moreover have "w_fs w2 = w_fs w1" using reads_syscalls(7) q d by (rule readsD)
  ultimately show "grown (w_fs w) (w_fs (snd (mkdir_exist_ok p os w)))"
    using m d by (auto simp: mkdir_exist_ok_def split: sum.splits)
qed

lemma loads_empty: "\<exists>e. loads h [] = Inl e"
  by (simp add: loads_def loads_text_def eval_nat_numeral skip_ws_def)

lemma grown_covered:
  assumes "grown s t" and "covered t store data k"
  shows "covered s store data k"
proof -
  have "manifest_at s store g = Some m" if m: "manifest_at t store g = Some m" for g m
  proof -
    obtain i nd where nd: "lookup_node t (path_join (path_join store g) ''manifest.json'') = Some (i, nd)"
      "loads default_hooks (n_data nd) = Inr (JDict m)"
      using m by (auto simp: manifest_at_def split: option.splits sum.splits json.splits)
    then have "n_data nd \<noteq> []" using loads_empty by (metis sum.distinct(1))
    then show ?thesis using assms(1) nd by (simp add: grown_def manifest_at_def)
  qed
  then show ?thesis using assms(2) unfolding covered_def by blast
qed

definition unsealed :: "fs \<Rightarrow> string \<Rightarrow> fs \<Rightarrow> bool" where
  "unsealed s journal t \<longleftrightarrow> (\<forall>p. p = journal \<or> \<not> (\<exists>q. p = q @ ''.tail.tmp'') \<longrightarrow> intact s t p)"

definition sealed :: "fs \<Rightarrow> string \<Rightarrow> string \<Rightarrow> fs \<Rightarrow> bool" where
  "sealed s journal data t \<longleftrightarrow>
     (\<exists>g k. covered s (journal @ ''.generations'') data k \<and> sealed_as t journal (journal @ ''.generations'') g (drop k data)) \<and>
     (\<forall>p. p \<noteq> journal \<longrightarrow> p \<notin> pointers (journal @ ''.generations'') \<longrightarrow> intact s t p)"

lemma intact_rooted:
  assumes "kept (A \<union> in_dir d) {} s t" and "rooted s" and "map_of (names s) d = None" and "p \<notin> A"
  shows "intact s t p"
proof (cases "path_parent p = d")
  case True
  then have "map_of (names s) p = None" using assms(2,3) rooted_child by blast
  then show ?thesis by (simp add: intact_def lookup_node_def)
next
  case False
  then show ?thesis using kept_intact [OF assms(1)] assms(4) by simp
qed

text \<open>\<open>seal_from\<close> in terms of the file system before the directories were made.\<close>

lemma seal_from_outcome:
  assumes q: "quiet os" and s: "rooted s" "lookup_node s journal = Some (j, nd)" and gr: "grown s t"
    and d: "map_of (names s) (path_join (journal @ ''.generations'') g) = None" and g: "take 1 g \<noteq> [SLASH]"
  shows "valid os ((=) t) (seal_from journal (journal @ ''.generations'') g current b j)
    (\<lambda>_. sealed s journal (n_data nd)) (\<lambda>u. unsealed s journal u \<or> sealed s journal (n_data nd) u)"
proof -
  let ?st = "journal @ ''.generations''"
  have k: "kept {} {} s t" using gr by (simp add: grown_def)
  obtain nd' where nd': "lookup_node t journal = Some (j, nd')" "same_content nd nd'"
    using kept_lookup [OF k _ s(2)] by blast
  have fin: "sealed s journal (n_data nd) u"
    if u: "kept (insert journal (pointers ?st \<union> in_dir (path_join ?st g))) {} t u" "covered t ?st (n_data nd) m"
      "sealed_as u journal ?st g (drop m (n_data nd))" for u m
  proof -
    have "kept (insert journal (pointers ?st) \<union> in_dir (path_join ?st g)) {} s u"
      by (rule kept_via [OF k u(1)]) auto
    note intact = intact_rooted [OF this s(1) d]
    have "intact s u p" if "p \<noteq> journal" "p \<notin> pointers ?st" for p by (rule intact) (use that in simp)
    then show ?thesis using grown_covered [OF gr u(2)] u(3) unfolding sealed_def by blast
  qed
  have mid: "unsealed s journal u"
    if u: "kept (insert tmp (in_dir (path_join ?st g))) {} t u" "tmp \<noteq> journal" "\<exists>p. tmp = p @ ''.tail.tmp''" for u tmp
  proof -
    have "kept ({tmp} \<union> in_dir (path_join ?st g)) {} s u" by (rule kept_via [OF k u(1)]) auto
    note intact = intact_rooted [OF this s(1) d]
    have "p \<noteq> tmp" if "p = journal \<or> \<not> (\<exists>q. p = q @ ''.tail.tmp'')" for p using that u(2,3) by metis
    then show ?thesis unfolding unsealed_def using intact by (metis singletonD)
  qed
  have data: "n_data nd' = n_data nd" using nd' by (simp add: same_content_def)
  show ?thesis
  proof (rule valid_conseq [OF seal_from_end [OF q conjunct2 [OF lookup_nodeD [OF nd'(1)]] data refl g]])
    fix u assume "seal_end t journal ?st g (n_data nd) u"
    then show "unsealed s journal u \<or> sealed s journal (n_data nd) u"
      unfolding seal_end_def using fin mid by blast
  qed (assumption, use fin in blast)
qed

lemma valid_each: "(\<And>s. P s \<Longrightarrow> valid os ((=) s) m Q E) \<Longrightarrow> valid os P m Q E"
  by (simp add: valid_def)

lemma mkdir_valid:
  assumes q: "quiet os" and E: "\<And>u. grown t u \<Longrightarrow> E u"
  shows "valid os ((=) t) (mkdir p) (\<lambda>_ u. grown t u \<and> map_of (names t) p = None) E"
proof (rule validI)
  fix w e w' assume "t = w_fs w" "mkdir p os w = (Inl e, w')"
  then show "E (w_fs w')" using E runsD [OF grown_mkdir q] by blast
next
  fix w x w' assume t: "t = w_fs w" and m: "mkdir p os w = (Inr x, w')"
  from m obtain i w1 where c: "create_node (S_IFDIR + MODE_0700) 2 p os w = (Inr i, w1)"
    unfolding mkdir_def by (rule bind_io_InrE)
  from c q have "map_of (names (w_fs w)) p = None" by (cases rule: create_node_cases) auto
  then show "grown t (w_fs w') \<and> map_of (names t) p = None" using runsD [OF grown_mkdir q m] t by simp
qed

lemma new_generation_relative: "new_generation tag os w = (Inr g, w') \<Longrightarrow> take 1 tag \<noteq> [SLASH] \<Longrightarrow> tag \<noteq> [] \<Longrightarrow> take 1 g \<noteq> [SLASH]"
  by (cases tag) (auto simp: new_generation_def return_io_def elim!: bind_io_InrE)

lemma grown_unsealed: "grown s t \<Longrightarrow> unsealed s journal t"
  unfolding grown_def unsealed_def using kept_intact by blast

lemma seal_generation_outcome:
  assumes q: "quiet os" and s: "rooted s" "lookup_node s journal = Some (j, nd)" and abs: "take 1 journal = [SLASH]"
  shows "valid os ((=) s) (seal_generation journal store0 stopped b)
    (\<lambda>_. sealed s journal (n_data nd)) (\<lambda>u. unsealed s journal u \<or> sealed s journal (n_data nd) u)"
  unfolding seal_generation_def
proof ((rule valid_reads_bind valid_reads_then, rule reads_calls rd.runs_guard, rule q, rule disjI1, rule grown_unsealed, rule gr.R_refl)+, goal_cases)
  case (1 w1 u1 w1' w2 journal' w2' w3 store w3')
  have journal: "journal' = journal" using 1(3) abs by (simp add: resolve_def ask_def)
  show ?case
    unfolding journal store_path_ok_def
  proof (rule valid_reads_then [OF rd.runs_guard q disjI1 [OF grown_unsealed [OF gr.R_refl]]], goal_cases)
    case (1 w4 u4 w4')
    then have store: "store = journal @ ''.generations''" by (auto simp: guard_io_def lift_io_def guard_res_def split: if_splits)
    show ?case
    proof (rule valid_then [OF valid_runs [OF grown_mkdir_exist_ok q, where P' = "grown s"]], goal_cases)
      case 3
      show ?case
      proof (rule valid_each, (rule valid_reads_bind valid_reads_then, rule reads_calls, rule q, rule disjI1, rule grown_unsealed, assumption)+, goal_cases)
        case (1 t w5 st w5' w6 u6 w6' w7 current w7' w8 g w8')
        have g: "take 1 g \<noteq> [SLASH]" using new_generation_relative [OF 1(8)] by (simp add: SLASH_def)
        show ?case
        proof (rule valid_then [OF mkdir_valid [OF q]], goal_cases)
          case (1 u)
          then show ?case using \<open>grown s t\<close> gr.R_trans grown_unsealed by blast
        next
          case 2
          show ?case
          proof (rule valid_each, elim conjE, rule valid_reads_bind [OF reads_syscalls(1) q disjI1 [OF grown_unsealed]], goal_cases)
            case (1 u)
            then show ?case using \<open>grown s t\<close> gr.R_trans by blast
          next
            case (2 u w fd w')
            have su: "grown s u" using \<open>grown s t\<close> 2(1) by (rule gr.R_trans)
            have "map_of (names s) (path_join (journal @ ''.generations'') g) = None"
              using \<open>grown s t\<close> 2(2) kept_name [of "{}" "{}" s t] unfolding grown_def store by (cases "map_of (names s) (path_join (journal @ ''.generations'') g)") auto
            moreover have "fd = j"
              using open_read_InrE [OF 2(3) q] 2(4) su kept_lookup [of "{}" "{}" s u journal j nd] s(2) by (auto simp: grown_def)
            ultimately show ?case using seal_from_outcome [OF q s su _ g] unfolding store by simp
          qed
        qed
      qed
    qed (use grown_unsealed in auto)
  qed
qed

text \<open>C1. A seal never loses a record. Wherever \<open>seal_generation\<close> is interrupted, either every
file that existed is as it was (a stale temporary sentinel apart) and the seal has failed, or the
journal is now the synced sentinel of a generation that is complete and described by its manifest
(nine synced files with durable names), whose segment is the journal from the first byte
that no earlier generation covers, and every other file but the two pointers is as it was.\<close>

theorem seal_never_loses_records:
  assumes "quiet os" and "rooted (w_fs w)" and "lookup_node (w_fs w) journal = Some (j, nd)"
    and "take 1 journal = [SLASH]" and "seal_generation journal store stopped b os w = (r, w')"
  shows "sealed (w_fs w) journal (n_data nd) (w_fs w') \<or>
    (\<exists>e. r = Inl e) \<and> unsealed (w_fs w) journal (w_fs w')"
proof (cases r)
  case (Inl e)
  then show ?thesis using valid_Inl [OF seal_generation_outcome [OF assms(1-4)] refl] assms(5) by blast
next
  case (Inr m)
  then show ?thesis using valid_Inr [OF seal_generation_outcome [OF assms(1-4)] refl] assms(5) by blast
qed

theorem seal_never_loses_records_witness:
  "quiet (sample_os (\<lambda>n. if 40 \<le> n then Some bad_fd else None)) \<and> rooted (w_fs sample_world) \<and>
   lookup_node (w_fs sample_world) ''/d/j'' = Some (2, \<lparr>n_stat = sample_stat 2 (S_IFREG + MODE_0600), n_data = ''{}'' @ [LF], n_synced = True\<rparr>) \<and>
   take 1 ''/d/j'' = [SLASH] \<and>
   (case seal_generation ''/d/j'' ''/d/j.generations'' True default_budgets
       (sample_os (\<lambda>n. if 40 \<le> n then Some bad_fd else None)) sample_world of (r, w') \<Rightarrow>
     sealed (w_fs sample_world) ''/d/j'' (''{}'' @ [LF]) (w_fs w') \<or>
     (\<exists>e. r = Inl e) \<and> unsealed (w_fs sample_world) ''/d/j'' (w_fs w'))"
proof -
  let ?nd = "\<lparr>n_stat = sample_stat 2 (S_IFREG + MODE_0600), n_data = ''{}'' @ [LF], n_synced = True\<rparr>"
  have r: "rooted (w_fs sample_world)"
    by (simp add: rooted_def sample_world_def path_parent_def SLASH_def)
  have l: "lookup_node (w_fs sample_world) ''/d/j'' = Some (2, ?nd)"
    by (simp add: lookup_node_def sample_world_def)
  have s: "take 1 ''/d/j'' = [SLASH]" by (simp add: SLASH_def)
  show ?thesis
    using seal_never_loses_records [OF sample_os_quiet r l s] sample_os_quiet r l s by (auto split: prod.split)
qed

end
