(* ===== verification/Store_Walk.thy ===== *)
theory Store_Walk
  imports Seal_Safety
begin

section \<open>Walking the chain and looking up commands\<close>

text \<open>
  The loop of \<open>_generation_chain\<close> ends on every store, also on one whose manifests name each
  other in a cycle: a generation that was visited has a manifest of its own, and there are no
  more manifests than names. \<open>lookup_command\<close> searches an index by bisection; on the indexes
  that the verifier accepts this finds what a scan of the lines finds. Neither verifying nor
  looking up changes the store.
\<close>

subsection \<open>The manifests of a store\<close>

lemma py_eq_str: "py_eq v (JStr g) \<Longrightarrow> v = JStr g"
  by (cases v) (auto split: json.splits)

lemma visited_bound:
  assumes d: "distinct seen" and v: "\<And>g. g \<in> set seen \<Longrightarrow> \<exists>m. manifest_at s store g = Some m \<and> get_default m ''generation'' JNull = JStr g"
  shows "length seen \<le> length (names s)"
proof -
  let ?f = "\<lambda>g. path_join (path_join store g) ''manifest.json''"
  have "inj_on ?f (set seen)"
  proof (rule inj_onI)
    fix g h assume gh: "g \<in> set seen" "h \<in> set seen" and f: "?f g = ?f h"
    obtain m where m: "manifest_at s store g = Some m" "get_default m ''generation'' JNull = JStr g" using v gh(1) by blast
    obtain m' where m': "manifest_at s store h = Some m'" "get_default m' ''generation'' JNull = JStr h" using v gh(2) by blast
    have "manifest_at s store g = manifest_at s store h" using f by (simp add: manifest_at_def)
    then show "g = h" using m m' by simp
  qed
  moreover have "?f ` set seen \<subseteq> fst ` set (names s)"
  proof
    fix p assume "p \<in> ?f ` set seen"
    then obtain g where g: "g \<in> set seen" "p = ?f g" by blast
    then obtain i nd where "lookup_node s p = Some (i, nd)" using v [OF g(1)] by (auto simp: manifest_at_def split: option.splits)
    then have "(p, i) \<in> set (names s)" by (auto dest!: lookup_nodeD map_of_SomeD)
    then show "p \<in> fst ` set (names s)" by force
  qed
  ultimately have "card (set seen) \<le> card (fst ` set (names s))" by (rule card_inj_on_le) simp
  also have "\<dots> \<le> length (names s)" using card_length [of "map fst (names s)"] by simp
  finally show ?thesis using d by (simp add: distinct_card)
qed

lemma chain_loop_more:
  assumes q: "quiet os" and "distinct seen"
    and "\<And>g. g \<in> set seen \<Longrightarrow> \<exists>m. manifest_at (w_fs w) store g = Some m \<and> get_default m ''generation'' JNull = JStr g"
    and "length (names (w_fs w)) < n + length seen"
  shows "chain_loop (Suc n) store seen g os w = chain_loop n store seen g os w"
  using assms(2-)
proof (induction n arbitrary: seen g w)
  case 0
  then show ?case using visited_bound [of seen "w_fs w" store] by simp
next
  case (Suc n)
  show ?case
  proof (cases "g = [] \<or> g \<in> set seen")
    case True
    then show ?thesis by (auto simp: then_io_def bind_io_def guard_io_def lift_io_def)
  next
    case False
    obtain r w1 where m: "manifest_for store g os w = (r, w1)" by force
    have w1: "w_fs w1 = w_fs w" using reads_v2(3) q m by (rule readsD)
    show ?thesis
    proof (cases r)
      case (Inl e)
      then show ?thesis using False m by (simp add: then_io_def bind_io_def guard_io_def lift_io_def)
    next
      case (Inr d)
      have d: "manifest_at (w_fs w) store g = Some d" "get_default d ''generation'' JNull = JStr g"
        using manifest_for_InrE [OF m [unfolded Inr] q] py_eq_str by auto
      have "chain_loop (Suc n) store (g # seen) p os w1 = chain_loop n store (g # seen) p os w1" for p
        using Suc.prems False d w1 by (intro Suc.IH) auto
      then show ?thesis
        using False m Inr by (simp del: chain_loop.simps(2) add: chain_loop.simps(2) [of "Suc n"] chain_loop.simps(2) [of n]
          then_io_def bind_io_def guard_io_def lift_io_def split: json.splits)
    qed
  qed
qed

text \<open>C24. The walk over the generation chain ends. Without other writers, the number of names in
the file system plus one bounds the iterations of the loop of \<open>_generation_chain\<close>: with any more
fuel the result, the error and the final state are the same, whatever the manifests say.\<close>

theorem generation_chain_terminates:
  assumes "quiet os" and "length (names (w_fs w)) < n"
  shows "generation_chain store g os w =
    (case chain_loop n store [] g os w of (Inl e, w') \<Rightarrow> (Inl e, w') | (Inr c, w') \<Rightarrow> (Inr (rev c), w'))"
proof -
  have "chain_loop (Suc (length (names (w_fs w))) + k) store [] g os w = chain_loop (Suc (length (names (w_fs w)))) store [] g os w" for k
  proof (induction k)
    case (Suc k)
    have "chain_loop (Suc (Suc (length (names (w_fs w))) + k)) store [] g os w =
      chain_loop (Suc (length (names (w_fs w))) + k) store [] g os w"
      by (rule chain_loop_more [OF assms(1)]) simp_all
    then show ?case using Suc by simp
  qed simp
  from this [of "n - Suc (length (names (w_fs w)))"] show ?thesis
    using assms(2) by (simp add: generation_chain_def)
qed

theorem generation_chain_terminates_witness:
  "quiet (sample_os (\<lambda>n. None)) \<and> length (names (w_fs sample_world)) < 1000 \<and>
   generation_chain ''/d/j.generations'' ''g-1'' (sample_os (\<lambda>n. None)) sample_world =
    (case chain_loop 1000 ''/d/j.generations'' [] ''g-1'' (sample_os (\<lambda>n. None)) sample_world of
       (Inl e, w') \<Rightarrow> (Inl e, w') | (Inr c, w') \<Rightarrow> (Inr (rev c), w'))"
proof -
  have "length (names (w_fs sample_world)) < 1000" by (simp add: sample_world_def)
  then show ?thesis using generation_chain_terminates [OF sample_os_quiet] sample_os_quiet by blast
qed

subsection \<open>Lookup\<close>

lemma bisect_left_bounds:
  assumes "sorted_wrt (<) a" and "lo \<le> hi" and "hi \<le> length a"
    and "\<forall>i < lo. a ! i < x" and "\<forall>i. hi \<le> i \<longrightarrow> i < length a \<longrightarrow> \<not> a ! i < x"
  shows "bisect_left a x lo hi \<le> length a \<and> (\<forall>i < bisect_left a x lo hi. a ! i < x) \<and>
    (\<forall>i. bisect_left a x lo hi \<le> i \<longrightarrow> i < length a \<longrightarrow> \<not> a ! i < x)"
  using assms
proof (induction a x lo hi rule: bisect_left.induct)
  case (1 a x lo hi)
  show ?case
  proof (cases "lo < hi")
    case False
    then have "bisect_left a x lo hi = lo" by (simp add: bisect_left.simps)
    moreover have "lo = hi" using False 1(4) by simp
    ultimately show ?thesis using 1(5-7) by simp
  next
    case True
    let ?mid = "(lo + hi) div 2"
    have mid: "lo \<le> ?mid" "?mid < hi" using True by auto
    show ?thesis
    proof (cases "a ! ?mid < x")
      case l: True
      have "\<forall>i < ?mid + 1. a ! i < x"
      proof (intro allI impI)
        fix i assume "i < ?mid + 1"
        moreover have "a ! i < a ! ?mid" if "i < ?mid" using sorted_wrt_nth_less [OF 1(3) that] 1(5) mid by simp
        ultimately show "a ! i < x" using l by (cases "i = ?mid") (simp, force)
      qed
      then have "bisect_left a x (?mid + 1) hi \<le> length a \<and> (\<forall>i < bisect_left a x (?mid + 1) hi. a ! i < x) \<and>
        (\<forall>i. bisect_left a x (?mid + 1) hi \<le> i \<longrightarrow> i < length a \<longrightarrow> \<not> a ! i < x)"
        using mid(2) by (intro 1(1) [OF True refl l 1(3) _ 1(5) _ 1(7)]) simp_all
      moreover have "bisect_left a x lo hi = bisect_left a x (?mid + 1) hi"
        using True l by (simp add: bisect_left.simps [of a x lo] Let_def)
      ultimately show ?thesis by simp
    next
      case l: False
      have "\<forall>i. ?mid \<le> i \<longrightarrow> i < length a \<longrightarrow> \<not> a ! i < x"
      proof (intro allI impI)
        fix i assume "?mid \<le> i" "i < length a"
        moreover have "a ! ?mid < a ! i" if "?mid < i" "i < length a" using that by (rule sorted_wrt_nth_less [OF 1(3)])
        ultimately show "\<not> a ! i < x" using l by (cases "i = ?mid") (simp, force)
      qed
      then have "bisect_left a x lo ?mid \<le> length a \<and> (\<forall>i < bisect_left a x lo ?mid. a ! i < x) \<and>
        (\<forall>i. bisect_left a x lo ?mid \<le> i \<longrightarrow> i < length a \<longrightarrow> \<not> a ! i < x)"
        using mid 1(5) by (intro 1(2) [OF True refl l 1(3) _ _ 1(6)]) simp_all
      moreover have "bisect_left a x lo hi = bisect_left a x lo ?mid"
        using True l by (simp add: bisect_left.simps [of a x lo hi] Let_def)
      ultimately show ?thesis by simp
    qed
  qed
qed

lemma ordered_keys_Inr_iff:
  "ordered_keys e key seen l = Inr ks \<longleftrightarrow> (\<exists>k. key l = Inr k \<and> (seen = [] \<or> last seen < k) \<and> ks = seen @ [k])"
  by (auto simp: ordered_keys_def bind_res_Inr_iff guard_res_iff)

lemma ordered_keys_sorted:
  assumes "fold_res (ordered_keys e key) seen lines = Inr ks" and "sorted_wrt (<) seen"
  shows "sorted_wrt (<) ks \<and> (\<exists>new. ks = seen @ new \<and> map_res key lines = Inr new)"
  using assms
proof (induction lines arbitrary: seen)
  case (Cons l ls)
  then obtain k where k: "key l = Inr k" "seen = [] \<or> last seen < k" "fold_res (ordered_keys e key) (seen @ [k]) ls = Inr ks"
    by (auto simp: bind_res_Inr_iff ordered_keys_Inr_iff)
  have "sorted_wrt (<) (seen @ [k])"
    using Cons.prems(2) k(2) by (cases seen rule: rev_cases) (auto simp: sorted_wrt_append)
  from Cons.IH [OF k(3) this] show ?case using k(1) by auto
qed auto

lemma bisect_left_finds:
  assumes "sorted_wrt (<) a" and "i < length a" and "a ! i = x"
  shows "bisect_left a x 0 (length a) = i"
proof -
  let ?p = "bisect_left a x 0 (length a)"
  have b: "\<forall>j < ?p. a ! j < x" "\<forall>j. ?p \<le> j \<longrightarrow> j < length a \<longrightarrow> \<not> a ! j < x"
    using bisect_left_bounds [of a 0 "length a" x] assms(1) by auto
  have "\<not> i < ?p" using b(1) assms(3) by auto
  moreover have "\<not> ?p < i"
  proof
    assume p: "?p < i"
    then have "a ! ?p < x" using sorted_wrt_nth_less [OF assms(1) p assms(2)] assms(3) by simp
    then show False using b(2) p assms(2) by auto
  qed
  ultimately show ?thesis by simp
qed

text \<open>The rows scanned from the first to the last.\<close>

fun scan_rows :: "ckey \<Rightarrow> string \<Rightarrow> (ckey \<times> string) list \<Rightarrow> dict res" where
  "scan_rows wanted h [] = Inr lookup_missing"
| "scan_rows wanted h ((k, line) # rows) = (if k = wanted then lookup_row line h else scan_rows wanted h rows)"

lemma scan_rows_nth:
  assumes "distinct (map fst rows)" and "i < length rows" and "rows ! i = (wanted, line)"
  shows "scan_rows wanted h rows = lookup_row line h"
  using assms
proof (induction rows arbitrary: i)
  case (Cons kl rows)
  obtain k l where kl: "kl = (k, l)" by (cases kl)
  show ?case
  proof (cases i)
    case (Suc j)
    then have "(wanted, line) \<in> set rows" using Cons.prems(2,3) by (auto simp: in_set_conv_nth)
    then have "k \<noteq> wanted" using Cons.prems(1) kl by (auto simp: rev_image_eqI)
    then show ?thesis using Cons Suc kl by simp
  qed (use Cons kl in simp)
qed simp

lemma scan_rows_missing: "wanted \<notin> fst ` set rows \<Longrightarrow> scan_rows wanted h rows = Inr lookup_missing"
  by (induction wanted h rows rule: scan_rows.induct) auto

text \<open>C25. The lookup of a command by bisection is correct: on the lines of an index whose order the
verifier has checked, it answers what a scan of all rows answers, the row of the command or
\<open>missing\<close>.\<close>

theorem verified_lookup_scans:
  assumes "fold_res (ordered_keys e index_key) [] lines = Inr keys"
  shows "lookup_lines lines wanted h = scan_rows wanted h (zip keys lines)"
proof -
  have s: "sorted_wrt (<) keys" and m: "map_res index_key lines = Inr keys"
    using ordered_keys_sorted [OF assms] by auto
  have len: "length keys = length lines" using m by (simp add: map_res_Inr_iff list_all2_lengthD)
  have d: "distinct (map fst (zip keys lines))" using s len by (simp add: strict_sorted_iff)
  let ?p = "bisect_left keys wanted 0 (length keys)"
  have le: "?p \<le> length keys" using bisect_left_bounds [of keys 0 "length keys" wanted] s by auto
  show ?thesis
  proof (cases "wanted \<in> set keys")
    case True
    then obtain i where i: "i < length keys" "keys ! i = wanted" by (auto simp: in_set_conv_nth)
    then have "?p = i" using bisect_left_finds [OF s] by blast
    moreover have "scan_rows wanted h (zip keys lines) = lookup_row (lines ! i) h"
      using i len by (intro scan_rows_nth [OF d, of i]) simp_all
    ultimately show ?thesis using m i by (simp add: lookup_lines_def Let_def)
  next
    case False
    then have "keys ! ?p \<noteq> wanted" if "?p \<noteq> length keys" using that le by (auto simp: in_set_conv_nth)
    moreover have "wanted \<notin> fst ` set (zip keys lines)" using False len by (metis map_fst_zip set_map)
    ultimately show ?thesis using m by (auto simp: scan_rows_missing lookup_lines_def Let_def)
  qed
qed

definition sample_line :: string where
  "sample_line = map (\<lambda>c. if c = CHR '' '' then TAB else c) ''61 62 63 64 PLACE acknowledged 7 - - 3'' @ [LF]"

theorem verified_lookup_scans_witness:
  "fold_res (ordered_keys (ValueError []) index_key) [] [sample_line] = Inr [(''a'', ''b'', ''c'')] \<and>
   lookup_lines [sample_line] (''a'', ''b'', ''e'') ''f'' =
     scan_rows (''a'', ''b'', ''e'') ''f'' (zip [(''a'', ''b'', ''c'')] [sample_line])"
proof -
  have "tsv_fields sample_line = Inr [''61'', ''62'', ''63'', ''64'', ''PLACE'', ''acknowledged'', ''7'', ''-'', ''-'', ''3'']"
    by code_simp
  moreover have "py_unhex ''61'' = Inr ''a''" "py_unhex ''62'' = Inr ''b''" "py_unhex ''63'' = Inr ''c''" by code_simp+
  moreover have "length sample_line < 100" by (simp add: sample_line_def)
  ultimately have "index_key sample_line = Inr (''a'', ''b'', ''c'')"
    by (simp add: index_key_def MAX_INDEX_LINE_def)
  then have "fold_res (ordered_keys (ValueError []) index_key) [] [sample_line] = Inr [(''a'', ''b'', ''c'')]"
    by (simp add: ordered_keys_def)
  then show ?thesis using verified_lookup_scans by blast
qed

lemma reads_state:
  assumes "reads m" and "quiet os"
  shows "w_fs (snd (m os w)) = w_fs w"
  by (rule readsD [OF assms, of w "fst (m os w)"]) simp

text \<open>C26. Verifying a generation and looking up a command do not change the file system, whatever
they find and wherever they fail.\<close>

theorem verification_reads_only:
  assumes "quiet os"
  shows "w_fs (snd (verify_generation_v2 store requested journal os w)) = w_fs w \<and>
    w_fs (snd (verify_generation_v1 store requested os w)) = w_fs w \<and>
    w_fs (snd (lookup_command store wanted h os w)) = w_fs w"
  by (intro conjI reads_state [OF _ assms] reads_verify_generation_v2 reads_verify_generation_v1 reads_lookup_command)

theorem verification_reads_only_witness:
  "quiet (sample_os (\<lambda>n. if 3 \<le> n then Some bad_fd else None)) \<and>
   w_fs (snd (verify_generation_v2 ''/d/j.generations'' None (Some ''/d/j'')
     (sample_os (\<lambda>n. if 3 \<le> n then Some bad_fd else None)) sample_world)) = w_fs sample_world"
  using verification_reads_only [OF sample_os_quiet] sample_os_quiet by blast

end
