(* ===== verification/Py_Number.thy ===== *)
theory Py_Number
  imports Py_Object
begin

section \<open>Arithmetic on Python numbers\<close>

text \<open>
  The operators the strategy scripts apply to values of a JSON document: \<open>abs\<close>, \<open>*\<close>, \<open>+\<close>,
  \<open>/\<close>, \<open><\<close>, \<open>max\<close>, \<open>round(x, n)\<close> and the format \<open>.nf\<close>, on \<open>int\<close>, \<open>bool\<close> and
  \<open>float\<close>. An operand that is no number raises \<open>TypeError\<close>. A product or sum of two
  integers is exact; with a \<open>float\<close> operand both are converted first.
\<close>

subsection \<open>Float operations\<close>

fun fl_sign :: "pyfloat \<Rightarrow> bool" where
  "fl_sign (Finite s m e) = s"
| "fl_sign (Infinite s) = s"
| "fl_sign NaN = False"

definition fl_is_zero :: "pyfloat \<Rightarrow> bool" where
  "fl_is_zero x = (case x of Finite s m e \<Rightarrow> m = 0 | _ \<Rightarrow> False)"

definition fl_mul :: "pyfloat \<Rightarrow> pyfloat \<Rightarrow> pyfloat" where
  "fl_mul x y =
     (let s = (fl_sign x \<noteq> fl_sign y) in
      case (x, y) of
        (Finite _ _ _, Finite _ _ _) \<Rightarrow> fl_round s (fl_val x * fl_val y)
      | (NaN, _) \<Rightarrow> NaN
      | (_, NaN) \<Rightarrow> NaN
      | _ \<Rightarrow> if fl_is_zero x \<or> fl_is_zero y then NaN else Infinite s)"

definition fl_div :: "pyfloat \<Rightarrow> pyfloat \<Rightarrow> pyfloat res" where
  "fl_div x y =
     (let s = (fl_sign x \<noteq> fl_sign y) in
      if fl_is_zero y then Inl ZeroDivisionError
      else Inr (case (x, y) of
          (Finite _ _ _, Finite _ _ _) \<Rightarrow> fl_round s (fl_val x / fl_val y)
        | (NaN, _) \<Rightarrow> NaN
        | (_, NaN) \<Rightarrow> NaN
        | (Infinite _, Infinite _) \<Rightarrow> NaN
        | (Infinite _, _) \<Rightarrow> Infinite s
        | (_, Infinite _) \<Rightarrow> Finite s 0 (- 1074)))"

subsection \<open>Operators\<close>

datatype number = PInt int | PFloat pyfloat

definition number_error :: "'a res" where
  "number_error = Inl (TypeError ''unsupported operand type'')"

fun num_of :: "json \<Rightarrow> number res" where
  "num_of (JInt i) = Inr (PInt i)"
| "num_of (JBool b) = Inr (PInt (if b then 1 else 0))"
| "num_of (JFloat x) = Inr (PFloat x)"
| "num_of _ = number_error"

fun json_of :: "number \<Rightarrow> json" where
  "json_of (PInt i) = JInt i"
| "json_of (PFloat x) = JFloat x"

fun float_of :: "number \<Rightarrow> pyfloat res" where
  "float_of (PInt i) = float_of_int i"
| "float_of (PFloat x) = Inr x"

fun num_abs :: "number \<Rightarrow> number" where
  "num_abs (PInt i) = PInt \<bar>i\<bar>"
| "num_abs (PFloat x) = PFloat (fl_abs x)"

definition num_arith ::
  "(int \<Rightarrow> int \<Rightarrow> int) \<Rightarrow> (pyfloat \<Rightarrow> pyfloat \<Rightarrow> pyfloat) \<Rightarrow> number \<Rightarrow> number \<Rightarrow> number res"
where
  "num_arith f g a b =
     (case (a, b) of
        (PInt i, PInt j) \<Rightarrow> Inr (PInt (f i j))
      | _ \<Rightarrow> bind_res (float_of a) (\<lambda>x. bind_res (float_of b) (\<lambda>y. Inr (PFloat (g x y)))))"

definition num_mul :: "number \<Rightarrow> number \<Rightarrow> number res" where
  "num_mul = num_arith (*) fl_mul"

definition num_add :: "number \<Rightarrow> number \<Rightarrow> number res" where
  "num_add = num_arith (+) fl_add"

text \<open>True division is only used with a \<open>float\<close> divisor.\<close>

definition num_div :: "number \<Rightarrow> number \<Rightarrow> number res" where
  "num_div a b =
     bind_res (float_of a) (\<lambda>x. bind_res (float_of b) (\<lambda>y. bind_res (fl_div x y) (\<lambda>q. Inr (PFloat q))))"

text \<open>Comparison of an \<open>int\<close> with a \<open>float\<close> is exact.\<close>

fun num_less :: "number \<Rightarrow> number \<Rightarrow> bool" where
  "num_less (PInt i) (PInt j) = (i < j)"
| "num_less (PFloat x) (PFloat y) = fl_less x y"
| "num_less (PInt i) (PFloat y) =
     (case y of Finite s m e \<Rightarrow> of_int i < fl_val y | Infinite s \<Rightarrow> \<not> s | NaN \<Rightarrow> False)"
| "num_less (PFloat x) (PInt j) =
     (case x of Finite s m e \<Rightarrow> fl_val x < of_int j | Infinite s \<Rightarrow> s | NaN \<Rightarrow> False)"

fun num_eq :: "number \<Rightarrow> number \<Rightarrow> bool" where
  "num_eq (PInt i) (PInt j) = (i = j)"
| "num_eq (PFloat x) (PFloat y) = fl_eq x y"
| "num_eq (PInt i) (PFloat y) = (case y of Finite s m e \<Rightarrow> of_int i = fl_val y | _ \<Rightarrow> False)"
| "num_eq (PFloat x) (PInt j) = (case x of Finite s m e \<Rightarrow> fl_val x = of_int j | _ \<Rightarrow> False)"

definition num_le :: "number \<Rightarrow> number \<Rightarrow> bool" where
  "num_le a b \<longleftrightarrow> num_less a b \<or> num_eq a b"

definition num_zero :: number where "num_zero = PFloat fl_zero"

text \<open>\<open>max(a, b)\<close> keeps the first operand unless the second is greater.\<close>

definition num_max :: "number \<Rightarrow> number \<Rightarrow> number" where
  "num_max a b = (if num_less a b then b else a)"

subsection \<open>Rounding and formatting\<close>

text \<open>\<open>round(x, n)\<close>: the nearest multiple of \<open>10 ^ -n\<close>, ties to even, of the exact value; an
  \<open>int\<close> stays as it is.\<close>

fun round_number :: "nat \<Rightarrow> number \<Rightarrow> number" where
  "round_number n (PInt i) = PInt i"
| "round_number n (PFloat x) =
     PFloat (case x of
        Finite s m e \<Rightarrow> fl_round s (of_int (round_half_even (fl_val x * 10 ^ n)) / 10 ^ n)
      | _ \<Rightarrow> x)"

definition pad_left :: "nat \<Rightarrow> string \<Rightarrow> string" where
  "pad_left n s = zeros (n - length s) @ s"

text \<open>\<open>f"{x:.nf}"\<close>, for a positive \<open>n\<close>.\<close>

fun format_fixed :: "nat \<Rightarrow> pyfloat \<Rightarrow> string" where
  "format_fixed n (Finite s m e) =
     (let ds = pad_left (Suc n) (str_of_nat (nat (round_half_even (mag_val m e * 10 ^ n)))); k = length ds - n
      in (if s then ''-'' else []) @ take k ds @ CHR ''.'' # drop k ds)"
| "format_fixed n (Infinite s) = (if s then ''-inf'' else ''inf'')"
| "format_fixed n NaN = ''nan''"

subsection \<open>Text\<close>

text \<open>\<open>len(s)\<close> counts code points; \<open>upper\<close> of an ASCII word.\<close>

definition py_len :: "string \<Rightarrow> nat" where
  "py_len s = length (filter (\<lambda>c. \<not> cont_byte c) s)"

definition upper_char :: "char \<Rightarrow> char" where
  "upper_char c =
     (if (97::nat) \<le> of_char c \<and> of_char c \<le> (122::nat) then char_of (of_char c - (32::nat)) else c)"

definition upper :: "string \<Rightarrow> string" where
  "upper s = map upper_char s"

end
