(* ===== verification/Strategy_Contracts.thy ===== *)
theory Strategy_Contracts
  imports Py_Number Sha256 Generation_V2
begin

section \<open>Strict helpers for strategy artifacts\<close>

text \<open>
  Model of \<open>hepta_strategy_contracts.py\<close>: the bounded document reader, the strict JSON loader,
  canonical bytes and their digest, the atomic writer, and the field requirements.
\<close>

definition MAX_DOCUMENT_BYTES :: nat where "MAX_DOCUMENT_BYTES = 4 * 1024 * 1024"

definition contract :: "bool \<Rightarrow> string \<Rightarrow> unit res" where
  "contract ok reason_code = guard_res ok (ContractError reason_code)"

subsection \<open>Loading\<close>

fun unique_document_from :: "dict \<Rightarrow> dict \<Rightarrow> dict res" where
  "unique_document_from d [] = Inr d"
| "unique_document_from d ((k, v) # ps) =
     (if map_of d k \<noteq> None then Inl (ContractError ''STRATEGY_JSON_DUPLICATE_KEY'')
      else unique_document_from (d @ [(k, v)]) ps)"

definition finite_json_float :: "string \<Rightarrow> pyfloat \<Rightarrow> json res" where
  "finite_json_float mantissa x =
     (if \<not> fl_isfinite x then Inl (ContractError ''STRATEGY_JSON_NON_FINITE'')
      else if fl_eq x fl_zero \<and> list_ex (\<lambda>c. c \<noteq> CHR ''0'') mantissa
      then Inl (ContractError ''STRATEGY_JSON_NUMBER_UNDERFLOW'')
      else Inr (JFloat x))"

definition document_hooks :: hooks where
  "document_hooks =
     \<lparr>pairs_hook = (\<lambda>ps. bind_res (unique_document_from [] ps) (\<lambda>d. Inr (JDict d))),
      constant_hook = (\<lambda>c. Inl (ContractError ''STRATEGY_JSON_NON_FINITE'')),
      float_hook = finite_json_float\<rparr>"

definition document_failure :: "exn \<Rightarrow> bool" where
  "document_failure e \<longleftrightarrow> value_error e \<or> e = RecursionError"

definition parse_document :: "string \<Rightarrow> string \<Rightarrow> dict res" where
  "parse_document label contents =
     bind_res (catch_res document_failure (loads document_hooks contents) (ContractError (label @ ''_JSON_INVALID''))) (\<lambda>v.
     case v of JDict d \<Rightarrow> Inr d | _ \<Rightarrow> Inl (ContractError (label @ ''_ROOT_INVALID'')))"

text \<open>The bytes of a regular file with one link that does not change while it is read; an
  operating system error is a contract error.\<close>

definition read_leaf :: "string \<Rightarrow> string \<Rightarrow> nat \<Rightarrow> string io" where
  "read_leaf p label maximum =
     bind_io (open_read p) (\<lambda>fd. bind_io (fstat fd) (\<lambda>prior.
     then_io (lift_io (contract (S_ISREG (st_mode prior) \<and> st_nlink prior = 1) (label @ ''_FILE_INVALID'')))
     (then_io (lift_io (contract (st_size prior \<le> maximum) (label @ ''_TOO_LARGE'')))
     (bind_io (read_fd fd) (\<lambda>data.
      let contents = take (Suc maximum) data in
      then_io (lift_io (contract (length contents \<le> maximum) (label @ ''_TOO_LARGE'')))
      (bind_io (fstat fd) (\<lambda>after. bind_io (lstat p) (\<lambda>named.
       then_io (lift_io (contract (identity prior = identity after \<and> identity prior = identity named) (label @ ''_FILE_CHANGED'')))
       (return_io contents)))))))))"

definition read_document_bytes :: "string \<Rightarrow> string \<Rightarrow> nat \<Rightarrow> string io" where
  "read_document_bytes p label maximum =
     then_io (lift_io (contract (1 \<le> maximum) (label @ ''_LIMIT_INVALID'')))
     (catch_io os_error (read_leaf p label maximum) (raise_io (ContractError (label @ ''_READ_FAILED''))))"

definition load_document :: "string \<Rightarrow> string \<Rightarrow> dict io" where
  "load_document p label =
     bind_io (read_document_bytes p label MAX_DOCUMENT_BYTES) (\<lambda>contents. lift_io (parse_document label contents))"

subsection \<open>Canonical bytes\<close>

text \<open>\<open>json.dumps(allow_nan=False)\<close> refuses a float that is not finite and an integer too long to
  print.\<close>

fun canonical_json :: "json \<Rightarrow> bool" where
  "canonical_json (JFloat x) = fl_isfinite x"
| "canonical_json (JInt i) = printable_int i"
| "canonical_json (JList xs) = list_all canonical_json xs"
| "canonical_json (JDict d) = list_all (\<lambda>(k, v). canonical_json v) d"
| "canonical_json _ = True"

definition canonical_bytes :: "json \<Rightarrow> string res" where
  "canonical_bytes v =
     bind_res (contract (canonical_json v) ''STRATEGY_CANONICALIZATION_FAILED'') (\<lambda>_. Inr (dumps v @ [LF]))"

definition digest_bytes :: "string \<Rightarrow> string" where
  "digest_bytes contents = ''sha256:'' @ sha256 contents"

definition digest_document :: "json \<Rightarrow> string res" where
  "digest_document v = bind_res (canonical_bytes v) (\<lambda>b. Inr (digest_bytes b))"

definition digest_file :: "string \<Rightarrow> string io" where
  "digest_file p = bind_io (open_node (\<lambda>nd. False) p) (\<lambda>fd. bind_io (read_fd fd) (\<lambda>data. return_io (digest_bytes data)))"

text \<open>\<open>atomic_write_json\<close>: the temporary name of \<open>NamedTemporaryFile\<close> is a random suffix.\<close>

definition atomic_write_json :: "string \<Rightarrow> json \<Rightarrow> unit io" where
  "atomic_write_json p v =
     bind_io (lift_io (canonical_bytes v)) (\<lambda>contents.
     then_io (make_dirs MODE_0700 (path_parent p))
     (bind_io uuid4 (\<lambda>u.
      let temp = with_name p (CHR ''.'' # path_name p @ CHR ''.'' # u) in
      bind_io (create_excl temp) (\<lambda>fd.
      then_io (on_error_io
        (then_io (write_all fd contents) (then_io (fsync fd) (os_replace temp p))) (drop_temp temp))
      (bind_io (open_dir (path_parent p)) os_fsync)))))"

subsection \<open>Requirements\<close>

definition require_exact_fields :: "json \<Rightarrow> string list \<Rightarrow> string \<Rightarrow> dict res" where
  "require_exact_fields v fs reason_code =
     (case v of
        JDict d \<Rightarrow> bind_res (contract (set (map fst d) = set fs) reason_code) (\<lambda>_. Inr d)
      | _ \<Rightarrow> Inl (ContractError reason_code))"

definition identifier_first :: "char \<Rightarrow> bool" where
  "identifier_first c \<longleftrightarrow>
     byte_in 48 57 c \<or> byte_in 65 90 c \<or> byte_in 97 122 c"

definition identifier_char :: "char \<Rightarrow> bool" where
  "identifier_char c \<longleftrightarrow> identifier_first c \<or> c \<in> {CHR ''.'', CHR ''_'', CHR '':'', CHR ''-''}"

definition is_identifier :: "string \<Rightarrow> bool" where
  "is_identifier s = (case s of [] \<Rightarrow> False | c # cs \<Rightarrow> identifier_first c \<and> length cs \<le> 127 \<and> list_all identifier_char cs)"

definition require_text :: "json \<Rightarrow> string \<Rightarrow> nat \<Rightarrow> bool \<Rightarrow> string res" where
  "require_text v reason_code maximum identifier =
     (case v of
        JStr s \<Rightarrow>
          bind_res (contract (s \<noteq> [] \<and> py_len s \<le> maximum) reason_code) (\<lambda>_.
          bind_res (contract (identifier \<longrightarrow> is_identifier s) reason_code) (\<lambda>_. Inr s))
      | _ \<Rightarrow> Inl (ContractError reason_code))"

definition digest_char :: "char \<Rightarrow> bool" where
  "digest_char c \<longleftrightarrow> byte_in 48 57 c \<or> byte_in 97 102 c"

definition is_digest :: "string \<Rightarrow> bool" where
  "is_digest s \<longleftrightarrow> take 7 s = ''sha256:'' \<and> length s = 71 \<and> list_all digest_char (drop 7 s)"

definition require_digest :: "json \<Rightarrow> string \<Rightarrow> string res" where
  "require_digest v reason_code =
     (case v of JStr s \<Rightarrow> bind_res (contract (is_digest s) reason_code) (\<lambda>_. Inr s) | _ \<Rightarrow> Inl (ContractError reason_code))"

definition require_int :: "json \<Rightarrow> string \<Rightarrow> int option \<Rightarrow> int option \<Rightarrow> int res" where
  "require_int v reason_code minimum maximum =
     (case v of
        JInt i \<Rightarrow>
          bind_res (contract ((case minimum of None \<Rightarrow> True | Some n \<Rightarrow> n \<le> i) \<and>
            (case maximum of None \<Rightarrow> True | Some n \<Rightarrow> i \<le> n)) reason_code) (\<lambda>_. Inr i)
      | _ \<Rightarrow> Inl (ContractError reason_code))"

text \<open>\<open>float(value)\<close> of an integer that is too large is a contract error too.\<close>

definition require_number :: "json \<Rightarrow> string \<Rightarrow> bool \<Rightarrow> pyfloat option \<Rightarrow> pyfloat option \<Rightarrow> pyfloat res" where
  "require_number v reason_code positive minimum maximum =
     (case v of
        JBool _ \<Rightarrow> Inl (ContractError reason_code)
      | _ \<Rightarrow>
          bind_res (reraise (bind_res (num_of v) float_of) (ContractError reason_code)) (\<lambda>x.
          bind_res (contract (fl_isfinite x \<and> (positive \<longrightarrow> fl_less fl_zero x) \<and>
            (case minimum of None \<Rightarrow> True | Some n \<Rightarrow> \<not> fl_less x n) \<and>
            (case maximum of None \<Rightarrow> True | Some n \<Rightarrow> \<not> fl_less n x)) reason_code) (\<lambda>_. Inr x)))"

definition require_bool :: "json \<Rightarrow> bool \<Rightarrow> string \<Rightarrow> unit res" where
  "require_bool v expected reason_code = contract (v = JBool expected) reason_code"

end
