(* ===== verification/Momentum_Strategy.thy ===== *)
theory Momentum_Strategy
  imports Strategy_Contracts
begin

section \<open>The confirmed-momentum shadow evaluator\<close>

text \<open>
  Model of \<open>hepta_eurusd_confirmed_momentum_strategy.py\<close>: the validation of the strategy
  configuration (\<open>load_strategy\<close>), the gates on a market packet and \<open>evaluate\<close>, which
  decides between \<open>TRADE\<close> and \<open>NO_TRADE\<close>. Where a malformed packet has several faults,
  the model may raise another \<open>KeyError\<close> or \<open>TypeError\<close> than the script. The digests of the four source files the
  evaluator binds itself to are the record \<open>package\<close>.
\<close>

subsection \<open>Field sets\<close>

definition CONFIG_FIELDS :: "string list" where
  "CONFIG_FIELDS =
     [''schema'', ''strategy_id'', ''strategy_version'', ''paper_only'', ''live_authorized'', ''instrument'',
      ''feature_calculation_version'', ''evidence_requirements'', ''freshness_limits'', ''feature_windows'',
      ''regime'', ''setup'', ''shadow_intent_contract'', ''decision_policy'']"

definition INSTRUMENT_FIELDS :: "string list" where
  "INSTRUMENT_FIELDS = [''canonical_symbol'', ''asset_class'', ''exchange'', ''symbol'', ''currency'']"

definition EVIDENCE_FLAGS :: "string list" where
  "EVIDENCE_FLAGS =
     [''authoritative_quote'', ''authoritative_health'', ''authoritative_account'', ''authoritative_positions'',
      ''authoritative_orders'', ''authoritative_risk'', ''economic_calendar_required'',
      ''information_provenance_required'']"

definition EVIDENCE_FIELDS :: "string list" where
  "EVIDENCE_FIELDS =
     EVIDENCE_FLAGS @ [''minimum_raw_quote_observations'', ''minimum_resampled_quote_observations'',
       ''minimum_history_span_seconds'', ''minimum_bar_observations'']"

definition FRESHNESS_FIELDS :: "string list" where
  "FRESHNESS_FIELDS =
     [''quote_age_ms'', ''bar_age_ms'', ''portfolio_snapshot_age_ms'', ''economic_calendar_age_ms'',
      ''information_observation_age_ms'']"

definition WINDOW_FIELDS :: "string list" where
  "WINDOW_FIELDS =
     [''fast_ema_bars'', ''slow_ema_bars'', ''slope_lookback_bars'', ''atr_bars'', ''breakout_bars'',
      ''bar_interval_seconds'', ''quote_lookback_seconds'', ''quote_resample_seconds'',
      ''quote_confirmation_seconds'', ''quote_maximum_gap_seconds'']"

definition REGIME_FIELDS :: "string list" where
  "REGIME_FIELDS =
     [''minimum_trend_ema_separation_bps'', ''minimum_trend_slope_bps'', ''maximum_range_ema_separation_bps'']"

definition SETUP_NUMBERS :: "string list" where
  "SETUP_NUMBERS =
     [''minimum_window_return_bps'', ''maximum_window_return_bps'', ''minimum_confirmation_return_bps'',
      ''maximum_spread_bps'', ''minimum_step_volatility_bps'', ''maximum_step_volatility_bps'',
      ''minimum_cost_multiple'', ''estimated_slippage_bps'']"

definition FLAT_FLAGS :: "string list" where
  "FLAT_FLAGS = [''require_zero_active_orders'', ''require_zero_position'', ''require_zero_gross_exposure'']"

definition SETUP_FIELDS :: "string list" where
  "SETUP_FIELDS =
     SETUP_NUMBERS @ FLAT_FLAGS @ [''allowed_regimes'', ''event_exclusion_before_seconds'',
       ''event_exclusion_after_seconds'', ''conflicting_information_action'']"

definition INTENT_FIELDS :: "string list" where
  "INTENT_FIELDS =
     [''maximum_quantity'', ''order_type'', ''time_in_force'', ''maximum_intent_horizon_seconds'',
      ''maximum_holding_seconds'', ''limit_price_rule'', ''stop_atr_multiple'']"

definition POLICY_FIELDS :: "string list" where
  "POLICY_FIELDS =
     [''missing_required_evidence'', ''stale_or_conflicting_evidence'', ''unknown_or_transition_regime'',
      ''mutation_attempted'', ''direct_broker_access'']"

definition PACKET_FIELDS :: "string list" where
  "PACKET_FIELDS =
     [''schema'', ''packet_id'', ''campaign_id'', ''iteration'', ''mode'', ''created_at_ms'', ''evaluated_at_ms'',
      ''instrument'', ''strategy'', ''context_builder'', ''source_snapshot'', ''authority'', ''freshness'',
      ''provenance'', ''market'', ''session'', ''history'', ''features'', ''economic_calendar'', ''information'',
      ''portfolio'', ''service'', ''privacy'', ''evidence_refs'', ''body_sha256'']"

definition STRATEGY_BINDING_FIELDS :: "string list" where
  "STRATEGY_BINDING_FIELDS =
     [''strategy_id'', ''strategy_version'', ''pinned_sha256'', ''config_sha256'', ''evaluator_sha256'',
      ''builder_sha256'', ''normalizer_sha256'', ''contracts_sha256'', ''sha256_verified'']"

definition CONTEXT_BUILDER_FIELDS :: "string list" where
  "CONTEXT_BUILDER_FIELDS =
     [''schema'', ''builder_sha256'', ''normalizer_sha256'', ''contracts_sha256'', ''feature_calculation_version'']"

definition AUTHORITY_KEYS :: "string list" where
  "AUTHORITY_KEYS =
     [''health_authoritative'', ''quote_authoritative'', ''account_authoritative'', ''positions_authoritative'',
      ''orders_authoritative'', ''risk_authoritative'']"

subsection \<open>The configuration\<close>

definition fld :: "dict \<Rightarrow> string \<Rightarrow> json" where
  "fld d k = get_default d k JNull"

text \<open>A check repeated over several fields.\<close>

definition each :: "('a \<Rightarrow> 'b res) \<Rightarrow> 'a list \<Rightarrow> unit res" where
  "each f xs = bind_res (map_res f xs) (\<lambda>_. Inr ())"

definition ranged :: "dict \<Rightarrow> string \<Rightarrow> int \<Rightarrow> int \<Rightarrow> string \<Rightarrow> int res" where
  "ranged d reason_code lo hi k = require_int (fld d k) reason_code (Some lo) (Some hi)"

definition not_negative :: "dict \<Rightarrow> string \<Rightarrow> string \<Rightarrow> pyfloat res" where
  "not_negative d reason_code k = require_number (fld d k) reason_code False (Some fl_zero) None"

definition check_header :: "dict \<Rightarrow> unit res" where
  "check_header c =
     bind_res (contract (py_eq (fld c ''schema'') (JStr ''hepta.confirmed-momentum-strategy.v2''))
       ''STRATEGY_CONFIG_SCHEMA_INVALID'') (\<lambda>_.
     bind_res (require_text (fld c ''strategy_id'') ''STRATEGY_ID_INVALID'' 2048 True) (\<lambda>_.
     bind_res (require_text (fld c ''strategy_version'') ''STRATEGY_VERSION_INVALID'' 2048 True) (\<lambda>_.
     bind_res (require_bool (fld c ''paper_only'') True ''STRATEGY_PAPER_BOUNDARY_INVALID'') (\<lambda>_.
     bind_res (require_bool (fld c ''live_authorized'') False ''STRATEGY_LIVE_BOUNDARY_INVALID'') (\<lambda>_.
     bind_res (require_text (fld c ''feature_calculation_version'') ''STRATEGY_FEATURE_VERSION_INVALID'' 2048 True) (\<lambda>_.
     Inr ()))))))"

definition EURUSD :: json where
  "EURUSD = JDict
     [(''canonical_symbol'', JStr ''EUR.USD''), (''asset_class'', JStr ''CASH''), (''exchange'', JStr ''IDEALPRO''),
      (''symbol'', JStr ''EUR''), (''currency'', JStr ''USD'')]"

definition check_instrument :: "dict \<Rightarrow> unit res" where
  "check_instrument c =
     bind_res (require_exact_fields (fld c ''instrument'') INSTRUMENT_FIELDS ''STRATEGY_INSTRUMENT_FIELDS_INVALID'') (\<lambda>d.
     contract (py_eq (JDict d) EURUSD) ''STRATEGY_INSTRUMENT_INVALID'')"

definition check_evidence :: "dict \<Rightarrow> dict res" where
  "check_evidence c =
     bind_res (require_exact_fields (fld c ''evidence_requirements'') EVIDENCE_FIELDS ''STRATEGY_EVIDENCE_FIELDS_INVALID'') (\<lambda>d.
     bind_res (each (\<lambda>k. require_bool (fld d k) True ''STRATEGY_EVIDENCE_VALUE_INVALID'') EVIDENCE_FLAGS) (\<lambda>_.
     bind_res (ranged d ''STRATEGY_RAW_QUOTE_COUNT_INVALID'' 3 1000000 ''minimum_raw_quote_observations'') (\<lambda>_.
     bind_res (ranged d ''STRATEGY_RESAMPLED_QUOTE_COUNT_INVALID'' 3 4096 ''minimum_resampled_quote_observations'') (\<lambda>_.
     bind_res (ranged d ''STRATEGY_HISTORY_SPAN_INVALID'' 60 604800 ''minimum_history_span_seconds'') (\<lambda>_.
     bind_res (ranged d ''STRATEGY_BAR_COUNT_INVALID'' 10 100000 ''minimum_bar_observations'') (\<lambda>_.
     Inr d))))))"

definition check_freshness :: "dict \<Rightarrow> unit res" where
  "check_freshness c =
     bind_res (require_exact_fields (fld c ''freshness_limits'') FRESHNESS_FIELDS ''STRATEGY_FRESHNESS_FIELDS_INVALID'') (\<lambda>d.
     each (ranged d ''STRATEGY_FRESHNESS_VALUE_INVALID'' 1 86400000) FRESHNESS_FIELDS)"

definition num_field :: "dict \<Rightarrow> string \<Rightarrow> int" where
  "num_field d k = int_field d k 0"

definition check_windows :: "dict \<Rightarrow> dict \<Rightarrow> unit res" where
  "check_windows c evidence =
     bind_res (require_exact_fields (fld c ''feature_windows'') WINDOW_FIELDS ''STRATEGY_WINDOW_FIELDS_INVALID'') (\<lambda>d.
     bind_res (each (ranged d ''STRATEGY_WINDOW_VALUE_INVALID'' 1 86400) WINDOW_FIELDS) (\<lambda>_.
     let n = num_field d; lookback = n ''quote_lookback_seconds''; resample = n ''quote_resample_seconds'';
         confirmation = n ''quote_confirmation_seconds''; gap = n ''quote_maximum_gap_seconds'' in
     bind_res (contract (n ''fast_ema_bars'' < n ''slow_ema_bars'') ''STRATEGY_EMA_WINDOW_ORDER_INVALID'') (\<lambda>_.
     bind_res (contract (\<not> (lookback mod resample \<noteq> 0 \<or> confirmation mod resample \<noteq> 0 \<or> lookback < confirmation \<or>
         30 < gap \<or> \<not> (5 \<le> gap \<and> gap \<le> 15))) ''STRATEGY_QUOTE_WINDOW_INVALID'') (\<lambda>_.
     contract (num_field evidence ''minimum_resampled_quote_observations'' = lookback div resample + 1 \<and>
         num_field evidence ''minimum_history_span_seconds'' = lookback) ''STRATEGY_QUOTE_WINDOW_BINDING_INVALID''))))"

definition check_regime :: "dict \<Rightarrow> unit res" where
  "check_regime c =
     bind_res (require_exact_fields (fld c ''regime'') REGIME_FIELDS ''STRATEGY_REGIME_FIELDS_INVALID'') (\<lambda>d.
     each (not_negative d ''STRATEGY_REGIME_VALUE_INVALID'') REGIME_FIELDS)"

definition item_num :: "dict \<Rightarrow> string \<Rightarrow> number res" where
  "item_num d k = bind_res (py_item (JDict d) k) num_of"

definition range_ok :: "dict \<Rightarrow> string \<Rightarrow> string \<Rightarrow> bool res" where
  "range_ok d lo hi = bind_res (item_num d lo) (\<lambda>a. bind_res (item_num d hi) (\<lambda>b. Inr (\<not> num_le b a)))"

definition check_setup :: "dict \<Rightarrow> unit res" where
  "check_setup c =
     bind_res (require_exact_fields (fld c ''setup'') SETUP_FIELDS ''STRATEGY_SETUP_FIELDS_INVALID'') (\<lambda>d.
     bind_res (contract (py_eq (fld d ''allowed_regimes'') (JList [JStr ''trend''])) ''STRATEGY_ALLOWED_REGIME_INVALID'') (\<lambda>_.
     bind_res (each (not_negative d ''STRATEGY_SETUP_VALUE_INVALID'') SETUP_NUMBERS) (\<lambda>_.
     bind_res (range_ok d ''minimum_window_return_bps'' ''maximum_window_return_bps'') (\<lambda>w.
     bind_res (range_ok d ''minimum_step_volatility_bps'' ''maximum_step_volatility_bps'') (\<lambda>v.
     bind_res (contract (w \<and> v) ''STRATEGY_SETUP_RANGE_INVALID'') (\<lambda>_.
     bind_res (each (ranged d ''STRATEGY_EVENT_WINDOW_INVALID'' 0 86400)
       [''event_exclusion_before_seconds'', ''event_exclusion_after_seconds'']) (\<lambda>_.
     bind_res (each (\<lambda>k. require_bool (fld d k) True ''STRATEGY_FLAT_REQUIREMENT_INVALID'') FLAT_FLAGS) (\<lambda>_.
     contract (py_eq (fld d ''conflicting_information_action'') (JStr ''NO_TRADE'')) ''STRATEGY_CONFLICT_POLICY_INVALID''))))))))"

definition ten :: pyfloat where "ten = fl_round False 10"

definition check_intent :: "dict \<Rightarrow> unit res" where
  "check_intent c =
     bind_res (require_exact_fields (fld c ''shadow_intent_contract'') INTENT_FIELDS ''STRATEGY_INTENT_FIELDS_INVALID'') (\<lambda>d.
     bind_res (ranged d ''STRATEGY_INTENT_QUANTITY_INVALID'' 1 1000 ''maximum_quantity'') (\<lambda>_.
     bind_res (contract (py_eq (fld d ''order_type'') (JStr ''LMT'') \<and> py_eq (fld d ''time_in_force'') (JStr ''DAY'') \<and>
         py_eq (fld d ''limit_price_rule'') (JStr ''BUY_AT_AUTHORITATIVE_ASK_OR_SELL_AT_AUTHORITATIVE_BID''))
       ''STRATEGY_INTENT_ORDER_INVALID'') (\<lambda>_.
     bind_res (ranged d ''STRATEGY_INTENT_HORIZON_INVALID'' 2 3600 ''maximum_intent_horizon_seconds'') (\<lambda>_.
     bind_res (ranged d ''STRATEGY_HOLDING_TIME_INVALID'' 60 86400 ''maximum_holding_seconds'') (\<lambda>_.
     bind_res (require_number (fld d ''stop_atr_multiple'') ''STRATEGY_STOP_MULTIPLE_INVALID'' True None (Some ten)) (\<lambda>_.
     Inr ()))))))"

definition check_policy :: "dict \<Rightarrow> unit res" where
  "check_policy c =
     bind_res (require_exact_fields (fld c ''decision_policy'') POLICY_FIELDS ''STRATEGY_POLICY_FIELDS_INVALID'') (\<lambda>d.
     bind_res (each (\<lambda>k. contract (py_eq (fld d k) (JStr ''NO_TRADE'')) ''STRATEGY_POLICY_VALUE_INVALID'')
       [''missing_required_evidence'', ''stale_or_conflicting_evidence'', ''unknown_or_transition_regime'']) (\<lambda>_.
     bind_res (require_bool (fld d ''mutation_attempted'') False ''STRATEGY_MUTATION_BOUNDARY_INVALID'') (\<lambda>_.
     require_bool (fld d ''direct_broker_access'') False ''STRATEGY_BROKER_BOUNDARY_INVALID'')))"

definition check_strategy :: "json \<Rightarrow> dict res" where
  "check_strategy v =
     bind_res (require_exact_fields v CONFIG_FIELDS ''STRATEGY_CONFIG_FIELDS_INVALID'') (\<lambda>c.
     bind_res (check_header c) (\<lambda>_.
     bind_res (check_instrument c) (\<lambda>_.
     bind_res (check_evidence c) (\<lambda>evidence.
     bind_res (check_freshness c) (\<lambda>_.
     bind_res (check_windows c evidence) (\<lambda>_.
     bind_res (check_regime c) (\<lambda>_.
     bind_res (check_setup c) (\<lambda>_.
     bind_res (check_intent c) (\<lambda>_.
     bind_res (check_policy c) (\<lambda>_.
     Inr c))))))))))"

definition load_strategy :: "string \<Rightarrow> dict io" where
  "load_strategy p = bind_io (load_document p ''STRATEGY_CONFIG'') (\<lambda>d. lift_io (check_strategy (JDict d)))"

subsection \<open>Gates\<close>

definition append_reason :: "string list \<Rightarrow> string \<Rightarrow> string list" where
  "append_reason rs r = (if r \<in> set rs then rs else rs @ [r])"

definition add_if :: "bool \<Rightarrow> string \<Rightarrow> string list \<Rightarrow> string list" where
  "add_if b r rs = (if b then append_reason rs r else rs)"

text \<open>\<open>packet[a][k]\<close> and \<open>packet[a].get(k)\<close>.\<close>

definition at2 :: "dict \<Rightarrow> string \<Rightarrow> string \<Rightarrow> json res" where
  "at2 d a k = bind_res (py_item (JDict d) a) (\<lambda>o2. py_item o2 k)"

definition get2 :: "dict \<Rightarrow> string \<Rightarrow> string \<Rightarrow> json res" where
  "get2 d a k = bind_res (py_item (JDict d) a) (\<lambda>o2. py_get o2 k)"

definition num2 :: "dict \<Rightarrow> string \<Rightarrow> string \<Rightarrow> number res" where
  "num2 d a k = bind_res (at2 d a k) num_of"

text \<open>\<open>a and b\<close>, \<open>a or b\<close> of comparisons: the right operand is evaluated only if it decides.\<close>

definition and_res :: "bool res \<Rightarrow> bool res \<Rightarrow> bool res" where
  "and_res a b = bind_res a (\<lambda>x. if x then b else Inr False)"

definition or_res :: "bool res \<Rightarrow> bool res \<Rightarrow> bool res" where
  "or_res a b = bind_res a (\<lambda>x. if x then Inr True else b)"

definition exceeds :: "number res \<Rightarrow> number res \<Rightarrow> bool res" where
  "exceeds a b = bind_res a (\<lambda>x. bind_res b (\<lambda>y. Inr (num_less y x)))"

definition at_least :: "number res \<Rightarrow> number res \<Rightarrow> bool res" where
  "at_least a b = bind_res a (\<lambda>x. bind_res b (\<lambda>y. Inr (num_le y x)))"

definition abs_res :: "number res \<Rightarrow> number res" where
  "abs_res a = bind_res a (\<lambda>x. Inr (num_abs x))"

definition mul_res :: "number res \<Rightarrow> number res \<Rightarrow> number res" where
  "mul_res a b = bind_res a (\<lambda>x. bind_res b (\<lambda>y. num_mul x y))"

definition classify_regime :: "dict \<Rightarrow> dict \<Rightarrow> string res" where
  "classify_regime packet config =
     bind_res (get2 packet ''economic_calendar'' ''high_impact_event_window_active'') (\<lambda>active.
     if active = JBool True then Inr ''event''
     else
       bind_res (or_res
         (exceeds (num2 packet ''market'' ''spread_bps'') (num2 config ''setup'' ''maximum_spread_bps''))
         (exceeds (num2 packet ''features'' ''step_volatility_bps'') (num2 config ''setup'' ''maximum_step_volatility_bps'')))
         (\<lambda>illiquid.
       if illiquid then Inr ''illiquid''
       else
         let separation = num2 packet ''features'' ''ema_separation_bps''; slope = num2 packet ''features'' ''ema_fast_slope_bps'' in
         bind_res (and_res
           (at_least (abs_res separation) (num2 config ''regime'' ''minimum_trend_ema_separation_bps''))
           (and_res (at_least (abs_res slope) (num2 config ''regime'' ''minimum_trend_slope_bps''))
             (exceeds (mul_res separation slope) (Inr num_zero)))) (\<lambda>trend.
         if trend then Inr ''trend''
         else bind_res (at_least (num2 config ''regime'' ''maximum_range_ema_separation_bps'') (abs_res separation)) (\<lambda>flat.
           Inr (if flat then ''range'' else ''transition'')))))"

definition nonzero_if :: "dict \<Rightarrow> dict \<Rightarrow> string \<Rightarrow> string \<Rightarrow> json \<Rightarrow> string \<Rightarrow> string list \<Rightarrow> string list res" where
  "nonzero_if packet config flag k z r rs =
     bind_res (at2 config ''setup'' flag) (\<lambda>f.
     if truthy f then bind_res (at2 packet ''portfolio'' k) (\<lambda>v. Inr (if py_eq v z then rs else rs @ [r])) else Inr rs)"

definition flat_portfolio_reasons :: "dict \<Rightarrow> dict \<Rightarrow> string list res" where
  "flat_portfolio_reasons packet config =
     bind_res (nonzero_if packet config ''require_zero_active_orders'' ''active_order_count'' (JInt 0)
       ''ACTIVE_ORDER_PRESENT'' []) (\<lambda>r1.
     bind_res (nonzero_if packet config ''require_zero_position'' ''position_quantity'' (JFloat fl_zero)
       ''NONZERO_POSITION'' r1) (\<lambda>r2.
     nonzero_if packet config ''require_zero_gross_exposure'' ''gross_exposure'' (JFloat fl_zero)
       ''NONZERO_GROSS_EXPOSURE'' r2))"

text \<open>The members that must be \<open>True\<close>, with the reason given when they are not.\<close>

definition EVIDENCE_GATES :: "(string \<times> string \<times> string) list" where
  "EVIDENCE_GATES =
     map (\<lambda>k. (''authority'', k, upper k @ ''_MISSING'')) AUTHORITY_KEYS @
     [(''freshness'', ''quote_fresh'', ''STALE_QUOTE''),
      (''freshness'', ''portfolio_freshness_provable'', ''UNPROVABLE_PORTFOLIO_FRESHNESS''),
      (''provenance'', ''information_provenance_present'', ''MISSING_INFORMATION_PROVENANCE''),
      (''provenance'', ''calendar_provenance_present'', ''UNPROVABLE_ECONOMIC_CALENDAR''),
      (''economic_calendar'', ''present'', ''MISSING_ECONOMIC_CALENDAR''),
      (''history'', ''quote_provenance_provable'', ''UNPROVABLE_QUOTE_HISTORY''),
      (''history'', ''quote_complete'', ''INCOMPLETE_QUOTE_HISTORY''),
      (''history'', ''bar_provenance_provable'', ''UNPROVABLE_BAR_HISTORY''),
      (''history'', ''bar_complete'', ''INCOMPLETE_BAR_HISTORY''),
      (''freshness'', ''bar_fresh'', ''STALE_BAR_HISTORY'')]"

definition true_gate :: "dict \<Rightarrow> string list \<Rightarrow> string \<times> string \<times> string \<Rightarrow> string list res" where
  "true_gate packet rs g =
     (case g of (a, k, r) \<Rightarrow> bind_res (get2 packet a k) (\<lambda>v. Inr (add_if (v \<noteq> JBool True) r rs)))"

text \<open>The counts that must reach a minimum of the configuration.\<close>

definition MINIMUM_GATES :: "(string \<times> string \<times> string) list" where
  "MINIMUM_GATES =
     [(''raw_quote_observations'', ''minimum_raw_quote_observations'', ''INSUFFICIENT_RAW_QUOTE_HISTORY''),
      (''resampled_quote_observations'', ''minimum_resampled_quote_observations'', ''INSUFFICIENT_RESAMPLED_QUOTE_HISTORY''),
      (''span_seconds'', ''minimum_history_span_seconds'', ''INSUFFICIENT_HISTORY_SPAN''),
      (''bar_observations'', ''minimum_bar_observations'', ''INSUFFICIENT_BAR_HISTORY'')]"

definition minimum_gate :: "dict \<Rightarrow> dict \<Rightarrow> string list \<Rightarrow> string \<times> string \<times> string \<Rightarrow> string list res" where
  "minimum_gate packet config rs g =
     (case g of (k, lo, r) \<Rightarrow>
        bind_res (num2 packet ''history'' k) (\<lambda>a. bind_res (num2 config ''evidence_requirements'' lo) (\<lambda>b.
        Inr (add_if (num_less a b) r rs))))"

definition evidence_reasons :: "dict \<Rightarrow> dict \<Rightarrow> string list res" where
  "evidence_reasons packet config =
     bind_res (fold_res (true_gate packet) [] EVIDENCE_GATES) (\<lambda>r1.
     bind_res (fold_res (minimum_gate packet config) r1 MINIMUM_GATES) (\<lambda>r2.
     bind_res (true_gate packet r2 (''strategy'', ''sha256_verified'', ''STRATEGY_DIGEST_UNVERIFIED'')) (\<lambda>r3.
     bind_res (get2 packet ''information'' ''conflicts'') (\<lambda>conflicts.
     bind_res (flat_portfolio_reasons packet config) (\<lambda>flat.
     Inr (add_if (truthy conflicts) ''CONFLICTING_INFORMATION'' r3 @ flat))))))"

text \<open>The reasons against a direction, and the direction if there are none.\<close>

definition momentum_direction :: "dict \<Rightarrow> dict \<Rightarrow> (string list \<times> string option) res" where
  "momentum_direction packet config =
     bind_res (num2 packet ''features'' ''window_return_bps'') (\<lambda>full_return.
     bind_res (num2 packet ''features'' ''confirmation_return_bps'') (\<lambda>confirmation.
     bind_res (num2 config ''setup'' ''minimum_window_return_bps'') (\<lambda>min_window.
     bind_res (num2 config ''setup'' ''maximum_window_return_bps'') (\<lambda>max_window.
     bind_res (num2 config ''setup'' ''minimum_confirmation_return_bps'') (\<lambda>min_confirmation.
     bind_res (num_mul full_return confirmation) (\<lambda>agree.
     bind_res (num2 packet ''features'' ''ema_separation_bps'') (\<lambda>separation.
     bind_res (num_mul separation full_return) (\<lambda>sep_dir.
     bind_res (num2 packet ''features'' ''ema_fast_slope_bps'') (\<lambda>slope.
     bind_res (num_mul slope full_return) (\<lambda>slope_dir.
     let rs = add_if (num_le slope_dir num_zero) ''EMA_SLOPE_CONFLICT''
          (add_if (num_le sep_dir num_zero) ''EMA_DIRECTION_CONFLICT''
          (add_if (num_le agree num_zero) ''MOMENTUM_DIRECTION_CONFLICT''
          (add_if (num_less (num_abs confirmation) min_confirmation) ''MOMENTUM_UNCONFIRMED''
          (add_if (num_less max_window (num_abs full_return)) ''MOMENTUM_OVEREXTENDED''
          (add_if (num_less (num_abs full_return) min_window) ''MOMENTUM_TOO_WEAK'' [])))))
     in Inr (rs, if rs \<noteq> [] then None else Some (if num_less num_zero full_return then ''BUY'' else ''SELL''))))))))))))"

definition two :: number where "two = PFloat (fl_round False 2)"

definition cost_reasons :: "dict \<Rightarrow> dict \<Rightarrow> string list res" where
  "cost_reasons packet config =
     bind_res (num2 packet ''market'' ''spread_bps'') (\<lambda>spread.
     bind_res (num2 config ''setup'' ''maximum_spread_bps'') (\<lambda>max_spread.
     bind_res (num2 packet ''features'' ''step_volatility_bps'') (\<lambda>vol.
     bind_res (num2 config ''setup'' ''minimum_step_volatility_bps'') (\<lambda>min_vol.
     bind_res (num2 config ''setup'' ''maximum_step_volatility_bps'') (\<lambda>max_vol.
     bind_res (num2 config ''setup'' ''estimated_slippage_bps'') (\<lambda>slippage.
     bind_res (num_mul slippage two) (\<lambda>both_sides.
     bind_res (num_add spread both_sides) (\<lambda>cost.
     bind_res (num2 packet ''features'' ''confirmation_return_bps'') (\<lambda>confirmation.
     bind_res (num2 packet ''features'' ''atr_bps'') (\<lambda>atr.
     let rs = (if num_less max_spread spread then [''SPREAD_TOO_WIDE''] else []) @
              (if num_less vol min_vol then [''VOLATILITY_TOO_LOW''] else []) @
              (if num_less max_vol vol then [''VOLATILITY_TOO_HIGH''] else []);
         move = num_max (num_abs confirmation) atr
     in
     bind_res
       (if num_le cost num_zero then Inr True
        else bind_res (num_div move cost) (\<lambda>ratio.
          bind_res (num2 config ''setup'' ''minimum_cost_multiple'') (\<lambda>multiple. Inr (num_less ratio multiple)))) (\<lambda>insufficient.
     Inr (rs @ (if insufficient then [''EXPECTED_MOVE_INSUFFICIENT_FOR_COST''] else [])))))))))))))"

subsection \<open>The intent\<close>

definition ten_thousand :: number where "ten_thousand = PFloat (fl_round False 10000)"

definition rounded :: "json \<Rightarrow> json res" where
  "rounded v = bind_res (num_of v) (\<lambda>n. Inr (json_of (round_number 8 n)))"

definition fixed4 :: "json \<Rightarrow> string res" where
  "fixed4 v = bind_res (num_of v) (\<lambda>n. bind_res (float_of n) (\<lambda>x. Inr (format_fixed 4 x)))"

definition packet_tag :: "dict \<Rightarrow> string res" where
  "packet_tag packet = bind_res (digest_document (JDict packet)) (\<lambda>h. Inr (take 32 (drop 7 h)))"

definition as_int :: "json \<Rightarrow> int res" where
  "as_int v = (case v of JInt i \<Rightarrow> Inr i | JBool b \<Rightarrow> Inr (if b then 1 else 0) | _ \<Rightarrow> number_error)"

definition intent :: "dict \<Rightarrow> dict \<Rightarrow> string \<Rightarrow> string \<Rightarrow> json res" where
  "intent packet config strategy_sha side =
     bind_res (num2 packet ''market'' ''mid'') (\<lambda>mid.
     bind_res (num2 packet ''features'' ''atr_bps'') (\<lambda>atr.
     bind_res (num2 config ''shadow_intent_contract'' ''stop_atr_multiple'') (\<lambda>stop.
     bind_res (num_mul mid atr) (\<lambda>m1. bind_res (num_div m1 ten_thousand) (\<lambda>m2. bind_res (num_mul m2 stop) (\<lambda>adverse.
     bind_res (num2 config ''setup'' ''estimated_slippage_bps'') (\<lambda>slippage.
     bind_res (num_mul mid slippage) (\<lambda>s1. bind_res (num_div s1 ten_thousand) (\<lambda>expected_slippage.
     bind_res (at2 packet ''market'' (if side = ''BUY'' then ''ask'' else ''bid'')) (\<lambda>limit0.
     bind_res (packet_tag packet) (\<lambda>tag.
     bind_res (at2 config ''shadow_intent_contract'' ''maximum_quantity'') (\<lambda>quantity.
     bind_res (rounded limit0) (\<lambda>limit_price.
     bind_res (bind_res (at2 packet ''market'' ''bid'') rounded) (\<lambda>bid.
     bind_res (bind_res (at2 packet ''market'' ''ask'') rounded) (\<lambda>ask_price.
     bind_res (at2 packet ''freshness'' ''quote_observed_at_ms'') (\<lambda>observed.
     bind_res (py_item (JDict packet) ''evaluated_at_ms'') (\<lambda>evaluated_json.
     bind_res (as_int evaluated_json) (\<lambda>evaluated.
     bind_res (bind_res (at2 config ''shadow_intent_contract'' ''maximum_intent_horizon_seconds'') as_int) (\<lambda>horizon.
     bind_res (bind_res (at2 packet ''features'' ''window_return_bps'') fixed4) (\<lambda>window_text.
     bind_res (bind_res (at2 packet ''features'' ''confirmation_return_bps'') fixed4) (\<lambda>confirmation_text.
     bind_res (bind_res (at2 packet ''features'' ''ema_separation_bps'') fixed4) (\<lambda>separation_text.
     bind_res (float_of adverse) (\<lambda>adverse_float.
     bind_res (bind_res (at2 config ''shadow_intent_contract'' ''maximum_holding_seconds'') as_int) (\<lambda>holding.
     Inr (JDict
       [(''schema'', JStr ''hepta.trade-intent.v1''), (''paper_only'', JBool True),
        (''strategy_id'', fld config ''strategy_id''), (''strategy_version'', fld config ''strategy_version''),
        (''strategy_sha256'', JStr strategy_sha), (''intent_id'', JStr (''shadow-intent-'' @ tag)),
        (''instrument'', JStr ''EUR.USD''), (''symbol'', JStr ''EUR''), (''currency'', JStr ''USD''),
        (''sec_type'', JStr ''CASH''), (''exchange'', JStr ''IDEALPRO''), (''side'', JStr side),
        (''quantity'', quantity), (''order_type'', JStr ''LMT''), (''limit_price'', limit_price),
        (''tif'', JStr ''DAY''), (''observed_bid'', bid), (''observed_ask'', ask_price),
        (''observed_at_ms'', observed), (''expires_at_ms'', JInt (evaluated + horizon * 1000)),
        (''entry_thesis'', JStr (side @ '' confirmed momentum: window_return='' @ window_text @ ''bps confirmation='' @
           confirmation_text @ ''bps ema_separation='' @ separation_text @ ''bps'')),
        (''invalidation_condition'', JStr (''Opposite three-observation momentum or adverse move of '' @
           format_fixed 8 adverse_float)),
        (''max_holding_ms'', JInt (holding * 1000)), (''max_adverse_move'', json_of (round_number 8 adverse)),
        (''expected_slippage'', json_of (round_number 8 expected_slippage)),
        (''exit_plan'', JStr ''Canonical monitor followed by cancel or atomic reduce-only flatten and authoritative reconcile'')]
       )))))))))))))))))))))))))"

subsection \<open>The decision\<close>

record package =
  pk_evaluator :: string
  pk_builder :: string
  pk_normalizer :: string
  pk_contracts :: string

definition check_digest_of_body :: "dict \<Rightarrow> unit res" where
  "check_digest_of_body packet =
     bind_res (require_digest (fld packet ''body_sha256'') ''STRATEGY_PACKET_DIGEST_INVALID'') (\<lambda>expected.
     bind_res (digest_document (JDict (dict_pop ''body_sha256'' packet))) (\<lambda>h.
     contract (h = expected) ''STRATEGY_PACKET_DIGEST_INVALID''))"

definition check_binding :: "package \<Rightarrow> dict \<Rightarrow> dict \<Rightarrow> string \<Rightarrow> unit res" where
  "check_binding pk packet config strategy_sha =
     bind_res (require_exact_fields (fld packet ''strategy'') STRATEGY_BINDING_FIELDS ''STRATEGY_PACKET_BINDING_FIELDS_INVALID'') (\<lambda>b.
     bind_res (require_exact_fields (fld packet ''context_builder'') CONTEXT_BUILDER_FIELDS ''STRATEGY_CONTEXT_BUILDER_FIELDS_INVALID'') (\<lambda>cb.
     contract
       (py_eq (fld b ''strategy_id'') (fld config ''strategy_id'') \<and>
        py_eq (fld b ''strategy_version'') (fld config ''strategy_version'') \<and>
        py_eq (fld b ''pinned_sha256'') (JStr strategy_sha) \<and>
        py_eq (fld b ''evaluator_sha256'') (JStr (pk_evaluator pk)) \<and>
        py_eq (fld b ''builder_sha256'') (JStr (pk_builder pk)) \<and>
        py_eq (fld b ''normalizer_sha256'') (JStr (pk_normalizer pk)) \<and>
        py_eq (fld b ''contracts_sha256'') (JStr (pk_contracts pk)) \<and>
        fld b ''sha256_verified'' = JBool True \<and>
        py_eq (fld cb ''schema'') (JStr ''hepta.market-context-builder.v3'') \<and>
        py_eq (fld cb ''builder_sha256'') (JStr (pk_builder pk)) \<and>
        py_eq (fld cb ''normalizer_sha256'') (JStr (pk_normalizer pk)) \<and>
        py_eq (fld cb ''contracts_sha256'') (JStr (pk_contracts pk)) \<and>
        py_eq (fld cb ''feature_calculation_version'') (fld config ''feature_calculation_version''))
       ''STRATEGY_PACKET_BINDING_INVALID''))"

definition AUTHORITY_BOUNDARIES :: "(string \<times> string) list" where
  "AUTHORITY_BOUNDARIES =
     [(''authority'', ''paper_authorized''), (''authority'', ''live_authorized''),
      (''source_snapshot'', ''mutation_attempted''), (''source_snapshot'', ''direct_broker_access'')]"

definition check_authority :: "dict \<Rightarrow> unit res" where
  "check_authority packet =
     each (\<lambda>(a, k). bind_res (get2 packet a k) (\<lambda>v. contract (v = JBool False) ''STRATEGY_PACKET_AUTHORITY_INVALID''))
       AUTHORITY_BOUNDARIES"

definition check_evidence_refs :: "dict \<Rightarrow> json list res" where
  "check_evidence_refs packet =
     (case fld packet ''evidence_refs'' of
        JList refs \<Rightarrow>
          bind_res (contract (refs \<noteq> []) ''STRATEGY_EVIDENCE_REFS_INVALID'') (\<lambda>_.
          bind_res (each (\<lambda>r. require_digest r ''STRATEGY_EVIDENCE_REFS_INVALID'') refs) (\<lambda>_. Inr refs))
      | _ \<Rightarrow> Inl (ContractError ''STRATEGY_EVIDENCE_REFS_INVALID''))"

definition check_packet :: "package \<Rightarrow> dict \<Rightarrow> dict \<Rightarrow> string \<Rightarrow> json list res" where
  "check_packet pk packet config strategy_sha =
     bind_res (require_exact_fields (JDict packet) PACKET_FIELDS ''STRATEGY_PACKET_FIELDS_INVALID'') (\<lambda>_.
     bind_res (check_digest_of_body packet) (\<lambda>_.
     bind_res (contract (py_eq (fld packet ''schema'') (JStr ''hepta.market-information-packet.v1'') \<and>
         py_eq (fld packet ''mode'') (JStr ''SHADOW'') \<and> py_eq (fld packet ''instrument'') (JStr ''EUR.USD''))
       ''STRATEGY_PACKET_BOUNDARY_INVALID'') (\<lambda>_.
     bind_res (check_binding pk packet config strategy_sha) (\<lambda>_.
     bind_res (check_authority packet) (\<lambda>_.
     check_evidence_refs packet)))))"

definition decision_times :: "dict \<Rightarrow> int option \<Rightarrow> int option \<Rightarrow> (int \<times> int) res" where
  "decision_times packet started_at finished_at =
     bind_res (require_int (fld packet ''evaluated_at_ms'') ''STRATEGY_PACKET_TIME_INVALID'' (Some 0) None) (\<lambda>evaluated.
     let started = (case started_at of None \<Rightarrow> evaluated | Some t \<Rightarrow> t);
         finished = (case finished_at of None \<Rightarrow> started | Some t \<Rightarrow> t) in
     bind_res (require_int (JInt started) ''STRATEGY_DECISION_TIME_INVALID'' (Some 0) None) (\<lambda>_.
     bind_res (require_int (JInt finished) ''STRATEGY_DECISION_TIME_INVALID'' (Some started) None) (\<lambda>_.
     Inr (started, finished))))"

definition regime_allowed :: "dict \<Rightarrow> string \<Rightarrow> bool res" where
  "regime_allowed config regime =
     bind_res (at2 config ''setup'' ''allowed_regimes'') (\<lambda>allowed.
     bind_res (py_iter allowed) (\<lambda>rs. Inr (list_ex (\<lambda>r. py_eq r (JStr regime)) rs)))"

text \<open>The regime, all reasons in the order they are found, and the direction.\<close>

definition decide :: "dict \<Rightarrow> dict \<Rightarrow> (string \<times> string list \<times> string option) res" where
  "decide packet config =
     bind_res (evidence_reasons packet config) (\<lambda>r0.
     bind_res (if r0 \<noteq> [] then Inr ''unknown'' else classify_regime packet config) (\<lambda>regime.
     bind_res (regime_allowed config regime) (\<lambda>allowed.
     let r1 = add_if (\<not> allowed) (''REGIME_'' @ upper regime @ ''_NOT_ALLOWED'') r0;
         r2 = add_if (regime = ''event'') ''HIGH_IMPACT_EVENT_WINDOW'' r1 in
     bind_res (cost_reasons packet config) (\<lambda>costs.
     bind_res (momentum_direction packet config) (\<lambda>(dirs, side).
     Inr (regime, foldl append_reason (foldl append_reason r2 costs) dirs, side))))))"

definition SETUP_GATES :: "string list" where
  "SETUP_GATES =
     [''AUTHORITATIVE_EVIDENCE'', ''FRESH_EVIDENCE'', ''REGIME_TREND'', ''MOMENTUM_CONFIRMED'',
      ''EMA_DIRECTION_CONFIRMED'', ''EVENT_WINDOW_CLEAR'', ''PORTFOLIO_FLAT'', ''EXPECTED_MOVE_COVERS_COST'']"

definition evaluate :: "package \<Rightarrow> dict \<Rightarrow> dict \<Rightarrow> string \<Rightarrow> int option \<Rightarrow> int option \<Rightarrow> dict res" where
  "evaluate pk packet config strategy_sha started_at finished_at =
     bind_res (check_packet pk packet config strategy_sha) (\<lambda>refs.
     bind_res (decision_times packet started_at finished_at) (\<lambda>(started, finished).
     bind_res (decide packet config) (\<lambda>(regime, reasons, side).
     bind_res (require_int (fld packet ''iteration'') ''STRATEGY_ITERATION_INVALID'' (Some 1) None) (\<lambda>iteration.
     bind_res (bind_res (at2 packet ''information'' ''conflicts'') py_iter) (\<lambda>conflicts.
     let base =
         [(''decision_id'', JStr (py_str (fld packet ''campaign_id'') @ ''-decision-'' @ pad_left 4 (str_of_int iteration))),
          (''started_at_ms'', JInt started), (''finished_at_ms'', JInt finished), (''regime'', JStr regime),
          (''evidence_refs'', JList refs), (''conflicts'', JList conflicts),
          (''campaign_open_request_id'', JNull), (''campaign_close_request_id'', JNull)] in
     case (reasons, side) of
       ([], Some sd) \<Rightarrow>
         bind_res (packet_tag packet) (\<lambda>tag.
         bind_res (intent packet config strategy_sha sd) (\<lambda>trade.
         Inr (base @
           [(''cycle_id'', JStr (''shadow-cycle-'' @ tag)), (''setup_gates'', JList (map JStr SETUP_GATES)),
            (''risk_challenges'', JList []), (''decision'', JStr ''TRADE''), (''reason_codes'', JList []),
            (''trade_intent'', trade), (''final_outcome'', JStr ''SHADOW_TRADE'')])))
     | _ \<Rightarrow>
         Inr (base @
           [(''cycle_id'', JNull), (''setup_gates'', JList []), (''risk_challenges'', JList (map JStr reasons)),
            (''decision'', JStr ''NO_TRADE''),
            (''reason_codes'', JList (map JStr (if reasons = [] then [''NO_DIRECTION''] else reasons))),
            (''trade_intent'', JNull), (''final_outcome'', JStr ''NO_TRADE'')]))))))"

subsection \<open>The package digest and the command line\<close>

definition script_digests :: "string \<Rightarrow> package io" where
  "script_digests script_root =
     bind_io (digest_file (path_join script_root ''hepta_eurusd_confirmed_momentum_strategy.py'')) (\<lambda>e.
     bind_io (digest_file (path_join script_root ''hepta_market_context_builder.py'')) (\<lambda>b.
     bind_io (digest_file (path_join script_root ''hepta_market_evidence_normalizer.py'')) (\<lambda>n.
     bind_io (digest_file (path_join script_root ''hepta_strategy_contracts.py'')) (\<lambda>c.
     return_io \<lparr>pk_evaluator = e, pk_builder = b, pk_normalizer = n, pk_contracts = c\<rparr>))))"

definition strategy_package_digest :: "string \<Rightarrow> string \<Rightarrow> string io" where
  "strategy_package_digest script_root config_path =
     bind_io (load_strategy config_path) (\<lambda>config.
     bind_io (digest_file config_path) (\<lambda>config_sha.
     bind_io (script_digests script_root) (\<lambda>pk.
     lift_io (digest_document (JDict
       [(''schema'', JStr ''hepta.strategy-package-binding.v3''), (''strategy_id'', fld config ''strategy_id''),
        (''strategy_version'', fld config ''strategy_version''), (''config_sha256'', JStr config_sha),
        (''evaluator_sha256'', JStr (pk_evaluator pk)), (''builder_sha256'', JStr (pk_builder pk)),
        (''normalizer_sha256'', JStr (pk_normalizer pk)), (''contracts_sha256'', JStr (pk_contracts pk))])))))"

definition strategy_run :: "string \<Rightarrow> string \<Rightarrow> string \<Rightarrow> string \<Rightarrow> int option \<Rightarrow> int option \<Rightarrow> string io" where
  "strategy_run script_root config_path packet_path output_path started_at finished_at =
     bind_io (load_strategy config_path) (\<lambda>config.
     bind_io (strategy_package_digest script_root config_path) (\<lambda>package_sha.
     bind_io (load_document packet_path ''STRATEGY_PACKET'') (\<lambda>packet.
     bind_io (script_digests script_root) (\<lambda>pk.
     bind_io (lift_io (evaluate pk packet config package_sha started_at finished_at)) (\<lambda>decision.
     then_io (atomic_write_json output_path (JDict decision))
     (return_io (py_str (fld decision ''decision''))))))))"

text \<open>The exit status and the decision printed.\<close>

definition strategy_main :: "string \<Rightarrow> string \<Rightarrow> string \<Rightarrow> string \<Rightarrow> int option \<Rightarrow> int option \<Rightarrow> (nat \<times> string) io" where
  "strategy_main script_root config_path packet_path output_path started_at finished_at os w =
     (case strategy_run script_root config_path packet_path output_path started_at finished_at os w of
        (Inr d, w') \<Rightarrow> (Inr (0, d), w')
      | (Inl e, w') \<Rightarrow>
          if os_error e \<or> value_error e \<or> (case e of ContractError _ \<Rightarrow> True | _ \<Rightarrow> False)
          then (Inr (78, []), w') else (Inl e, w'))"

end
