(* ===== verification/Strategy_Safety.thy ===== *)
theory Strategy_Safety
  imports Momentum_Strategy
begin

section \<open>When the evaluator may decide to trade\<close>

text \<open>
  An accepted configuration is paper-only, grants no authority and bounds the size, horizon and
  holding time of an intent. A \<open>TRADE\<close> decision requires every gate to hold; every other
  decision names its reasons and carries no intent.
\<close>

subsection \<open>Requirements\<close>

named_theorems requirement_simps

lemma contract_iff [requirement_simps]: "contract b r = Inr u \<longleftrightarrow> b"
  by (simp add: contract_def guard_res_iff)

lemma each_iff [requirement_simps]: "each f xs = Inr u \<longleftrightarrow> (\<forall>x \<in> set xs. \<exists>y. f x = Inr y)"
  by (induction xs) (auto simp: each_def bind_res_Inr_iff)

lemma require_exact_fields_iff [requirement_simps]:
  "require_exact_fields v fs r = Inr d \<longleftrightarrow> v = JDict d \<and> set (map fst d) = set fs"
  by (cases v) (auto simp: require_exact_fields_def bind_res_Inr_iff contract_iff)

lemma require_bool_iff [requirement_simps]: "require_bool v b r = Inr u \<longleftrightarrow> v = JBool b"
  by (simp add: require_bool_def contract_iff)

lemma require_int_iff [requirement_simps]:
  "require_int v r (Some lo) hi = Inr i \<longleftrightarrow> v = JInt i \<and> lo \<le> i \<and> (\<forall>n. hi = Some n \<longrightarrow> i \<le> n)"
  by (cases v; cases hi) (auto simp: require_int_def bind_res_Inr_iff contract_iff)

lemma ranged_iff [requirement_simps]: "ranged d r lo hi k = Inr i \<longleftrightarrow> fld d k = JInt i \<and> lo \<le> i \<and> i \<le> hi"
  by (simp add: ranged_def require_int_iff)

lemma require_digest_iff [requirement_simps]: "require_digest v r = Inr s \<longleftrightarrow> v = JStr s \<and> is_digest s"
  by (cases v) (auto simp: require_digest_def bind_res_Inr_iff contract_iff)



lemma check_intent_facts:
  "check_intent c = Inr u \<Longrightarrow> \<exists>d q h t. fld c ''shadow_intent_contract'' = JDict d \<and>
     fld d ''maximum_quantity'' = JInt q \<and> 1 \<le> q \<and> q \<le> 1000 \<and>
     fld d ''maximum_intent_horizon_seconds'' = JInt h \<and> 2 \<le> h \<and> h \<le> 3600 \<and>
     fld d ''maximum_holding_seconds'' = JInt t \<and> 60 \<le> t \<and> t \<le> 86400"
  by (auto simp: check_intent_def bind_res_Inr_iff requirement_simps)



lemma check_strategy_facts:
  assumes "check_strategy v = Inr c"
  shows "v = JDict c" "set (map fst c) = set CONFIG_FIELDS" "\<exists>u. check_header c = Inr u" "\<exists>u e. check_windows c e = Inr u"
    "\<exists>u. check_setup c = Inr u" "\<exists>u. check_intent c = Inr u" "\<exists>u. check_policy c = Inr u"
  using assms by (auto simp: check_strategy_def bind_res_Inr_iff requirement_simps)


subsection \<open>Members\<close>

lemma py_item_fld: "py_item (JDict d) k = Inr v \<Longrightarrow> fld d k = v"
  by (auto simp: py_item_def fld_def get_default_def split: option.splits)

lemma at2_fld: "at2 c a k = Inr v \<Longrightarrow> fld c a = JDict d \<Longrightarrow> fld d k = v"
  by (auto simp: at2_def bind_res_Inr_iff dest!: py_item_fld)

text \<open>C29. The intent of a trade stays within hard limits: with an accepted configuration the
quantity is an integer from 1 to 1000, the intent expires between two seconds and one hour after
the evaluation and the position is held between one minute and one day.\<close>

theorem intent_bounds:
  assumes "check_strategy v = Inr c" and "intent packet c sha side = Inr t"
  shows "\<exists>d q evaluated expires held. t = JDict d \<and> fld d ''paper_only'' = JBool True \<and>
    fld d ''quantity'' = JInt q \<and> 1 \<le> q \<and> q \<le> 1000 \<and>
    as_int (fld packet ''evaluated_at_ms'') = Inr evaluated \<and> fld d ''expires_at_ms'' = JInt expires \<and>
    evaluated + 2000 \<le> expires \<and> expires \<le> evaluated + 3600000 \<and>
    fld d ''max_holding_ms'' = JInt held \<and> 60000 \<le> held \<and> held \<le> 86400000"
proof -
  obtain k q h s where k: "fld c ''shadow_intent_contract'' = JDict k" "fld k ''maximum_quantity'' = JInt q" "1 \<le> q" "q \<le> 1000"
    "fld k ''maximum_intent_horizon_seconds'' = JInt h" "2 \<le> h" "h \<le> 3600"
    "fld k ''maximum_holding_seconds'' = JInt s" "60 \<le> s" "s \<le> 86400"
    using check_strategy_facts(6) [OF assms(1)] check_intent_facts by metis
  from assms(2) obtain quantity ev evaluated hv horizon tv holding d where
    i: "at2 c ''shadow_intent_contract'' ''maximum_quantity'' = Inr quantity"
      "py_item (JDict packet) ''evaluated_at_ms'' = Inr ev" "as_int ev = Inr evaluated"
      "at2 c ''shadow_intent_contract'' ''maximum_intent_horizon_seconds'' = Inr hv" "as_int hv = Inr horizon"
      "at2 c ''shadow_intent_contract'' ''maximum_holding_seconds'' = Inr tv" "as_int tv = Inr holding"
      "t = JDict d" "fld d ''paper_only'' = JBool True" "fld d ''quantity'' = quantity"
      "fld d ''expires_at_ms'' = JInt (evaluated + horizon * 1000)" "fld d ''max_holding_ms'' = JInt (holding * 1000)"
    unfolding intent_def bind_res_Inr_iff by (elim exE conjE) (force simp: fld_def get_default_def)
  have "quantity = JInt q" "horizon = h" "holding = s"
    using at2_fld [OF i(1) k(1)] at2_fld [OF i(4) k(1)] at2_fld [OF i(6) k(1)] k i(5,7) by (auto simp: as_int_def)
  then show ?thesis using i(3,8-) py_item_fld [OF i(2)] k by force
qed

subsection \<open>Reasons\<close>

lemma append_reason_nonempty [simp]: "append_reason rs r \<noteq> []"
  by (auto simp: append_reason_def)

lemma foldl_append_reason_Nil [simp]: "foldl append_reason rs xs = [] \<longleftrightarrow> rs = [] \<and> xs = []"
  by (induction xs arbitrary: rs) auto

lemma add_if_Nil [simp]: "add_if b r rs = [] \<longleftrightarrow> \<not> b \<and> rs = []"
  by (simp add: add_if_def)

















subsection \<open>A packet that is traded\<close>

text \<open>The configuration in \<open>strategies/eurusd-confirmed-momentum-shadow-v2.json\<close> with an estimated
slippage of zero, and a packet with complete evidence and an upward trend, whose numbers are
integers and whose body digest is the one of its other members.\<close>

definition sample_regime :: json where
  "sample_regime = JDict
     [(''maximum_range_ema_separation_bps'', JFloat (Finite False 6755399441055744 (- 53))),
      (''minimum_trend_ema_separation_bps'', JFloat (Finite False 6755399441055744 (- 52))),
      (''minimum_trend_slope_bps'', JFloat (Finite False 4503599627370496 (- 53)))]"

definition setup_with :: "json \<Rightarrow> json \<Rightarrow> json \<Rightarrow> json \<Rightarrow> json \<Rightarrow> json \<Rightarrow> json \<Rightarrow> json \<Rightarrow> dict" where
  "setup_with min_window max_window min_confirmation max_spread min_vol max_vol multiple slippage =
     [(''allowed_regimes'', JList [JStr ''trend'']),
      (''conflicting_information_action'', JStr ''NO_TRADE''),
      (''estimated_slippage_bps'', slippage),
      (''event_exclusion_after_seconds'', JInt 900),
      (''event_exclusion_before_seconds'', JInt 1800),
      (''maximum_window_return_bps'', max_window),
      (''maximum_spread_bps'', max_spread),
      (''maximum_step_volatility_bps'', max_vol),
      (''minimum_cost_multiple'', multiple),
      (''minimum_confirmation_return_bps'', min_confirmation),
      (''minimum_step_volatility_bps'', min_vol),
      (''minimum_window_return_bps'', min_window),
      (''require_zero_active_orders'', JBool True),
      (''require_zero_gross_exposure'', JBool True),
      (''require_zero_position'', JBool True)]"

definition sample_setup :: dict where
  "sample_setup = setup_with
     (JFloat (Finite False 5629499534213120 (- 50)))
     (JFloat (Finite False 5629499534213120 (- 47)))
     (JFloat (Finite False 4503599627370496 (- 51)))
     (JFloat (Finite False 6755399441055744 (- 52)))
     (JFloat (Finite False 7205759403792794 (- 57)))
     (JFloat (Finite False 6755399441055744 (- 49)))
     (JFloat (Finite False 6755399441055744 (- 51)))
     (JFloat fl_zero)"

definition config_with :: "json \<Rightarrow> json \<Rightarrow> json \<Rightarrow> dict" where
  "config_with regime setup stop =
     [(''decision_policy'', JDict [(''direct_broker_access'', JBool False),
        (''missing_required_evidence'', JStr ''NO_TRADE''), (''mutation_attempted'', JBool
        False), (''stale_or_conflicting_evidence'', JStr ''NO_TRADE''),
        (''unknown_or_transition_regime'', JStr ''NO_TRADE'')]),
      (''evidence_requirements'', JDict [(''authoritative_account'', JBool True),
        (''authoritative_health'', JBool True), (''authoritative_orders'', JBool True),
        (''authoritative_positions'', JBool True), (''authoritative_quote'', JBool True),
        (''authoritative_risk'', JBool True), (''economic_calendar_required'', JBool True),
        (''information_provenance_required'', JBool True), (''minimum_bar_observations'', JInt
        40), (''minimum_raw_quote_observations'', JInt 361),
        (''minimum_resampled_quote_observations'', JInt 7), (''minimum_history_span_seconds'',
        JInt 5400)]),
      (''feature_calculation_version'', JStr ''eurusd-shadow-features-v2''),
      (''feature_windows'', JDict [(''atr_bars'', JInt 14), (''bar_interval_seconds'', JInt
        300), (''breakout_bars'', JInt 20), (''fast_ema_bars'', JInt 12),
        (''quote_confirmation_seconds'', JInt 900), (''quote_lookback_seconds'', JInt 5400),
        (''quote_maximum_gap_seconds'', JInt 15), (''quote_resample_seconds'', JInt 900),
        (''slow_ema_bars'', JInt 36), (''slope_lookback_bars'', JInt 6)]),
      (''freshness_limits'', JDict [(''bar_age_ms'', JInt 600000),
        (''economic_calendar_age_ms'', JInt 900000), (''information_observation_age_ms'', JInt
        900000), (''portfolio_snapshot_age_ms'', JInt 10000), (''quote_age_ms'', JInt 5000)]),
      (''instrument'', JDict [(''asset_class'', JStr ''CASH''), (''canonical_symbol'', JStr
        ''EUR.USD''), (''currency'', JStr ''USD''), (''exchange'', JStr ''IDEALPRO''),
        (''symbol'', JStr ''EUR'')]),
      (''live_authorized'', JBool False),
      (''paper_only'', JBool True),
      (''regime'', regime),
      (''schema'', JStr ''hepta.confirmed-momentum-strategy.v2''),
      (''setup'', setup),
      (''shadow_intent_contract'', JDict [(''limit_price_rule'', JStr
        ''BUY_AT_AUTHORITATIVE_ASK_OR_SELL_AT_AUTHORITATIVE_BID''),
        (''maximum_holding_seconds'', JInt 1800), (''maximum_intent_horizon_seconds'', JInt 60),
        (''maximum_quantity'', JInt 1), (''order_type'', JStr ''LMT''), (''stop_atr_multiple'',
        stop), (''time_in_force'', JStr ''DAY'')]),
      (''strategy_id'', JStr ''eurusd-confirmed-momentum-shadow''),
      (''strategy_version'', JStr ''2.0.0'')]"

definition sample_config :: dict where
  "sample_config = config_with sample_regime (JDict sample_setup) (JFloat (Finite False 6755399441055744 (- 53)))"

definition sample_body :: dict where
  "sample_body =
     [(''schema'', JStr ''hepta.market-information-packet.v1''),
      (''packet_id'', JStr ''p-1''),
      (''campaign_id'', JStr ''c-1''),
      (''iteration'', JInt 1),
      (''mode'', JStr ''SHADOW''),
      (''created_at_ms'', JInt 1000),
      (''evaluated_at_ms'', JInt 2000),
      (''instrument'', JStr ''EUR.USD''),
      (''strategy'', JDict [(''strategy_id'', JStr ''eurusd-confirmed-momentum-shadow''),
        (''strategy_version'', JStr ''2.0.0''), (''pinned_sha256'', JStr ''s''),
        (''config_sha256'', JStr ''c''), (''evaluator_sha256'', JStr ''e''),
        (''builder_sha256'', JStr ''b''), (''normalizer_sha256'', JStr ''n''),
        (''contracts_sha256'', JStr ''k''), (''sha256_verified'', JBool True)]),
      (''context_builder'', JDict [(''schema'', JStr ''hepta.market-context-builder.v3''),
        (''builder_sha256'', JStr ''b''), (''normalizer_sha256'', JStr ''n''),
        (''contracts_sha256'', JStr ''k''), (''feature_calculation_version'', JStr
        ''eurusd-shadow-features-v2'')]),
      (''source_snapshot'', JDict [(''mutation_attempted'', JBool False),
        (''direct_broker_access'', JBool False)]),
      (''authority'', JDict [(''health_authoritative'', JBool True), (''quote_authoritative'',
        JBool True), (''account_authoritative'', JBool True), (''positions_authoritative'',
        JBool True), (''orders_authoritative'', JBool True), (''risk_authoritative'', JBool
        True), (''paper_authorized'', JBool False), (''live_authorized'', JBool False)]),
      (''freshness'', JDict [(''quote_fresh'', JBool True), (''portfolio_freshness_provable'',
        JBool True), (''bar_fresh'', JBool True), (''quote_observed_at_ms'', JInt 1900)]),
      (''provenance'', JDict [(''information_provenance_present'', JBool True),
        (''calendar_provenance_present'', JBool True)]),
      (''market'', JDict [(''mid'', JInt 1), (''bid'', JInt 1), (''ask'', JInt 1),
        (''spread_bps'', JInt 1)]),
      (''session'', JDict []),
      (''history'', JDict [(''quote_provenance_provable'', JBool True), (''quote_complete'',
        JBool True), (''bar_provenance_provable'', JBool True), (''bar_complete'', JBool True),
        (''raw_quote_observations'', JInt 400), (''resampled_quote_observations'', JInt 7),
        (''span_seconds'', JInt 5400), (''bar_observations'', JInt 40)]),
      (''features'', JDict [(''window_return_bps'', JInt 8), (''confirmation_return_bps'', JInt
        4), (''ema_separation_bps'', JInt 2), (''ema_fast_slope_bps'', JInt 1),
        (''step_volatility_bps'', JInt 1), (''atr_bps'', JInt 6)]),
      (''economic_calendar'', JDict [(''present'', JBool True),
        (''high_impact_event_window_active'', JBool False)]),
      (''information'', JDict [(''conflicts'', JList [])]),
      (''portfolio'', JDict [(''active_order_count'', JInt 0), (''position_quantity'', JInt 0),
        (''gross_exposure'', JInt 0)]),
      (''service'', JDict []),
      (''privacy'', JDict []),
      (''evidence_refs'', JList [JStr
        ''sha256:0000000000000000000000000000000000000000000000000000000000000000''])]"

definition sample_packet :: "string \<Rightarrow> dict" where
  "sample_packet h = sample_body @ [(''body_sha256'', JStr h)]"


lemma config_parts:
  "check_header (config_with rg su st) = Inr ()" "check_instrument (config_with rg su st) = Inr ()"
  "check_freshness (config_with rg su st) = Inr ()" "check_policy (config_with rg su st) = Inr ()"
  "bind_res (check_evidence (config_with rg su st)) (check_windows (config_with rg su st)) = Inr ()"
  by code_simp+

lemma config_setup: "at2 (config_with rg (JDict su) st) ''setup'' k = py_item (JDict su) k"
  by (simp add: at2_def py_item_def config_with_def)





lemma sample_canonical: "canonical_json (JDict sample_body)"
  by (simp add: sample_body_def printable_int_def str_of_nat.simps int_max_str_digits_def)

lemma packet_numbers:
  "num2 (sample_packet h) ''market'' ''spread_bps'' = Inr (PInt 1)"
  "num2 (sample_packet h) ''market'' ''mid'' = Inr (PInt 1)"
  "num2 (sample_packet h) ''features'' ''step_volatility_bps'' = Inr (PInt 1)"
  "num2 (sample_packet h) ''features'' ''ema_separation_bps'' = Inr (PInt 2)"
  "num2 (sample_packet h) ''features'' ''ema_fast_slope_bps'' = Inr (PInt 1)"
  "num2 (sample_packet h) ''features'' ''window_return_bps'' = Inr (PInt 8)"
  "num2 (sample_packet h) ''features'' ''confirmation_return_bps'' = Inr (PInt 4)"
  "num2 (sample_packet h) ''features'' ''atr_bps'' = Inr (PInt 6)"
  "get2 (sample_packet h) ''economic_calendar'' ''high_impact_event_window_active'' = Inr (JBool False)"
  by code_simp+

subsubsection \<open>The configuration is accepted\<close>

lemma not_negative_finite:
  "fld d k = JFloat (Finite False m e) \<Longrightarrow> not_negative d r k = Inr (Finite False m e)"
  by (simp add: not_negative_def require_number_def contract_def reraise_def fl_zero_def mag_val_def pow2_def
      not_less)

lemma setup_numbers:
  "item_num sample_setup ''minimum_window_return_bps'' = Inr (PFloat (Finite False 5629499534213120 (- 50)))"
  "item_num sample_setup ''maximum_window_return_bps'' = Inr (PFloat (Finite False 5629499534213120 (- 47)))"
  "item_num sample_setup ''minimum_confirmation_return_bps'' = Inr (PFloat (Finite False 4503599627370496 (- 51)))"
  "item_num sample_setup ''maximum_spread_bps'' = Inr (PFloat (Finite False 6755399441055744 (- 52)))"
  "item_num sample_setup ''minimum_step_volatility_bps'' = Inr (PFloat (Finite False 7205759403792794 (- 57)))"
  "item_num sample_setup ''maximum_step_volatility_bps'' = Inr (PFloat (Finite False 6755399441055744 (- 49)))"
  "item_num sample_setup ''minimum_cost_multiple'' = Inr (PFloat (Finite False 6755399441055744 (- 51)))"
  "item_num sample_setup ''estimated_slippage_bps'' = Inr (PFloat (Finite False 0 (- 1074)))"
  by (simp_all add: item_num_def py_item_def sample_setup_def setup_with_def fl_zero_def)

lemma setup_accepted: "check_setup sample_config = Inr ()"
proof -
  have d: "fld sample_config ''setup'' = JDict sample_setup"
    by (simp add: fld_def get_default_def sample_config_def config_with_def)
  have "set (map fst sample_setup) = set SETUP_FIELDS"
    by (simp add: sample_setup_def setup_with_def SETUP_FIELDS_def SETUP_NUMBERS_def FLAT_FLAGS_def insert_commute)
  then have f: "require_exact_fields (JDict sample_setup) SETUP_FIELDS r = Inr sample_setup" for r
    by (simp add: require_exact_fields_iff)
  have n: "each (not_negative sample_setup r) SETUP_NUMBERS = Inr ()" for r
    unfolding each_iff
    by (auto simp: SETUP_NUMBERS_def fld_def get_default_def sample_setup_def setup_with_def fl_zero_def
        intro!: exI not_negative_finite)
  have r: "range_ok sample_setup ''minimum_window_return_bps'' ''maximum_window_return_bps'' = Inr True"
    "range_ok sample_setup ''minimum_step_volatility_bps'' ''maximum_step_volatility_bps'' = Inr True"
    by (simp_all add: range_ok_def setup_numbers num_le_def mag_val_def pow2_def)
  have e: "each (ranged sample_setup r 0 86400) [''event_exclusion_before_seconds'', ''event_exclusion_after_seconds''] = Inr ()" for r
    by (simp add: each_iff ranged_iff fld_def get_default_def sample_setup_def setup_with_def)
  have l: "each (\<lambda>k. require_bool (fld sample_setup k) True r) FLAT_FLAGS = Inr ()" for r
    by (simp add: each_iff require_bool_iff FLAT_FLAGS_def fld_def get_default_def sample_setup_def setup_with_def)
  have p: "py_eq (fld sample_setup ''allowed_regimes'') (JList [JStr ''trend''])"
    "py_eq (fld sample_setup ''conflicting_information_action'') (JStr ''NO_TRADE'')"
    by (simp_all add: fld_def get_default_def sample_setup_def setup_with_def)
  show ?thesis by (simp add: check_setup_def d f n r e l p contract_def)
qed

lemma regime_accepted: "check_regime sample_config = Inr ()"
  by (auto simp: check_regime_def bind_res_Inr_iff requirement_simps sample_config_def config_with_def
      sample_regime_def fld_def get_default_def REGIME_FIELDS_def insert_commute intro!: exI not_negative_finite)

lemma ten_value: "ten = Finite False 5629499534213120 (- 49)"
  by (simp add: ten_def fl_round_def round_mag_def ilog2_def pow2_def round_half_even_def bitlen_def compute_floorlog)

lemma intent_accepted: "check_intent sample_config = Inr ()"
  by (simp add: check_intent_def require_exact_fields_def contract_def ranged_def require_int_def require_number_def
      reraise_def sample_config_def config_with_def fld_def get_default_def INTENT_FIELDS_def insert_commute ten_value
      fl_zero_def mag_val_def pow2_def)

lemma sample_config_accepted: "check_strategy (JDict sample_config) = Inr sample_config"
proof -
  have "set (map fst sample_config) = set CONFIG_FIELDS"
    by (simp add: sample_config_def config_with_def CONFIG_FIELDS_def insert_commute)
  then show ?thesis
    using config_parts [of sample_regime "JDict sample_setup" "JFloat (Finite False 6755399441055744 (- 53))", folded sample_config_def]
    by (auto simp: check_strategy_def bind_res_Inr_iff require_exact_fields_iff setup_accepted regime_accepted intent_accepted)
qed

subsubsection \<open>The decision on the packet\<close>

lemma setup_num2: "num2 sample_config ''setup'' k = item_num sample_setup k"
  by (simp add: num2_def item_num_def sample_config_def config_setup)



lemma fl_values:
  "fl_round b 1 = Finite False 4503599627370496 (- 52)" "fl_round b 6 = Finite False 6755399441055744 (- 50)"
  "fl_round b 2 = Finite False 4503599627370496 (- 51)" "fl_round b 0 = Finite b 0 (- 1074)"
  by (simp_all add: fl_round_def round_mag_def ilog2_def pow2_def round_half_even_def bitlen_def compute_floorlog)





subsubsection \<open>Digests\<close>







definition sample_digest :: string where
  "sample_digest = digest_bytes (dumps (JDict sample_body) @ [LF])"

abbreviation traded_packet :: dict where
  "traded_packet \<equiv> sample_packet sample_digest"





subsubsection \<open>The intent\<close>

lemma fl_values_more:
  "fl_round b 4 = Finite False 4503599627370496 (- 50)" "fl_round b 8 = Finite False 4503599627370496 (- 49)"
  "fl_round b 10000 = Finite False 5497558138880000 (- 39)"
  by (simp_all add: fl_round_def round_mag_def ilog2_def pow2_def round_half_even_def bitlen_def compute_floorlog)

lemma intent_members:
  "at2 (sample_packet h) ''market'' ''ask'' = Inr (JInt 1)" "at2 (sample_packet h) ''market'' ''bid'' = Inr (JInt 1)"
  "at2 (sample_packet h) ''freshness'' ''quote_observed_at_ms'' = Inr (JInt 1900)"
  "py_item (JDict (sample_packet h)) ''evaluated_at_ms'' = Inr (JInt 2000)"
  "at2 (sample_packet h) ''features'' ''window_return_bps'' = Inr (JInt 8)"
  "at2 (sample_packet h) ''features'' ''confirmation_return_bps'' = Inr (JInt 4)"
  "at2 (sample_packet h) ''features'' ''ema_separation_bps'' = Inr (JInt 2)"
  "at2 (config_with rg su st) ''shadow_intent_contract'' ''maximum_quantity'' = Inr (JInt 1)"
  "at2 (config_with rg su st) ''shadow_intent_contract'' ''maximum_intent_horizon_seconds'' = Inr (JInt 60)"
  "at2 (config_with rg su st) ''shadow_intent_contract'' ''maximum_holding_seconds'' = Inr (JInt 1800)"
  "at2 (config_with rg su st) ''shadow_intent_contract'' ''stop_atr_multiple'' = Inr st"
  by code_simp+

lemma packet_tag_defined: "\<exists>tag. packet_tag traded_packet = Inr tag"
proof -
  have "canonical_json (JDict traded_packet)" using sample_canonical by (simp add: sample_packet_def)
  then show ?thesis by (simp add: packet_tag_def digest_document_def canonical_bytes_def contract_def del: dumps.simps canonical_json.simps)
qed

lemma intent_defined: "\<exists>t. intent traded_packet sample_config ''s'' ''BUY'' = Inr t"
proof -
  obtain tag where tag: "packet_tag traded_packet = Inr tag" using packet_tag_defined by blast
  have stop: "num2 sample_config ''shadow_intent_contract'' ''stop_atr_multiple'' = Inr (PFloat (Finite False 6755399441055744 (- 53)))"
    by (simp add: num2_def sample_config_def intent_members)
  note c = intent_members(8-10) [of sample_regime "JDict sample_setup" "JFloat (Finite False 6755399441055744 (- 53))",
      folded sample_config_def]
  show ?thesis
    unfolding intent_def
    by (simp add: packet_numbers setup_num2 setup_numbers stop c intent_members tag ten_thousand_def fl_values fl_values_more
        num_mul_def num_arith_def num_div_def fl_div_def fl_is_zero_def float_of_int_def rounded_def fixed4_def as_int_def
        Let_def del: format_fixed.simps)
qed



theorem intent_bounds_witness:
  "\<exists>t d q. check_strategy (JDict sample_config) = Inr sample_config \<and>
    intent traded_packet sample_config ''s'' ''BUY'' = Inr t \<and> t = JDict d \<and> fld d ''quantity'' = JInt q \<and> 1 \<le> q \<and> q \<le> 1000"
proof -
  obtain t where "intent traded_packet sample_config ''s'' ''BUY'' = Inr t" using intent_defined by blast
  then show ?thesis using intent_bounds [OF sample_config_accepted] sample_config_accepted by blast
qed



end
