(* ===== verification/Spec2Isabelle.thy ===== *)
theory Spec2Isabelle
  imports Json_Fuel Maintenance Crash_Safety Store_Walk Strategy_Safety
begin

section \<open>Verification of the HeptaTrader order journal tools\<close>

text \<open>
  HeptaTrader's execution service appends every order event to a journal of JSON lines. The
  Python tools under \<open>src/scripts\<close> verify that journal, compress it, seal it into immutable
  generations with cumulative indexes, rebuild and export it; a second group decides, from a
  market packet and a pinned configuration, whether a strategy may emit a trade intent. This
  development models those tools and proves what they promise.

  \<^bold>\<open>Conventions.\<close> \<open>str\<close> and \<open>bytes\<close> are HOL strings of UTF-8 bytes. A Python exception is
  a value of type \<open>exn\<close> and a function that may raise returns \<open>'a res = exn + 'a\<close>. A
  dictionary is an association list in insertion order. A \<open>float\<close> is an exact binary64 value.
  A generator is the list it yields with the exception that ends it. Loops are structural
  recursion or \<open>function\<close>s with a measure. Two loops have fuel: the walk over the generation
  chain, with one unit per name in the file system and one more (theory \<open>Store_Walk\<close> shows that it is enough), and
  the JSON parser, with two units per byte and two more (theory \<open>Json_Fuel\<close>).

  \<^bold>\<open>Text, numbers and JSON.\<close> \<open>Prelude\<close> holds the result type and its combinators, \<open>Py_Text\<close>
  the string methods, \<open>Framing\<close> the splitting of a byte stream into lines, \<open>Py_Float\<close> and
  \<open>Py_Number\<close> the arithmetic, \<open>Json\<close> the values, \<open>Json_Codec\<close> \<open>json.loads\<close> and
  \<open>json.dumps\<close>, \<open>Py_Object\<close> dynamic operations (\<open>==\<close>, \<open>.get\<close>, \<open>str\<close>), and
  \<open>Sha256\<close> the digest.

  \<^bold>\<open>The journal\<close> (\<open>verify_oms_journal_replay.py\<close>, \<open>oms_archive_codec.py\<close>). \<open>Archive_Codec\<close>
  reads plain and gzip files, with zlib as a parameter; \<open>Posix\<close> the file identity checks;
  \<open>Journal\<close> validates records within budgets; \<open>Replay\<close> removes duplicates and replays.
  Lemmas: an accepted journal is reproduced byte for byte, reading in chunks equals splitting
  the whole file, replay equals a fold over the first record of every key.

  \<^bold>\<open>Projection and compaction\<close> (\<open>hepta_oms_checkpoint.py\<close>). \<open>Projection\<close> and
  \<open>Keyed_Log\<close> model the command registry and the hot selection of \<open>_project_hot\<close>,
  \<open>Compaction\<close> and \<open>Hot_Replay\<close> prove that the compacted journal restores every protection.

  \<^bold>\<open>Indexes\<close> (\<open>hepta_oms_checkpoint.py\<close>, \<open>hepta_oms_lifecycle.py\<close>). \<open>Index_Codec\<close> has the
  row formats and the sentinel, \<open>Send_Index\<close> and \<open>Send_Sort\<close> the external merge sort of send
  attempts, \<open>Command_Index\<close> the merge of the command index. They show that the merges equal a
  sort of all rows and that sealing keeps the index equal to the projection of the history; two
  properties record where the merge differs from the projection.

  \<^bold>\<open>Simulator state and segments\<close> (\<open>hepta_oms_lifecycle.py\<close>). \<open>Simulator\<close> restores, replays
  and projects simulator positions; \<open>Strict_Records\<close> is the sealer's reader and agrees with
  the verifier's.

  \<^bold>\<open>The operating system.\<close> \<open>Os_Model\<close> models the file system and every call the tools make:
  names, nodes, what has been synced, and an environment that decides which call fails and what
  others change meanwhile. \<open>Io_Logic\<close> has the relational rules (one locale, instances for
  reading only, for keeping files, for keeping a name and for adding empty nodes) and triples.

  \<^bold>\<open>Generations\<close> (\<open>hepta_oms_checkpoint.py\<close>, \<open>hepta_oms_lifecycle.py\<close>). \<open>Gen_Files\<close> holds
  the file helpers, \<open>Generation_V1\<close> building, verifying and lookup, \<open>Generation_V2\<close> sealing,
  verifying, rebasing, pruning and exporting, with both command lines on parsed arguments.
  \<open>File_Safety\<close> shows what the helpers guarantee under partial writes and failures,
  \<open>Seal_Safety\<close> which files a seal writes, \<open>Crash_Safety\<close> that no interruption loses a record,
  \<open>Store_Walk\<close> termination of the chain walk, the lookup and that verification only reads.

  \<^bold>\<open>Repacking\<close> (\<open>hepta_oms_archive.py\<close>). \<open>Maintenance\<close> models the transformation, with the
  gzip encoder as a parameter, and \<open>main\<close> of the replay verifier.

  \<^bold>\<open>Strategy\<close> (\<open>hepta_strategy_contracts.py\<close>, \<open>hepta_eurusd_confirmed_momentum_strategy.py\<close>).
  \<open>Strategy_Contracts\<close> and \<open>Momentum_Strategy\<close> model strict documents, the configuration
  checks, the gates and the decision; \<open>Strategy_Safety\<close> shows when the evaluator may trade.

  \<^bold>\<open>Not modelled.\<close> The scope is the Python journal tools and the strategy evaluator. The C++
  programs under \<open>src/HeptaTrade\<close> are left out, among them the service's own reader of the
  generations, so that it agrees with the Python reader is not shown. So are \<open>src/research\<close>,
  \<open>src/adapters\<close>, \<open>src/plugins\<close>, the other scripts, the systemd units and the tests; some of
  these are pure and could be added. Of the modelled scripts the following are left out:
  argument parsing, the test hooks between phases, the temporary files of the external sort
  (represented by their contents), and Python's limit on the nesting depth of a JSON document.
  Symbolic links in the directory part of a path are not resolved and \<open>close\<close> has no effect.
\<close>

end
